(* ===== verification/Mesh_Prelude.thy ===== *)
theory Mesh_Prelude
  imports Main "HOL-Library.Word"
begin

unbundle bit_operations_syntax

section \<open>Prelude: the machine types and the generic lemmas of the development\<close>

text \<open>
  The integer types of the C++ sources are kept at their width: \<open>uint8_t\<close> to
  \<open>uint64_t\<close> are words, \<open>int32_t\<close> is the same 32-bit pattern read with \<open>sint\<close>
  where its sign matters. A \<open>std::string\<close> and a \<open>std::vector<uint8_t>\<close> are both byte
  lists. Arithmetic that C++ does in \<open>int\<close> after the integer promotions is done on
  \<open>nat\<close> or \<open>int\<close> and cast back where the code casts back.

  \<open>word_bytes\<close> collects the equations that put a word back together from its bytes;
  \<open>wire\<close> collects the facts about the byte level that the packet theories use.
\<close>

type_synonym u8 = "8 word"
type_synonym u16 = "16 word"
type_synonym u32 = "32 word"
type_synonym i32 = "32 word"
type_synonym u64 = "64 word"
type_synonym bytes = "8 word list"

named_theorems word_bytes
named_theorems wire

definition ascii :: "string \<Rightarrow> bytes" where
  "ascii s = map of_char s"

lemma length_ascii [simp]: "length (ascii s) = length s"
  by (simp add: ascii_def)

lemma ascii_Nil_iff [simp]: "ascii s = [] \<longleftrightarrow> s = []"
  by (simp add: ascii_def)

subsection \<open>Bytes of a word\<close>

lemma and_255 [simp]: "(x :: u8) AND 0xFF = x"
proof -
  have *: "(0xFF :: u8) = - 1" by simp
  show ?thesis unfolding * by simp
qed

lemma and_all_ones:
  "(x16 :: u16) AND 0xFFFF = x16"
  "(x32 :: u32) AND 0xFFFFFFFF = x32"
  "(x64 :: u64) AND 0xFFFFFFFFFFFFFFFF = x64"
proof -
  have *: "(0xFFFF :: u16) = - 1" "(0xFFFFFFFF :: u32) = - 1"
    "(0xFFFFFFFFFFFFFFFF :: u64) = - 1" by simp_all
  show "(x16 :: u16) AND 0xFFFF = x16" unfolding * by simp
  show "(x32 :: u32) AND 0xFFFFFFFF = x32" unfolding * by simp
  show "(x64 :: u64) AND 0xFFFFFFFFFFFFFFFF = x64" unfolding * by simp
qed

lemma byte_in_place:
  "push_bit k (ucast (ucast (drop_bit k v) :: u8)) = (v :: 'a::len word) AND push_bit k 0xFF"
proof -
  have *: "(0xFF :: 'a word) = mask 8" by (simp add: mask_eq_exp_minus_1)
  show ?thesis unfolding *
    by (rule bit_word_eqI) (auto simp: bit_simps)
qed

lemma byte_in_place_0: "ucast (ucast v :: u8) = (v :: 'a::len word) AND 0xFF"
  using byte_in_place [of 0 v] by simp

lemma join_u16 [word_bytes]:
  "push_bit 8 (ucast (ucast (drop_bit 8 v) :: u8)) OR ucast (ucast v :: u8) = (v :: u16)"
  unfolding byte_in_place unfolding byte_in_place_0
  by (simp add: and_all_ones flip: bit.conj_disj_distrib)

lemma join_u32 [word_bytes]:
  "push_bit 24 (ucast (ucast (drop_bit 24 v) :: u8)) OR
   (push_bit 16 (ucast (ucast (drop_bit 16 v) :: u8)) OR
    (push_bit 8 (ucast (ucast (drop_bit 8 v) :: u8)) OR ucast (ucast v :: u8))) = (v :: u32)"
  unfolding byte_in_place unfolding byte_in_place_0
  by (simp add: and_all_ones flip: bit.conj_disj_distrib)

lemma join_u64 [word_bytes]:
  "push_bit 56 (ucast (ucast (drop_bit 56 v) :: u8)) OR
   (push_bit 48 (ucast (ucast (drop_bit 48 v) :: u8)) OR
    (push_bit 40 (ucast (ucast (drop_bit 40 v) :: u8)) OR
     (push_bit 32 (ucast (ucast (drop_bit 32 v) :: u8)) OR
      (push_bit 24 (ucast (ucast (drop_bit 24 v) :: u8)) OR
       (push_bit 16 (ucast (ucast (drop_bit 16 v) :: u8)) OR
        (push_bit 8 (ucast (ucast (drop_bit 8 v) :: u8)) OR
         ucast (ucast v :: u8))))))) = (v :: u64)"
  unfolding byte_in_place unfolding byte_in_place_0
  by (simp add: and_all_ones flip: bit.conj_disj_distrib)

text \<open>The code assembles 32-bit values in 64 bits and truncates the result.\<close>

lemma ucast_push_bit_u64 [word_bytes]:
  "(ucast (push_bit k (ucast (b :: u8) :: u64)) :: u32) = push_bit k (ucast b)"
  by (rule bit_word_eqI) (auto simp: bit_simps)

lemma ucast_u64_u8 [word_bytes]: "(ucast (ucast (b :: u8) :: u64) :: u32) = ucast b"
  by (rule bit_word_eqI) (auto simp: bit_simps)

subsection \<open>Numbers that fit their width\<close>

lemma unat_u8_less: "unat (x :: u8) < 256"
  using unsigned_less [of x, where ?'a = nat] by simp

lemma unat_u16_less: "unat (x :: u16) < 65536"
  using unsigned_less [of x, where ?'a = nat] by simp

lemma unat_of_nat_u8: "n < 256 \<Longrightarrow> unat (of_nat n :: u8) = n"
  by (simp add: unat_of_nat)

lemma unat_of_nat_u16: "n < 65536 \<Longrightarrow> unat (of_nat n :: u16) = n"
  by (simp add: unat_of_nat)

lemma unat_of_nat_u32: "n < 4294967296 \<Longrightarrow> unat (of_nat n :: u32) = n"
  by (simp add: unat_of_nat)

lemma unat_add_u16_small:
  "unat (a :: u16) + n < 65536 \<Longrightarrow> unat (a + of_nat n) = unat a + n"
  by (simp add: unat_word_ariths unat_of_nat)

lemma unat_ucast_u8_u16 [simp]: "unat (ucast (x :: u8) :: u16) = unat x"
  using unat_u8_less [of x] by (simp add: unsigned_ucast_eq take_bit_nat_eq_self)

lemma unat_ucast_u16_u32 [simp]: "unat (ucast (x :: u16) :: u32) = unat x"
  using unat_u16_less [of x] by (simp add: unsigned_ucast_eq take_bit_nat_eq_self)

lemma ucast_u32_u16_u32:
  "unat (x :: u32) < 65536 \<Longrightarrow> (ucast (ucast x :: u16) :: u32) = x"
  by (rule unsigned_word_eqI [where ?'a = nat])
    (simp add: unsigned_ucast_eq unsigned_take_bit_eq take_bit_nat_eq_self)

lemma min_255_less [simp]: "min 255 n < (256 :: nat)"
  by simp

subsection \<open>Lists\<close>

lemma nth_take_drop:
  "take n (drop p xs) = ys \<Longrightarrow> i < n \<Longrightarrow> p + n \<le> length xs \<Longrightarrow> xs ! (p + i) = ys ! i"
  by (auto simp: nth_append)

lemma take_drop_append:
  assumes "take (length (xs @ ys)) (drop p zs) = xs @ ys"
  shows "take (length xs) (drop p zs) = xs"
    and "take (length ys) (drop (p + length xs) zs) = ys"
proof -
  have "take (length xs) (take (length (xs @ ys)) (drop p zs)) = xs"
    unfolding assms by simp
  then show "take (length xs) (drop p zs) = xs" by (simp add: min_def)
  have "drop (length xs) (take (length (xs @ ys)) (drop p zs)) = ys"
    unfolding assms by simp
  then show "take (length ys) (drop (p + length xs) zs) = ys"
    by (simp add: drop_take add.commute)
qed

text \<open>A chain of conditional writes is an append of conditional pieces.\<close>

lemma if_append_else: "(if c then v @ a else v) = v @ (if c then a else [])"
  by simp

lemma if_append_else3:
  "(if c then v @ a else v @ b) = v @ (if c then a else b)"
  by simp

lemma if_add_else: "(if c then (l :: 'a::monoid_add) + x else l) = l + (if c then x else 0)"
  by simp

lemma of_nat_if: "of_nat (if c then a else b) = (if c then of_nat a else of_nat b)"
  by simp

lemma concat_map_if: "concat (map f (if c then xs else ys)) =
    (if c then concat (map f xs) else concat (map f ys))"
  by simp

lemma fold_invariant:
  "P s \<Longrightarrow> (\<And>x s. x \<in> set xs \<Longrightarrow> P s \<Longrightarrow> P (f x s)) \<Longrightarrow> P (fold f xs s)"
  by (induction xs arbitrary: s) auto

end
