(* ===== verification/Circular_Buffer.thy ===== *)
theory Circular_Buffer
  imports Mesh_Prelude
begin

section \<open>CircularBuffer: the ring the log is kept in\<close>

text \<open>
  \<^verbatim>\<open>CircularBuffer.h\<close>. The ring has \<open>fixed_size\<close> cells and one cell behind them, so that a
  string that ends at the last cell can have its terminator. All indices are \<open>uint16_t\<close> below
  \<open>fixed_size\<close>; the sources compute with them in \<open>int\<close>, where nothing overflows, so they are
  \<open>nat\<close> here and subtractions that can go below zero are done in \<open>int\<close>. The end item \<open>0\<close> and
  \<open>T()\<close> are the \<open>0\<close> of the item type.

  \<open>new\<close> leaves the cells uninitialised: what is in them is the argument of \<open>cb_init\<close>.
  A read that leaves the array has the value \<open>None\<close>. The lock guard is empty on the boards
  that are modelled; an interrupt between two reads is not.
\<close>

record 'a circular_buffer =
  cb_buffer :: "'a list"
  fixed_size :: nat
  cb_head :: nat
  cb_tail :: nat
  maxed :: bool
  will_clear_if_empty :: bool

definition u16_of :: "int \<Rightarrow> nat" where
  "u16_of x = nat (x mod 65536)"

definition cb_init :: "nat \<Rightarrow> 'a list \<Rightarrow> 'a circular_buffer" where
  "cb_init n memory = \<lparr>cb_buffer = take (n + 1) memory, fixed_size = n, cb_head = 0,
     cb_tail = 0, maxed = False, will_clear_if_empty = False\<rparr>"

definition cb_empty :: "'a circular_buffer \<Rightarrow> bool" where
  "cb_empty cb = (cb_head cb = cb_tail cb)"

definition cb_full :: "'a circular_buffer \<Rightarrow> bool" where
  "cb_full cb = maxed cb"

definition write_item :: "'a::zero \<Rightarrow> 'a circular_buffer \<Rightarrow> 'a circular_buffer" where
  "write_item item cb =
     (let N = fixed_size cb; h = cb_head cb;
          cells = (cb_buffer cb)[h := item, h + 1 := 0];
          t = (if maxed cb then (h + 2) mod N else cb_tail cb);
          h' = (h + 1) mod N
      in cb\<lparr>will_clear_if_empty := False, cb_buffer := cells, cb_tail := t, cb_head := h',
            maxed := (int h' = int t - 1)\<rparr>)"

text \<open>
  The loop of the other \<open>write\<close>, over the items up to the end item: its variables are
  \<open>buffer\<close>, \<open>pos\<close>, \<open>count\<close> and \<open>maxed\<close>. With 65536 items or more \<open>count\<close> wraps and the loop
  never ends.
\<close>

fun write_loop :: "nat \<Rightarrow> nat \<Rightarrow> nat \<Rightarrow> 'a::zero list \<Rightarrow> 'a list \<times> nat \<times> nat \<times> bool
    \<Rightarrow> 'a list \<times> nat \<times> nat \<times> bool" where
  "write_loop N h t [] s = s"
| "write_loop N h t (x # xs) (cells, pos, count, mx) =
     (if x = 0 then (cells, pos, count, mx)
      else let pos = (h + count) mod N;
               cells = cells[pos := x];
               mx = (if int ((pos + 1) mod N) = int t - 1 \<or> (t = 0 \<and> int pos = int N - 1)
                     then True else mx)
           in write_loop N h t xs (cells, pos, count + 1, mx))"

definition write_string :: "'a::zero list \<Rightarrow> 'a circular_buffer \<Rightarrow> 'a circular_buffer option" where
  "write_string items cb =
     (if 65536 \<le> length (takeWhile (\<lambda>x. x \<noteq> 0) items) then None
      else let N = fixed_size cb; h = cb_head cb;
               (cells, pos, count, mx) = write_loop N h (cb_tail cb) items (cb_buffer cb, 0, 0, maxed cb);
               cells = cells[pos + 1 := 0];
               t = (if mx then (h + count + 1) mod N else cb_tail cb);
               h' = (h + count) mod N
           in Some (cb\<lparr>will_clear_if_empty := False, cb_buffer := cells, cb_tail := t,
                       cb_head := h', maxed := (int h' = int t - 1)\<rparr>))"

definition cb_clear :: "'a::zero circular_buffer \<Rightarrow> 'a circular_buffer" where
  "cb_clear cb = cb\<lparr>cb_head := 0, cb_tail := 0, cb_buffer := (cb_buffer cb)[0 := 0], maxed := False\<rparr>"

definition clear_if_empty :: "'a circular_buffer \<Rightarrow> 'a circular_buffer" where
  "clear_if_empty cb0 =
     (let cb = cb0\<lparr>will_clear_if_empty := True\<rparr>
      in if cb_empty cb \<and> will_clear_if_empty cb
         then cb\<lparr>cb_head := 0, cb_tail := 0, maxed := False\<rparr> else cb)"

definition cb_consume :: "'a::zero circular_buffer \<Rightarrow> 'a \<times> 'a circular_buffer" where
  "cb_consume cb =
     (if cb_empty cb then (0, cb)
      else (cb_buffer cb ! cb_tail cb,
            cb\<lparr>cb_tail := (cb_tail cb + 1) mod fixed_size cb, maxed := False\<rparr>))"

definition consumable :: "'a circular_buffer \<Rightarrow> nat" where
  "consumable cb =
     u16_of (int (if cb_head cb \<le> cb_tail cb \<and> \<not> cb_empty cb then fixed_size cb else cb_head cb) -
             int (cb_tail cb))"

text \<open>
  The first \<open>consume_block\<close> hands out a pointer into the ring and a length, here the items
  they denote; the second copies at most \<open>block_size\<close> items.
\<close>

definition consume_block :: "'a circular_buffer \<Rightarrow> 'a list \<times> 'a circular_buffer" where
  "consume_block cb =
     (take (consumable cb) (drop (cb_tail cb) (cb_buffer cb)),
      cb\<lparr>cb_tail := (if cb_head cb \<le> cb_tail cb \<and> \<not> cb_empty cb then 0 else cb_head cb),
         maxed := False\<rparr>)"

definition consume_block_into :: "nat \<Rightarrow> 'a circular_buffer \<Rightarrow> ('a list \<times> nat) \<times> 'a circular_buffer" where
  "consume_block_into block_size cb =
     (let will_consume = min block_size (consumable cb);
          t = (if block_size < consumable cb then (cb_tail cb + will_consume) mod fixed_size cb
               else if cb_head cb \<le> cb_tail cb \<and> \<not> cb_empty cb then 0 else cb_head cb)
      in ((take will_consume (drop (cb_tail cb) (cb_buffer cb)), will_consume),
          cb\<lparr>cb_tail := t, maxed := False\<rparr>))"

subsection \<open>The ring of characters\<close>

text \<open>
  \<open>writeF\<close> formats into a buffer of 600 bytes and asserts that the text fits; formatting is
  the standard library's, \<open>text\<close> is its result.
\<close>

definition writeF :: "bytes \<Rightarrow> u8 circular_buffer \<Rightarrow> u8 circular_buffer option" where
  "writeF formatted cb = (if length formatted < 600 then write_string formatted cb else None)"

text \<open>\<open>strchr\<close> from a place in the array on: \<open>None\<close> when it leaves the array.\<close>

fun strchr :: "u8 \<Rightarrow> bytes \<Rightarrow> nat option option" where
  "strchr c [] = None"
| "strchr c (x # xs) =
     (if x = c then Some (Some 0) else if x = 0 then Some None
      else map_option (map_option Suc) (strchr c xs))"

abbreviation (input) newline :: u8 where "newline \<equiv> 10"

text \<open>
  The two halves of \<open>consume_line\<close>: \<open>line_finish\<close> is its end, from \<open>line_extra\<close> on, and
  \<open>line_wrapped\<close> the case that returns early. Both give the length, what is in \<open>line\<close>, and
  the ring. The positions \<open>to_consume\<close> and \<open>line_end\<close> are indices into the ring.
\<close>

definition line_finish :: "nat \<Rightarrow> nat \<Rightarrow> nat option \<Rightarrow> nat \<Rightarrow> nat \<Rightarrow> nat \<Rightarrow> nat \<Rightarrow> bytes \<Rightarrow>
    u8 circular_buffer \<Rightarrow> (nat \<times> bytes) \<times> u8 circular_buffer" where
  "line_finish line_size to_consume line_end will_consume remaining tail_copy written_out line cb =
     (let line_extra = (case line_end of None \<Rightarrow> will_consume
            | Some e \<Rightarrow> min will_consume (u16_of (int e - int to_consume + 1)));
          line = line @ take line_extra (drop to_consume (cb_buffer cb));
          t = (if written_out + line_extra \<le> remaining then (tail_copy + line_extra) mod fixed_size cb
               else if cb_head cb \<le> tail_copy \<and> \<not> cb_empty cb
               then if line_end = None then u16_of (int written_out + int will_consume) else line_size
               else cb_head cb)
      in ((u16_of (int written_out + int line_extra), line @ [0]), cb\<lparr>maxed := False, cb_tail := t\<rparr>))"

definition line_wrapped :: "nat \<Rightarrow> nat \<Rightarrow> bytes \<Rightarrow> u8 circular_buffer
    \<Rightarrow> ((nat \<times> bytes) \<times> u8 circular_buffer) option" where
  "line_wrapped line_size written_out line cb =
     (if cb_head cb \<le> cb_tail cb \<and> \<not> cb_empty cb
      then case strchr newline (cb_buffer cb) of
             None \<Rightarrow> None
           | Some None \<Rightarrow> Some ((written_out, line @ [0]), cb\<lparr>maxed := False, cb_tail := 0\<rparr>)
           | Some (Some e) \<Rightarrow>
               let extra = min (u16_of (int line_size - int written_out)) (u16_of (int e + 1))
               in Some ((u16_of (int written_out + int extra), line @ take extra (cb_buffer cb) @ [0]),
                        cb\<lparr>maxed := False, cb_tail := (0 + extra) mod fixed_size cb\<rparr>)
      else Some ((written_out, line @ [0]), cb\<lparr>maxed := False, cb_tail := cb_head cb\<rparr>))"

definition consume_line :: "nat \<Rightarrow> u8 circular_buffer
    \<Rightarrow> ((nat \<times> bytes) \<times> u8 circular_buffer) option" where
  "consume_line line_size cb =
     (let tail_copy = cb_tail cb;
          will_consume = min line_size (consumable cb)
      in case strchr newline (drop tail_copy (cb_buffer cb)) of
           None \<Rightarrow> None
         | Some (Some e) \<Rightarrow>
             Some (line_finish line_size tail_copy (Some (tail_copy + e)) will_consume (consumable cb)
               tail_copy 0 [] cb)
         | Some None \<Rightarrow>
             (let line = take will_consume (drop tail_copy (cb_buffer cb));
                  written_out = will_consume
              in if consumable cb = will_consume then line_wrapped line_size written_out line cb
                 else
                   let tail_copy = u16_of (int tail_copy + int written_out);
                       remaining = cb_head cb;
                       will_consume = min (u16_of (int line_size - int written_out)) remaining
                   in case strchr newline (drop tail_copy (cb_buffer cb)) of
                        None \<Rightarrow> None
                      | Some e \<Rightarrow> Some (line_finish line_size tail_copy (map_option ((+) tail_copy) e)
                          will_consume remaining tail_copy written_out line cb)))"

end
