(* ===== verification/Ring_Refinement.thy ===== *)
theory Ring_Refinement
  imports Circular_Buffer
begin

section \<open>What the ring holds\<close>

text \<open>
  The items of a ring as a list, oldest first; the specification of the operations on that
  list; and the proof that the operations of \<^verbatim>\<open>CircularBuffer.h\<close> implement it. A log of
  capacity \<open>n\<close> keeps the last \<open>n\<close> items written.
\<close>

subsection \<open>A log that keeps the last items\<close>

definition keep :: "nat \<Rightarrow> 'a list \<Rightarrow> 'a list" where
  "keep n xs = drop (length xs - n) xs"

lemma length_keep [simp]: "length (keep n xs) = min n (length xs)"
  by (simp add: keep_def)

lemma keep_all [simp]: "length xs \<le> n \<Longrightarrow> keep n xs = xs"
  by (simp add: keep_def)

lemma keep_append: "keep n (keep n xs @ ys) = keep n (xs @ ys)"
  by (cases "length xs \<le> n") (auto simp: keep_def add.commute)

text \<open>
  The interface that the printing of the log uses: a provider with an invariant, a write that
  keeps the last \<open>capacity\<close> items, and a read from the front.
\<close>

locale bounded_log =
  fixes invar :: "'s \<Rightarrow> bool" and items :: "'s \<Rightarrow> 'a list" and capacity :: "'s \<Rightarrow> nat"
    and writable :: "'a list \<Rightarrow> bool" and put :: "'a list \<Rightarrow> 's \<Rightarrow> 's option"
    and take_one :: "'s \<Rightarrow> 'a \<times> 's"
  assumes put: "invar s \<Longrightarrow> writable xs \<Longrightarrow>
      \<exists>u. put xs s = Some u \<and> invar u \<and> capacity u = capacity s \<and>
          items u = keep (capacity s) (items s @ xs)"
    and take_one: "invar s \<Longrightarrow> items s \<noteq> [] \<Longrightarrow>
      invar (snd (take_one s)) \<and> capacity (snd (take_one s)) = capacity s \<and>
      items s = fst (take_one s) # items (snd (take_one s))"
begin

fun put_all :: "'a list list \<Rightarrow> 's \<Rightarrow> 's option" where
  "put_all [] s = Some s"
| "put_all (xs # xss) s = Option.bind (put xs s) (put_all xss)"

fun take_all :: "nat \<Rightarrow> 's \<Rightarrow> 'a list \<times> 's" where
  "take_all 0 s = ([], s)"
| "take_all (Suc n) s =
     (let (x, s) = take_one s; (xs, s) = take_all n s in (x # xs, s))"

lemma put_all_items:
  assumes "invar s" and "list_all writable xss"
  shows "\<exists>u. put_all xss s = Some u \<and> invar u \<and> capacity u = capacity s \<and>
     items u = (if xss = [] then items s else keep (capacity s) (items s @ concat xss))"
  using assms
proof (induction xss arbitrary: s)
  case (Cons xs xss)
  from put [OF Cons.prems(1)] Cons.prems(2) obtain u where
    u: "put xs s = Some u" "invar u" "capacity u = capacity s"
      "items u = keep (capacity s) (items s @ xs)" by auto
  from Cons.IH [OF u(2)] Cons.prems(2) obtain v where
    "put_all xss u = Some v" "invar v" "capacity v = capacity s"
    "items v = (if xss = [] then items u else keep (capacity s) (items u @ concat xss))"
    by (auto simp: u(3))
  then show ?case by (simp add: u(1,4) keep_append)
qed simp

lemma take_all_items:
  assumes "invar s" and "n \<le> length (items s)"
  shows "fst (take_all n s) = take n (items s) \<and> items (snd (take_all n s)) = drop n (items s)"
  using assms
proof (induction n arbitrary: s)
  case (Suc n)
  then have "items s \<noteq> []" by auto
  note one = take_one [OF Suc.prems(1) this]
  with Suc.IH [of "snd (take_one s)"] Suc.prems(2) show ?case
    by (auto simp: Let_def split_def)
qed simp

end

subsection \<open>The ring as a list\<close>

definition cb_ok :: "'a circular_buffer \<Rightarrow> bool" where
  "cb_ok cb \<longleftrightarrow> 2 \<le> fixed_size cb \<and> fixed_size cb < 65536 \<and>
     length (cb_buffer cb) = fixed_size cb + 1 \<and> cb_head cb < fixed_size cb \<and>
     cb_tail cb < fixed_size cb \<and> (maxed cb \<longleftrightarrow> cb_head cb + 1 = cb_tail cb)"

definition ring :: "nat \<Rightarrow> 'a list \<Rightarrow> nat \<Rightarrow> nat \<Rightarrow> 'a list" where
  "ring N cells h t = map (\<lambda>i. cells ! ((t + i) mod N)) [0..<(h + N - t) mod N]"

definition contents :: "'a circular_buffer \<Rightarrow> 'a list" where
  "contents cb = ring (fixed_size cb) (cb_buffer cb) (cb_head cb) (cb_tail cb)"

definition capacity :: "'a circular_buffer \<Rightarrow> nat" where
  "capacity cb = fixed_size cb - 1"

lemma wrap: "a < 2 * n \<Longrightarrow> a mod n = (if a < n then a else a - n)" for a n :: nat
  by (cases "a < n") (simp_all add: mod_if)

lemma held: "h < N \<Longrightarrow> t < N \<Longrightarrow> (h + N - t) mod N = (if t \<le> h then h - t else h + N - t)"
  for h N t :: nat
  using wrap [of "h + N - t" N] by auto

lemma length_ring: "length (ring N cells h t) = (h + N - t) mod N"
  by (simp add: ring_def)

lemma ring_empty_iff:
  assumes "h < N" "t < N"
  shows "ring N cells h t = [] \<longleftrightarrow> h = t"
  using assms by (auto simp: ring_def wrap)

lemma ring_cong:
  assumes "\<And>p. p < N \<Longrightarrow> p \<noteq> h \<Longrightarrow> cells ! p = cells' ! p" and "h < N" "t < N"
  shows "ring N cells h t = ring N cells' h t"
  unfolding ring_def
  using assms by (intro map_cong refl assms(1)) (auto simp: wrap split: if_splits)

definition push :: "nat \<Rightarrow> 'a \<Rightarrow> 'a list \<times> nat \<times> nat \<Rightarrow> 'a list \<times> nat \<times> nat" where
  "push N x = (\<lambda>(cells, h, t).
     (cells[h := x], (h + 1) mod N, if (h + 1) mod N = t then (t + 1) mod N else t))"

lemma held_cells:
  fixes h N t i :: nat
  assumes "h < N" "t < N" "i < (h + N - t) mod N"
  shows "(t + i) mod N \<noteq> h" and "(t + i) mod N < N"
proof -
  have i: "i < (if t \<le> h then h - t else h + N - t)" using assms(3) by (simp only: held [OF assms(1,2)])
  then have *: "(t + i) mod N = (if t + i < N then t + i else t + i - N)"
    using assms(1,2) by (intro wrap) (simp split: if_splits)
  show "(t + i) mod N \<noteq> h" unfolding *
    using i assms(1,2) by (cases "t \<le> h"; cases "t + i < N") auto
  show "(t + i) mod N < N" using assms(1) by simp
qed

lemma ring_push:
  assumes "h < N" "t < N" "2 \<le> N" "N \<le> length cells" and "push N x (cells, h, t) = (cells', h', t')"
  shows "ring N cells' h' t' = keep (N - 1) (ring N cells h t @ [x])"
proof -
  let ?k = "(h + N - t) mod N"
  have c: "cells' = cells[h := x]" "h' = (h + 1) mod N"
      "t' = (if (h + 1) mod N = t then (t + 1) mod N else t)"
    using assms(5) by (auto simp: push_def)
  have last: "(t + ?k) mod N = h" using assms(1,2) by (simp add: wrap)
  have old: "map (\<lambda>i. cells' ! ((t + i) mod N)) [0..<?k] = ring N cells h t"
    unfolding ring_def c(1) using held_cells(1) [OF assms(1,2)]
    by (intro map_cong refl nth_list_update_neq) auto
  have all: "map (\<lambda>i. cells' ! ((t + i) mod N)) [0..<?k + 1] = ring N cells h t @ [x]"
    using old last assms(1,4) by (simp add: c(1))
  show ?thesis
  proof (cases "(h + 1) mod N = t")
    case False
    then have k: "(h' + N - t') mod N = ?k + 1" "?k + 1 \<le> N - 1"
      using assms(1,2) by (auto simp: c(2,3) wrap split: if_splits)
    with all False show ?thesis by (simp add: ring_def c(3))
  next
    case True
    then have k: "?k + 1 = N" "(h' + N - t') mod N = N - 1"
      using assms(1-3) by (auto simp: c(2,3) wrap split: if_splits)
    have t': "(t' + i) mod N = (t + Suc i) mod N" for i
      using True by (simp add: c(3) mod_add_left_eq)
    have "ring N cells' h' t' = map (\<lambda>i. cells' ! ((t + Suc i) mod N)) [0..<N - 1]"
      by (simp add: ring_def k(2) t')
    also have "\<dots> = tl (map (\<lambda>i. cells' ! ((t + i) mod N)) [0..<Suc (N - 1)])"
      by (simp only: map_tl [symmetric] tl_upt map_Suc_upt [symmetric] map_map comp_def)
    also have "\<dots> = tl (map (\<lambda>i. cells' ! ((t + i) mod N)) [0..<?k + 1])"
      using k(1) by (metis Suc_diff_1 Suc_eq_plus1 assms(1) bot_nat_0.extremum_strict not_gr_zero)
    also have "\<dots> = tl (ring N cells h t @ [x])" by (simp only: all)
    also have "\<dots> = keep (N - 1) (ring N cells h t @ [x])"
    proof -
      have "length (ring N cells h t @ [x]) - (N - 1) = Suc 0"
        using k(1) assms(3) by (simp add: length_ring)
      then show ?thesis by (simp only: keep_def drop_Suc drop_0)
    qed
    finally show ?thesis .
  qed
qed

lemma push_within:
  assumes "push N x (cells, h, t) = (cells', h', t')" "0 < N" "t < N"
  shows "h' < N" "t' < N" "length cells' = length cells"
  using assms by (auto simp: push_def)

lemma ring_fold_push:
  assumes "h < N" "t < N" "2 \<le> N" "N \<le> length cells"
    and "fold (push N) xs (cells, h, t) = (cells', h', t')"
  shows "length cells' = length cells \<and> h' < N \<and> t' < N \<and>
     (xs \<noteq> [] \<longrightarrow> ring N cells' h' t' = keep (N - 1) (ring N cells h t @ xs))"
  using assms
proof (induction xs arbitrary: cells h t)
  case (Cons x xs)
  obtain c1 h1 t1 where one: "push N x (cells, h, t) = (c1, h1, t1)" by (cases "push N x (cells, h, t)")
  from push_within [OF one] Cons.prems have bounds: "h1 < N" "t1 < N" "length c1 = length cells" by auto
  have rest: "fold (push N) xs (c1, h1, t1) = (cells', h', t')" using Cons.prems(5) one by simp
  from Cons.IH [OF bounds(1,2) Cons.prems(3) _ rest] Cons.prems(4) bounds(3)
  have ih: "length cells' = length cells" "h' < N" "t' < N"
    "xs \<noteq> [] \<Longrightarrow> ring N cells' h' t' = keep (N - 1) (ring N c1 h1 t1 @ xs)" by auto
  note first = ring_push [OF Cons.prems(1-4) one]
  show ?case
  proof (cases "xs = []")
    case True
    then show ?thesis using rest bounds first by auto
  next
    case False
    then show ?thesis using ih by (simp add: first keep_append)
  qed
qed simp

subsection \<open>Writing\<close>

lemma write_loop_behind:
  assumes "0 < N"
  shows "fst (write_loop N h t xs (cells, pos, count, mx)) ! N = cells ! N"
  using assms
proof (induction xs arbitrary: cells pos count mx)
  case (Cons x xs)
  have "(h + count) mod N \<noteq> N" using Cons.prems mod_less_divisor less_irrefl by metis
  then show ?case using Cons by (simp add: Let_def)
qed simp

text \<open>
  The loop of \<open>write\<close> fills the cells as pushing one item at a time would, and it sets
  \<open>maxed\<close> as soon as the ring is full; from then on the tail is the cell behind the head.
\<close>

lemma write_loop_pushes:
  assumes "h < N" "t < N" "2 \<le> N" and "0 \<notin> set xs"
    and "mx \<Longrightarrow> u = ((h + count) mod N + 1) mod N"
    and "\<not> mx \<Longrightarrow> u = t \<and> int ((h + count) mod N) \<noteq> int t - 1"
  shows "\<exists>u'. fold (push N) xs (cells, (h + count) mod N, u) =
      (fst (write_loop N h t xs (cells, pos, count, mx)), (h + count + length xs) mod N, u') \<and>
    (let (cells', pos', count', mx') = write_loop N h t xs (cells, pos, count, mx)
     in u' = (if mx' then (h + count' + 1) mod N else t) \<and> count' = count + length xs \<and>
        pos' = (if xs = [] then pos else (h + count + length xs - 1) mod N))"
  using assms(4-)
proof (induction xs arbitrary: cells pos count mx u)
  case Nil
  then show ?case using mod_Suc_eq [of "h + count" N] by (cases mx) (auto simp: Let_def)
next
  case (Cons x xs)
  let ?h = "(h + count) mod N" and ?h1 = "(h + (count + 1)) mod N"
  have N: "0 < N" using assms(3) by simp
  have h1: "(?h + 1) mod N = ?h1" by (simp add: mod_Suc_eq)
  define mx1 where "mx1 = (if int ?h1 = int t - 1 \<or> (t = 0 \<and> int ?h = int N - 1) then True else mx)"
  define u1 where "u1 = (if ?h1 = u then (u + 1) mod N else u)"
  have step: "write_loop N h t (x # xs) (cells, pos, count, mx) =
      write_loop N h t xs (cells[?h := x], ?h, count + 1, mx1)"
    using Cons.prems(1) by (simp add: Let_def mx1_def h1 [simplified] mod_Suc_eq)
  have push: "push N x (cells, ?h, u) = (cells[?h := x], ?h1, u1)"
    by (simp add: push_def u1_def h1 [simplified])
  have h1_cases: "?h1 = (if ?h = N - 1 then 0 else ?h + 1)"
    using h1 N by (auto simp: mod_Suc)
  have bounds: "?h < N" "?h1 < N" using N by simp_all
  have full: "u1 = (?h1 + 1) mod N" if "mx1"
  proof (cases mx)
    case True
    then have "u = ?h1" using Cons.prems(2) h1 by simp
    then show ?thesis by (simp add: u1_def)
  next
    case False
    with Cons.prems(3) have "u = t" by simp
    with that False show ?thesis
      using assms(2) h1_cases bounds N by (auto simp: u1_def mx1_def split: if_splits)
  qed
  have room: "u1 = t \<and> int ?h1 \<noteq> int t - 1" if "\<not> mx1"
  proof -
    from that have no: "int ?h1 \<noteq> int t - 1" "\<not> mx" "\<not> (t = 0 \<and> int ?h = int N - 1)"
      by (auto simp: mx1_def split: if_splits)
    with Cons.prems(3) have "u = t" "int ?h \<noteq> int t - 1" by auto
    with no show ?thesis using h1_cases bounds by (auto simp: u1_def split: if_splits)
  qed
  obtain c' p' n' m' where w: "write_loop N h t xs (cells[?h := x], ?h, count + 1, mx1) = (c', p', n', m')"
    by (cases "write_loop N h t xs (cells[?h := x], ?h, count + 1, mx1)")
  from Cons.IH [where cells = "cells[?h := x]" and pos = ?h and mx = mx1, OF _ full room] Cons.prems(1)
  obtain u' where "fold (push N) xs (cells[?h := x], ?h1, u1) = (c', (h + (count + 1) + length xs) mod N, u')"
    "u' = (if m' then (h + n' + 1) mod N else t)" "n' = count + 1 + length xs"
    "p' = (if xs = [] then ?h else (h + (count + 1) + length xs - 1) mod N)"
    by (auto simp only: w fst_conv prod.case Let_def list.set insert_iff simp_thms)
  then have "fold (push N) (x # xs) (cells, ?h, u) = (c', (h + count + length (x # xs)) mod N, u')"
    "u' = (if m' then (h + n' + 1) mod N else t)" "n' = count + length (x # xs)"
    "p' = (if x # xs = [] then pos else (h + count + length (x # xs) - 1) mod N)"
    using push by simp_all
  then show ?case unfolding step w fst_conv Let_def prod.case by blast
qed

lemma takeWhile_no_zero: "0 \<notin> set (takeWhile (\<lambda>x. x \<noteq> (0::'a::zero)) xs)"
  by (auto dest: set_takeWhileD)

lemma write_loop_takeWhile:
  "write_loop N h t xs s = write_loop N h t (takeWhile (\<lambda>x. x \<noteq> 0) xs) s"
  by (induction N h t xs s rule: write_loop.induct) (auto simp: Let_def)

lemma cb_ok_facts:
  assumes "cb_ok cb"
  shows "cb_head cb < fixed_size cb" "cb_tail cb < fixed_size cb" "2 \<le> fixed_size cb"
    "0 < fixed_size cb" "length (cb_buffer cb) = fixed_size cb + 1" "fixed_size cb < 65536"
    "maxed cb \<longleftrightarrow> cb_head cb + 1 = cb_tail cb"
  using assms by (auto simp: cb_ok_def)

lemma length_contents: "cb_ok cb \<Longrightarrow> length (contents cb) \<le> capacity cb"
  using mod_less_divisor [OF cb_ok_facts(4), of cb "cb_head cb + fixed_size cb - cb_tail cb"]
  by (simp add: contents_def length_ring capacity_def)

lemma contents_empty_iff: "cb_ok cb \<Longrightarrow> contents cb = [] \<longleftrightarrow> cb_empty cb"
  by (simp add: contents_def cb_empty_def ring_empty_iff cb_ok_facts)

text \<open>The terminator goes to the cell at the head, which holds no item, or behind the ring.\<close>

lemma ring_terminator:
  assumes "h' < N" "t' < N" "p + 1 = h' \<or> p + 1 = N"
  shows "ring N (cells[p + 1 := x]) h' t' = ring N cells h' t'"
  using assms by (intro ring_cong) auto

lemma write_string_refines:
  assumes "cb_ok cb" and "xs = takeWhile (\<lambda>x. x \<noteq> 0) items" and "xs \<noteq> []" and "length xs < 65536"
  shows "\<exists>u. write_string items cb = Some u \<and> cb_ok u \<and> fixed_size u = fixed_size cb \<and>
     contents u = keep (capacity cb) (contents cb @ xs) \<and>
     (0 < cb_head u \<longrightarrow> cb_buffer u ! cb_head u = 0) \<and>
     (cb_buffer cb ! fixed_size cb = 0 \<longrightarrow> cb_buffer u ! fixed_size cb = 0)"
proof -
  let ?N = "fixed_size cb" and ?h = "cb_head cb" and ?t = "cb_tail cb"
  note ok = cb_ok_facts [OF assms(1)]
  have nz: "0 \<notin> set xs" unfolding assms(2) by (rule takeWhile_no_zero)
  obtain c p n m where w: "write_loop ?N ?h ?t xs (cb_buffer cb, 0, 0, maxed cb) = (c, p, n, m)"
    by (cases "write_loop ?N ?h ?t xs (cb_buffer cb, 0, 0, maxed cb)")
  have start: "maxed cb \<Longrightarrow> ?t = ((?h + 0) mod ?N + 1) mod ?N"
    "\<not> maxed cb \<Longrightarrow> ?t = ?t \<and> int ((?h + 0) mod ?N) \<noteq> int ?t - 1"
    using ok by auto
  define t' where "t' = (if m then (?h + n + 1) mod ?N else ?t)"
  define h' where "h' = (?h + length xs) mod ?N"
  note loop = write_loop_pushes [where cells = "cb_buffer cb" and pos = 0 and count = 0 and
      mx = "maxed cb" and u = ?t, OF ok(1-3) nz start, unfolded w Let_def prod.case fst_conv]
  have "\<exists>v. fold (push ?N) xs (cb_buffer cb, (?h + 0) mod ?N, ?t) =
      (c, (?h + 0 + length xs) mod ?N, v) \<and>
    v = (if m then (?h + n + 1) mod ?N else ?t) \<and> n = 0 + length xs \<and>
    p = (if xs = [] then 0 else (?h + 0 + length xs - 1) mod ?N)"
    by (rule loop)
  then obtain v where v: "fold (push ?N) xs (cb_buffer cb, (?h + 0) mod ?N, ?t) =
      (c, (?h + 0 + length xs) mod ?N, v)"
    "v = (if m then (?h + n + 1) mod ?N else ?t)" "n = 0 + length xs"
    "p = (if xs = [] then 0 else (?h + 0 + length xs - 1) mod ?N)"
    by (elim exE conjE)
  then have n: "n = length xs" and p: "p = (?h + length xs - 1) mod ?N" and "v = t'"
    using assms(3) by (simp_all add: t'_def)
  then have fold: "fold (push ?N) xs (cb_buffer cb, ?h, ?t) = (c, h', t')"
    using v(1) ok(1) by (simp only: h'_def add_0_right mod_less)
  from ring_fold_push [OF ok(1-3) _ fold] assms(3) ok(5)
  have r: "length c = ?N + 1" "h' < ?N" "t' < ?N"
    "ring ?N c h' t' = keep (?N - 1) (ring ?N (cb_buffer cb) ?h ?t @ xs)" by auto
  have "Suc p mod ?N = h'"
    using assms(3) by (simp add: p h'_def mod_Suc_eq Suc_diff_1 Nat.add_diff_assoc2 flip: Suc_diff_le)
  then have p1: "p + 1 = h' \<or> p + 1 = ?N" and p2: "p + 1 = ?N \<Longrightarrow> h' = 0"
    using ok(4) by (auto simp: p mod_Suc)
  let ?u = "cb\<lparr>will_clear_if_empty := False, cb_buffer := c[p + 1 := 0], cb_tail := t',
      cb_head := h', maxed := (int h' = int t' - 1)\<rparr>"
  have "write_string items cb = Some ?u"
    using assms(4) write_loop_takeWhile [of ?N ?h ?t items]
    by (simp add: write_string_def flip: assms(2)) (simp add: Let_def w t'_def h'_def n)
  moreover have "cb_ok ?u" using ok r by (auto simp: cb_ok_def)
  moreover have "contents ?u = keep (capacity cb) (contents cb @ xs)"
    using ring_terminator [OF r(2,3) p1, of c 0] by (simp add: contents_def capacity_def r(4))
  moreover have "0 < h' \<longrightarrow> c[p + 1 := 0] ! h' = 0" using p1 p2 r(1,2) by (auto simp: nth_list_update)
  moreover have "c ! ?N = cb_buffer cb ! ?N"
    using write_loop_behind [OF ok(4), of ?h ?t xs "cb_buffer cb" 0 0 "maxed cb"] by (simp add: w)
  ultimately show ?thesis
    using r(1) by (intro exI [of _ ?u]) (cases "Suc p = ?N"; simp)
qed

lemma write_item_refines:
  assumes "cb_ok cb" and "\<not> (cb_tail cb = 0 \<and> cb_head cb = fixed_size cb - 1)"
  shows "cb_ok (write_item x cb) \<and>
     contents (write_item x cb) = keep (capacity cb) (contents cb @ [x])"
proof -
  let ?N = "fixed_size cb" and ?h = "cb_head cb" and ?t = "cb_tail cb"
  note ok = cb_ok_facts [OF assms(1)]
  have t: "(if maxed cb then (?h + 2) mod ?N else ?t) =
      (if (?h + 1) mod ?N = ?t then (?t + 1) mod ?N else ?t)"
    using ok assms(2) by (auto simp: mod_Suc)
  have push: "push ?N x (cb_buffer cb, ?h, ?t) =
      ((cb_buffer cb)[?h := x], (?h + 1) mod ?N, if maxed cb then (?h + 2) mod ?N else ?t)"
    by (simp only: push_def prod.case t)
  note r = ring_push [OF ok(1-3) _ push] push_within [OF push ok(4,2)]
  have "?h + 1 = (?h + 1) mod ?N \<or> ?h + 1 = ?N" using ok(1) by (auto simp: mod_Suc)
  from ring_terminator [OF r(2,3) this, of "(cb_buffer cb)[?h := x]" 0] r ok show ?thesis
    by (auto simp: write_item_def Let_def cb_ok_def contents_def capacity_def)
qed

subsection \<open>Reading\<close>

lemma ring_drop:
  assumes "h < N" "t < N" "j \<le> length (ring N cells h t)"
  shows "ring N cells h ((t + j) mod N) = drop j (ring N cells h t)"
proof (rule nth_equalityI)
  have "j \<le> (if t \<le> h then h - t else h + N - t)" using assms by (simp only: length_ring held)
  then have len: "(h + N - (t + j) mod N) mod N = (if t \<le> h then h - t else h + N - t) - j"
    using assms(1,2) held [OF assms(1), of "(t + j) mod N"]
    by (cases "t \<le> h"; cases "t + j < N") (auto simp: wrap)
  then show "length (ring N cells h ((t + j) mod N)) = length (drop j (ring N cells h t))"
    by (simp add: length_ring held [OF assms(1,2)])
  then show "ring N cells h ((t + j) mod N) ! i = drop j (ring N cells h t) ! i"
    if "i < length (ring N cells h ((t + j) mod N))" for i
    using that by (simp add: ring_def mod_add_left_eq add.assoc less_diff_conv add.commute [of i])
qed

lemma ring_take:
  assumes "j \<le> length (ring N cells h t)" "t + j \<le> N" "N < length cells"
  shows "take j (ring N cells h t) = take j (drop t cells)"
  using assms by (intro nth_equalityI) (auto simp: length_ring ring_def)

lemma u16_of_diff [simp]: "b \<le> a \<Longrightarrow> a < 65536 \<Longrightarrow> u16_of (int a - int b) = a - b"
  by (simp add: u16_of_def flip: of_nat_diff)

lemma u16_of_nat [simp]:
  "a < 65536 \<Longrightarrow> u16_of (int a) = a"
  "a + b < 65536 \<Longrightarrow> u16_of (int a + int b) = a + b"
  "Suc a < 65536 \<Longrightarrow> u16_of (int a + 1) = Suc a"
  by (auto simp: u16_of_def simp flip: of_nat_add of_nat_Suc)

lemma consumable_eq:
  assumes "cb_ok cb"
  shows "consumable cb = (if cb_head cb < cb_tail cb then fixed_size cb else cb_head cb) - cb_tail cb"
  using cb_ok_facts [OF assms] by (auto simp: consumable_def cb_empty_def)

lemma read_prefix:
  assumes "cb_ok cb" and "j \<le> consumable cb"
    and "u = cb\<lparr>cb_tail := (cb_tail cb + j) mod fixed_size cb, maxed := False\<rparr>"
  shows "contents cb = take j (drop (cb_tail cb) (cb_buffer cb)) @ contents u"
    and "length (take j (drop (cb_tail cb) (cb_buffer cb))) = j"
    and "0 < j \<or> \<not> maxed cb \<Longrightarrow> cb_ok u"
proof -
  let ?N = "fixed_size cb" and ?h = "cb_head cb" and ?t = "cb_tail cb"
  note ok = cb_ok_facts [OF assms(1)]
  have j: "j \<le> (if ?h < ?t then ?N else ?h) - ?t" using assms(2) by (simp add: consumable_eq assms(1))
  then have len: "j \<le> length (ring ?N (cb_buffer cb) ?h ?t)" "?t + j \<le> ?N"
    using ok(1,2) by (auto simp: length_ring held split: if_splits)
  show "contents cb = take j (drop ?t (cb_buffer cb)) @ contents u"
    using ring_drop [OF ok(1,2) len(1)] ring_take [OF len] ok(5)
      append_take_drop_id [of j "ring ?N (cb_buffer cb) ?h ?t"]
    by (simp add: contents_def assms(3))
  show "length (take j (drop ?t (cb_buffer cb))) = j" using len(2) ok(5) by simp
  show "cb_ok u" if "0 < j \<or> \<not> maxed cb"
    using that j ok by (auto simp: cb_ok_def assms(3) wrap split: if_splits)
qed

lemma consume_refines:
  assumes "cb_ok cb" and "contents cb \<noteq> []"
  shows "cb_ok (snd (cb_consume cb)) \<and> fixed_size (snd (cb_consume cb)) = fixed_size cb \<and>
     contents cb = fst (cb_consume cb) # contents (snd (cb_consume cb))"
proof -
  note ok = cb_ok_facts [OF assms(1)]
  have "\<not> cb_empty cb" using assms contents_empty_iff by blast
  moreover from this have "1 \<le> consumable cb"
    using ok(1,2) by (auto simp: consumable_eq assms(1) cb_empty_def)
  note read_prefix [OF assms(1) this refl]
  moreover have "take 1 (drop (cb_tail cb) (cb_buffer cb)) = [cb_buffer cb ! cb_tail cb]"
    using ok(2,5) by (simp add: take_Suc_conv_app_nth)
  ultimately show ?thesis by (simp add: cb_consume_def)
qed

lemma consume_block_into_refines:
  assumes "cb_ok cb" and "consume_block_into n cb = ((block, len), u)"
  shows "contents cb = block @ contents u" "len = length block" "0 < n \<or> \<not> maxed cb \<Longrightarrow> cb_ok u"
proof -
  note ok = cb_ok_facts [OF assms(1)]
  let ?j = "min n (consumable cb)"
  have le: "?j \<le> consumable cb" by simp
  have u: "u = cb\<lparr>cb_tail := (cb_tail cb + ?j) mod fixed_size cb, maxed := False\<rparr>"
    using assms(2) ok(1,2) by (auto simp: consume_block_into_def Let_def consumable_eq [OF assms(1)]
        cb_empty_def min_def split: if_splits)
  have block: "block = take ?j (drop (cb_tail cb) (cb_buffer cb))" "len = ?j"
    using assms(2) by (auto simp: consume_block_into_def Let_def)
  note prefix = read_prefix [OF assms(1) le u, folded block]
  show "contents cb = block @ contents u" by (rule prefix(1))
  show "len = length block" using prefix(2) block by simp
  show "cb_ok u" if "0 < n \<or> \<not> maxed cb"
  proof (rule prefix(3))
    show "0 < len \<or> \<not> maxed cb"
      using that ok(1,2,7) by (auto simp: block(2) consumable_eq assms(1))
  qed
qed

interpretation log: bounded_log cb_ok contents capacity
  "\<lambda>xs. xs \<noteq> [] \<and> (0 :: 'a::zero) \<notin> set xs \<and> length xs < 65536" write_string cb_consume
proof unfold_locales
  fix s :: "'a circular_buffer" and xs :: "'a list"
  assume s: "cb_ok s" and xs: "xs \<noteq> [] \<and> 0 \<notin> set xs \<and> length xs < 65536"
  then have "takeWhile (\<lambda>x. x \<noteq> 0) xs = xs"
    by (auto simp: takeWhile_eq_all_conv)
  then have "xs = takeWhile (\<lambda>x. x \<noteq> 0) xs" by (rule sym)
  from write_string_refines [OF s this] xs
  show "\<exists>u. write_string xs s = Some u \<and> cb_ok u \<and> capacity u = capacity s \<and>
      contents u = keep (capacity s) (contents s @ xs)"
    by (auto simp: capacity_def)
next
  fix s :: "'a circular_buffer"
  assume "cb_ok s" and "contents s \<noteq> []"
  from consume_refines [OF this]
  show "cb_ok (snd (cb_consume s)) \<and> capacity (snd (cb_consume s)) = capacity s \<and>
      contents s = fst (cb_consume s) # contents (snd (cb_consume s))"
    by (simp add: capacity_def)
qed

end
