(* ===== verification/Debug_Log.thy ===== *)
theory Debug_Log
  imports Ring_Refinement
begin

section \<open>Debugging: the log of the program and its printing\<close>

text \<open>
  \<^verbatim>\<open>Debugging.cpp\<close>: all \<open>LOG_\<close> macros are \<open>serialLogBuffer.writeF\<close>, and the main loop
  prints what is in the ring line by line. What \<open>printf\<close> and \<open>putchar\<close> print is the result.
\<close>

subsection \<open>The code\<close>

definition serialLogBuffer :: "bytes \<Rightarrow> u8 circular_buffer" where
  "serialLogBuffer memory = cb_init 2000 memory"

definition SERIAL_LOG_BUFFER_LEN :: nat where
  "SERIAL_LOG_BUFFER_LEN = 160"

definition hex_char :: "nat \<Rightarrow> u8" where
  "hex_char n = of_nat (if n < 10 then 48 + n else 87 + n)"

definition format_02x :: "u8 \<Rightarrow> bytes" where
  "format_02x b = [hex_char (unat b div 16), hex_char (unat b mod 16)]"

definition format_visible :: "u8 \<Rightarrow> bytes" where
  "format_visible b = (if 0x20 \<le> b \<and> b < 0x7e then [b] else ascii '' '')"

definition print_named_data_texts :: "bytes \<Rightarrow> bytes \<Rightarrow> bytes list" where
  "print_named_data_texts name data =
     [name @ ascii '':''] @ map format_02x data @ [[newline]] @
     [name @ ascii ''[c]:''] @ map format_visible data @ [[newline]]"

definition print_named_data :: "bytes \<Rightarrow> bytes \<Rightarrow> u8 circular_buffer \<Rightarrow> u8 circular_buffer option" where
  "print_named_data name data cb =
     fold (\<lambda>text r. Option.bind r (writeF text)) (print_named_data_texts name data) (Some cb)"

text \<open>
  The loop of \<open>printAvailableLogging\<close>; \<open>None\<close> is a loop that never ends or a bad read, as that of
  \<open>line[len-1]\<close> for an empty line.
\<close>

partial_function (option) print_lines ::
  "u8 circular_buffer \<Rightarrow> bytes \<Rightarrow> (bytes \<times> u8 circular_buffer) option" where
  "print_lines cb printed =
     (if cb_empty cb then Some (printed, cb)
      else case consume_line (SERIAL_LOG_BUFFER_LEN - 1) cb of
             None \<Rightarrow> None
           | Some ((len, line), u) \<Rightarrow>
               if len = 0 then None
               else print_lines u (printed @
                      take (if line ! (len - 1) = newline then len - 1 else len) line @ [newline]))"

text \<open>The first component is the number in the message about a full buffer, if it is printed.\<close>

definition printAvailableLogging ::
  "u8 circular_buffer \<Rightarrow> (nat option \<times> bytes \<times> u8 circular_buffer) option" where
  "printAvailableLogging cb =
     Option.bind
       (if cb_full cb
        then map_option (\<lambda>((len, line), u). (Some len, u)) (consume_line (SERIAL_LOG_BUFFER_LEN - 1) cb)
        else Some (None, cb))
       (\<lambda>(ignored, cb). map_option (\<lambda>(printed, u). (ignored, printed, clear_if_empty u))
         (print_lines cb []))"

subsection \<open>Searching for the end of a line\<close>

lemma strchr_eq:
  "strchr c xs = (let p = length (takeWhile (\<lambda>x. x \<noteq> c \<and> x \<noteq> 0) xs)
     in if p = length xs then None else if xs ! p = c then Some (Some p) else Some None)"
  by (induction c xs rule: strchr.induct) (auto simp: Let_def)

lemma strchr_found:
  assumes "e < length xs" "xs ! e = c" "\<And>i. i < e \<Longrightarrow> xs ! i \<noteq> c \<and> xs ! i \<noteq> 0"
  shows "strchr c xs = Some (Some e)"
proof -
  have "takeWhile (\<lambda>x. x \<noteq> c \<and> x \<noteq> 0) xs = take e xs"
    using assms by (intro takeWhile_eq_take_P_nth) auto
  then show ?thesis using assms(1,2) by (simp add: strchr_eq Let_def)
qed

lemma strchr_ended:
  assumes "e < length xs" "xs ! e = 0" "c \<noteq> 0" "\<And>i. i < e \<Longrightarrow> xs ! i \<noteq> c \<and> xs ! i \<noteq> 0"
  shows "strchr c xs = Some None"
proof -
  have "takeWhile (\<lambda>x. x \<noteq> c \<and> x \<noteq> 0) xs = take e xs"
    using assms by (intro takeWhile_eq_take_P_nth) auto
  then show ?thesis using assms(1-3) by (simp add: strchr_eq Let_def)
qed

subsection \<open>Reading one line\<close>

text \<open>
  A log: a ring without end items among its items, with an end item at the head unless the
  head is at cell 0, and one behind the ring. The last is not the sources' doing: the
  constructor leaves that cell uninitialised, and only a string that ends at the last cell
  sets it.
\<close>

definition log_ok :: "u8 circular_buffer \<Rightarrow> bool" where
  "log_ok cb \<longleftrightarrow> cb_ok cb \<and> 0 \<notin> set (contents cb) \<and>
     (0 < cb_head cb \<longrightarrow> cb_buffer cb ! cb_head cb = 0) \<and> cb_buffer cb ! fixed_size cb = 0"

lemma contents_wrapped:
  assumes "cb_ok cb" "cb_head cb < cb_tail cb"
  shows "contents cb = take (fixed_size cb - cb_tail cb) (drop (cb_tail cb) (cb_buffer cb)) @
     take (cb_head cb) (cb_buffer cb)"
proof -
  note ok = cb_ok_facts [OF assms(1)]
  have "ring (fixed_size cb) (cb_buffer cb) (cb_head cb) 0 = take (cb_head cb) (cb_buffer cb)"
    using ok ring_take [of "cb_head cb" "fixed_size cb" "cb_buffer cb" "cb_head cb" 0]
    by (simp add: length_ring)
  then show ?thesis
    using read_prefix(1) [OF assms(1) _ refl, of "consumable cb"] assms ok
    by (simp add: contents_def consumable_eq)
qed

lemma line_in_one_piece:
  assumes "log_ok cb" and "e < length (contents cb)" and "contents cb ! e = newline"
    and "newline \<notin> set (take e (contents cb))" and "e < n" and "n < 65536" and "e < consumable cb"
  shows "consume_line n cb = Some ((e + 1, take (e + 1) (contents cb) @ [0]),
     cb\<lparr>maxed := False, cb_tail := (cb_tail cb + (e + 1)) mod fixed_size cb\<rparr>)"
proof -
  let ?t = "cb_tail cb" and ?cells = "cb_buffer cb"
  have cb: "cb_ok cb" "0 \<notin> set (contents cb)" using assms(1) by (simp_all add: log_ok_def)
  note ok = cb_ok_facts [OF cb(1)]
  have pre: "take (e + 1) (contents cb) = take (e + 1) (drop ?t ?cells)" "e + 1 \<le> consumable cb"
    using read_prefix(1,2) [OF cb(1) _ refl, of "e + 1"] assms(7) by (simp_all add: take_append)
  have len: "?t + (e + 1) \<le> fixed_size cb"
    using assms(7) ok(1,2) by (auto simp: consumable_eq [OF cb(1)] split: if_splits)
  have same: "drop ?t ?cells ! i = contents cb ! i" if "i \<le> e" for i
  proof -
    have "take (e + 1) (drop ?t ?cells) ! i = take (e + 1) (contents cb) ! i" by (simp only: pre)
    then show ?thesis using that by simp
  qed
  have "strchr newline (drop ?t ?cells) = Some (Some e)"
  proof (rule strchr_found)
    show "e < length (drop ?t ?cells)" using len ok(5) by simp
    show "drop ?t ?cells ! e = newline" using same assms(3) by simp
    show "drop ?t ?cells ! i \<noteq> newline \<and> drop ?t ?cells ! i \<noteq> 0" if "i < e" for i
      using that same [of i] assms(2,4) cb(2) by (auto simp: in_set_conv_nth)
  qed
  moreover have "u16_of (int (?t + e) - int ?t + 1) = e + 1"
    using assms(5,6) u16_of_nat(3) [of e] by simp
  moreover have "min (min n (consumable cb)) (e + 1) = e + 1" using assms(5,7) by simp
  ultimately show ?thesis
    using pre assms(5,6) u16_of_nat(1) [of "e + 1"]
    by (simp add: consume_line_def line_finish_def Let_def)
qed

lemma line_in_two_pieces:
  assumes "log_ok cb" and "e < length (contents cb)" and "contents cb ! e = newline"
    and "newline \<notin> set (take e (contents cb))" and "e < n" and "n < 65536" and "consumable cb \<le> e"
  shows "consume_line n cb = Some ((e + 1, take (e + 1) (contents cb) @ [0]),
     cb\<lparr>maxed := False, cb_tail := (cb_tail cb + (e + 1)) mod fixed_size cb\<rparr>)"
proof -
  let ?N = "fixed_size cb" and ?h = "cb_head cb" and ?t = "cb_tail cb" and ?cells = "cb_buffer cb"
  have cb: "cb_ok cb" "0 \<notin> set (contents cb)" "0 < ?h \<Longrightarrow> ?cells ! ?h = 0" "?cells ! ?N = 0"
    using assms(1) by (simp_all add: log_ok_def)
  note ok = cb_ok_facts [OF cb(1)]
  have wrapped: "?h < ?t"
  proof (rule ccontr)
    assume "\<not> ?h < ?t"
    then have "length (contents cb) = consumable cb"
      using ok(1,2) by (simp add: contents_def length_ring held consumable_eq cb(1))
    with assms(2,7) show False by simp
  qed
  define c where "c = ?N - ?t"
  have c: "consumable cb = c" "c \<le> e" "?t + c = ?N"
    using wrapped ok(1,2) assms(7) by (auto simp: c_def consumable_eq cb(1))
  let ?first = "take c (drop ?t ?cells)"
  have con: "contents cb = ?first @ take ?h ?cells" "length ?first = c"
    using contents_wrapped [OF cb(1) wrapped] ok(2,5) by (simp_all add: c_def)
  have e: "e - c < ?h" "?cells ! (e - c) = newline" "?h \<le> length ?cells"
    using assms(2,3) c(2) con ok(1,5) by (auto simp: nth_append)
  have none: "contents cb ! i \<noteq> newline \<and> contents cb ! i \<noteq> 0" if "i < e" for i
    using that assms(2,4) cb(2) by (auto simp: in_set_conv_nth)
  have one: "strchr newline (drop ?t ?cells) = Some None"
  proof (rule strchr_ended)
    show "c < length (drop ?t ?cells)" "drop ?t ?cells ! c = 0"
      using ok(2,5) c(3) cb(4) by simp_all
    show "drop ?t ?cells ! i \<noteq> newline \<and> drop ?t ?cells ! i \<noteq> 0" if "i < c" for i
    proof -
      have "contents cb ! i = drop ?t ?cells ! i" using that con(2) by (simp add: con(1) nth_append)
      then show ?thesis using none [of i] that c(2) by simp
    qed
  qed simp
  have two: "strchr newline ?cells = Some (Some (e - c))"
  proof (rule strchr_found)
    show "e - c < length ?cells" "?cells ! (e - c) = newline" using e by simp_all
    show "?cells ! i \<noteq> newline \<and> ?cells ! i \<noteq> 0" if "i < e - c" for i
    proof -
      have "contents cb ! (c + i) = ?cells ! i"
        using that con(2) e(1) by (simp add: con(1) nth_append)
      then show ?thesis using none [of "c + i"] that by simp
    qed
  qed
  have "min n (consumable cb) = c" using c assms(5) by simp
  moreover have "?h \<le> ?t \<and> \<not> cb_empty cb" using wrapped by (simp add: cb_empty_def)
  moreover have "u16_of (int n - int c) = n - c" "u16_of (int (e - c) + 1) = e - c + 1"
    using assms(5,6) c(2) u16_of_nat(3) [of "e - c"] by simp_all
  moreover have "min (n - c) (e - c + 1) = e - c + 1" using assms(5) c(2) by simp
  moreover have "u16_of (int c + int (e - c + 1)) = e + 1"
    using assms(5,6) c(2) by (subst u16_of_nat(2)) simp_all
  moreover have "take (e + 1) (contents cb) = ?first @ take (e - c + 1) ?cells"
    using c(2) con(2) e(1,3) by (simp add: con(1) Suc_diff_le min_def)
  moreover have "(?t + (e + 1)) mod ?N = (0 + (e - c + 1)) mod ?N"
  proof -
    have "?t + (e + 1) = e - c + 1 + ?N" using c(2,3) by simp
    then show ?thesis by (simp only: mod_add_self2 add_0_left)
  qed
  ultimately show ?thesis
    by (simp add: consume_line_def line_wrapped_def Let_def one two c(1))
qed

lemma line_of_log:
  assumes "log_ok cb" and "e < length (contents cb)" and "contents cb ! e = newline"
    and "newline \<notin> set (take e (contents cb))" and "e < n" and "n < 65536"
  shows "\<exists>u. consume_line n cb = Some ((e + 1, take (e + 1) (contents cb) @ [0]), u) \<and> log_ok u \<and>
     contents u = drop (e + 1) (contents cb) \<and> \<not> maxed u"
proof -
  let ?u = "cb\<lparr>maxed := False, cb_tail := (cb_tail cb + (e + 1)) mod fixed_size cb\<rparr>"
  have cb: "cb_ok cb" using assms(1) by (simp add: log_ok_def)
  note ok = cb_ok_facts [OF cb]
  have line: "consume_line n cb = Some ((e + 1, take (e + 1) (contents cb) @ [0]), ?u)"
    using line_in_one_piece [OF assms] line_in_two_pieces [OF assms] by (cases "e < consumable cb") auto
  have con: "contents ?u = drop (e + 1) (contents cb)"
    using ring_drop [OF ok(1,2), of "e + 1" "cb_buffer cb"] assms(2)
    by (simp add: contents_def)
  have "length (contents ?u) < length (contents cb)" unfolding con using assms(2) by simp
  then have "cb_head cb + 1 \<noteq> cb_tail ?u"
    using ok(1-4) length_contents [OF cb] by (auto simp: contents_def length_ring capacity_def held mod_less_divisor)
  then have "cb_ok ?u" using ok by (simp add: cb_ok_def)
  moreover have "0 \<notin> set (contents ?u)"
    unfolding con using assms(1) set_drop_subset [of "e + 1" "contents cb"] by (auto simp: log_ok_def)
  ultimately have "log_ok ?u" using assms(1) by (simp add: log_ok_def)
  with line con show ?thesis by (intro exI [of _ ?u]) simp
qed

lemma log_ok_write:
  assumes "log_ok cb" and "xs \<noteq> []" and "0 \<notin> set xs" and "length xs < 65536"
  shows "\<exists>u. write_string xs cb = Some u \<and> log_ok u \<and> fixed_size u = fixed_size cb \<and>
     contents u = keep (capacity cb) (contents cb @ xs)"
proof -
  have "takeWhile (\<lambda>x. x \<noteq> 0) xs = xs" using assms(3) by (auto simp: takeWhile_eq_all_conv)
  then have xs: "xs = takeWhile (\<lambda>x. x \<noteq> 0) xs" by (rule sym)
  have cb: "cb_ok cb" using assms(1) by (simp add: log_ok_def)
  note refines = write_string_refines [OF cb xs assms(2,4)]
  then obtain u where
    u: "write_string xs cb = Some u" "cb_ok u" "fixed_size u = fixed_size cb"
      "contents u = keep (capacity cb) (contents cb @ xs)"
      "0 < cb_head u \<longrightarrow> cb_buffer u ! cb_head u = 0"
      "cb_buffer cb ! fixed_size cb = 0 \<longrightarrow> cb_buffer u ! fixed_size cb = 0"
    by (elim exE conjE)
  have "set (contents u) \<subseteq> set (contents cb) \<union> set xs"
    unfolding u(4) keep_def using set_drop_subset [of _ "contents cb @ xs"] by (simp only: set_append)
  then have "0 \<notin> set (contents u)" using assms(1,3) by (auto simp: log_ok_def)
  with u assms(1) show ?thesis by (simp add: log_ok_def)
qed

subsection \<open>Printing the log\<close>

definition short_lines :: "nat \<Rightarrow> bytes \<Rightarrow> bool" where
  "short_lines n xs = list_all (\<lambda>k. newline \<in> set (take n (drop k xs))) [0..<length xs]"

lemma short_lines_drop: "short_lines n xs \<Longrightarrow> short_lines n (drop j xs)"
  by (auto simp: short_lines_def list_all_iff)

lemma first_line:
  assumes "short_lines n xs" and "xs \<noteq> []"
  shows "\<exists>e < length xs. e < n \<and> xs ! e = newline \<and> newline \<notin> set (take e xs)"
proof -
  have "\<forall>k \<in> {0..<length xs}. newline \<in> set (take n (drop k xs))"
    using assms(1) by (simp add: short_lines_def list_all_iff)
  from bspec [OF this, of 0] have "newline \<in> set (take n xs)" using assms(2) by simp
  from split_list_first [OF this] obtain ys zs where
    first: "take n xs = ys @ newline # zs" "newline \<notin> set ys" by blast
  have "xs = ys @ newline # zs @ drop n xs" using first(1) append_take_drop_id [of n xs] by simp
  then obtain rest where "xs = ys @ newline # rest" by blast
  moreover have "length ys < n"
  proof -
    have "length (ys @ newline # zs) \<le> n" unfolding first(1) [symmetric] by simp
    then show ?thesis by simp
  qed
  ultimately show ?thesis using first(2) by (intro exI [of _ "length ys"]) simp
qed

lemma print_lines_prints:
  assumes "log_ok cb" and "short_lines 159 (contents cb)"
  shows "\<exists>u. print_lines cb out = Some (out @ contents cb, u) \<and> log_ok u \<and> contents u = []"
  using assms
proof (induction "length (contents cb)" arbitrary: cb out rule: less_induct)
  case less
  have ok: "cb_ok cb" using less.prems(1) by (simp add: log_ok_def)
  show ?case
  proof (cases "contents cb = []")
    case True
    then show ?thesis
      using less.prems(1) contents_empty_iff [OF ok] by (simp add: print_lines.simps)
  next
    case False
    from first_line [OF less.prems(2) False] obtain e where e: "e < length (contents cb)" "e < 159"
      "contents cb ! e = newline" "newline \<notin> set (take e (contents cb))" by blast
    from line_of_log [OF less.prems(1) e(1,3,4,2)] obtain u where
      u: "consume_line 159 cb = Some ((e + 1, take (e + 1) (contents cb) @ [0]), u)" "log_ok u"
        "contents u = drop (e + 1) (contents cb)" by auto
    have "length (contents u) < length (contents cb)" using e(1) by (simp add: u(3))
    from less.hyps [OF this u(2), of "out @ take e (contents cb) @ [newline]"]
      short_lines_drop [OF less.prems(2), of "e + 1"] obtain v where
      v: "print_lines u (out @ take e (contents cb) @ [newline]) =
          Some ((out @ take e (contents cb) @ [newline]) @ drop (e + 1) (contents cb), v)" "log_ok v" "contents v = []"
      unfolding u(3) by blast
    have "(take (e + 1) (contents cb) @ [0]) ! e = newline" using e(1,3) by (simp add: nth_append)
    moreover have "take e (take (e + 1) (contents cb) @ [0]) = take e (contents cb)"
      using e(1) by (simp add: take_append)
    moreover have "\<not> cb_empty cb" using False contents_empty_iff [OF ok] by simp
    moreover have "take e (contents cb) @ newline # drop (e + 1) (contents cb) = contents cb"
      using e(1,3) id_take_nth_drop [of e "contents cb"] by simp
    ultimately show ?thesis
      using v u(1)
      by (subst print_lines.simps) (simp add: SERIAL_LOG_BUFFER_LEN_def)
  qed
qed

lemma log_ok_cleared:
  assumes "log_ok cb" and "contents cb = []"
  shows "log_ok (clear_if_empty cb) \<and> contents (clear_if_empty cb) = []"
proof -
  have "cb_ok cb" using assms(1) by (simp add: log_ok_def)
  then show ?thesis
    using assms contents_empty_iff [of cb]
    by (auto simp: log_ok_def clear_if_empty_def Let_def cb_empty_def cb_ok_def contents_def ring_def)
qed

end
