(* ===== verification/Log_Properties.thy ===== *)
theory Log_Properties
  imports Debug_Log
begin

section \<open>Properties of the log\<close>

subsection \<open>Indices\<close>

text \<open>The operations of the ring, in any order and with any arguments.\<close>

inductive ring_step :: "u8 circular_buffer \<Rightarrow> u8 circular_buffer \<Rightarrow> bool" where
  item: "ring_step cb (write_item x cb)"
| string: "write_string xs cb = Some u \<Longrightarrow> ring_step cb u"
| clear: "ring_step cb (cb_clear cb)"
| clear_if_empty: "ring_step cb (clear_if_empty cb)"
| consume: "ring_step cb (snd (cb_consume cb))"
| block: "ring_step cb (snd (consume_block cb))"
| block_into: "n < 65536 \<Longrightarrow> ring_step cb (snd (consume_block_into n cb))"
| line: "n < 65536 \<Longrightarrow> consume_line n cb = Some (line, u) \<Longrightarrow> ring_step cb u"

definition within :: "'a circular_buffer \<Rightarrow> bool" where
  "within cb \<longleftrightarrow> 2 \<le> fixed_size cb \<and> fixed_size cb < 65536 \<and>
     length (cb_buffer cb) = fixed_size cb + 1 \<and> cb_head cb < fixed_size cb \<and>
     cb_tail cb < fixed_size cb"

lemma within_facts:
  assumes "within cb"
  shows "cb_head cb < fixed_size cb" "cb_tail cb < fixed_size cb" "0 < fixed_size cb"
    "fixed_size cb < 65536" "length (cb_buffer cb) = fixed_size cb + 1"
  using assms by (auto simp: within_def)

lemma within_update:
  assumes "within cb" "cb_head u < fixed_size cb" "cb_tail u < fixed_size cb"
    "fixed_size u = fixed_size cb" "length (cb_buffer u) = length (cb_buffer cb)"
  shows "within u"
  using assms by (simp add: within_def)

lemma consumable_within:
  assumes "within cb"
  shows "cb_tail cb + consumable cb \<le> fixed_size cb"
  using within_facts [OF assms] u16_of_nat(1) [of 0] by (auto simp: consumable_def cb_empty_def)

lemma write_loop_length:
  "length (fst (write_loop N h t xs s)) = length (fst s)"
  by (induction N h t xs s rule: write_loop.induct) (auto simp: Let_def)

lemma line_finish_within:
  assumes "within cb" "written + will \<le> line_size"
    "line_size < fixed_size cb \<or> written = 0 \<and> will \<le> remaining" "line_size < 65536"
  shows "within (snd (line_finish line_size p e will remaining t written line cb))"
proof -
  note w = within_facts [OF assms(1)]
  let ?extra = "case e of None \<Rightarrow> will | Some e \<Rightarrow> min will (u16_of (int e - int p + 1))"
  have "?extra \<le> will" by (auto split: option.split)
  then have "written + ?extra \<le> remaining \<or> line_size < fixed_size cb" using assms(3) by auto
  moreover have "u16_of (int written + int will) \<le> line_size"
    using assms(2,4) u16_of_nat(2) [of written will] by simp
  ultimately show ?thesis
    using w by (intro within_update [OF assms(1)]) (auto simp: line_finish_def Let_def)
qed

lemma consume_line_within:
  assumes "within cb" "n < 65536" "consume_line n cb = Some (line, u)"
  shows "within u"
proof -
  note w = within_facts [OF assms(1)] and c = consumable_within [OF assms(1)]
  let ?will = "min n (consumable cb)"
  obtain found where f: "strchr newline (drop (cb_tail cb) (cb_buffer cb)) = Some found"
    using assms(3) by (auto simp: consume_line_def Let_def split: option.splits)
  show ?thesis
  proof (cases found)
    case (Some e)
    then have "u = snd (line_finish n (cb_tail cb) (Some (cb_tail cb + e)) ?will (consumable cb)
        (cb_tail cb) 0 [] cb)"
      using assms(3) f by (auto simp: consume_line_def Let_def)
    then show ?thesis using line_finish_within [OF assms(1) _ _ assms(2)] by simp
  next
    case None
    show ?thesis
    proof (cases "consumable cb \<le> n")
      case True
      then show ?thesis
        using assms(3) f None w
        by (intro within_update [OF assms(1)])
          (auto simp: consume_line_def line_wrapped_def Let_def split: option.splits if_splits)
    next
      case False
      then have "n < fixed_size cb" using c w(2) by linarith
      moreover have "u16_of (int n - int n) = 0" by (simp add: u16_of_def)
      moreover obtain p e t l where "u = snd (line_finish n p e 0 (cb_head cb) t n l cb)"
        using assms(3) f None False
        by (auto simp: consume_line_def Let_def min_def u16_of_def split: option.splits)
          (metis snd_conv)
      ultimately show ?thesis using line_finish_within [OF assms(1) _ _ assms(2)] by simp
    qed
  qed
qed

lemma ring_step_within:
  assumes "ring_step cb u" "within cb"
  shows "within u"
  using assms
proof (cases rule: ring_step.cases)
  case (string xs)
  then show ?thesis
    using within_facts [OF assms(2)] write_loop_length [of "fixed_size cb" "cb_head cb" "cb_tail cb" xs
        "(cb_buffer cb, 0, 0, maxed cb)"]
    by (intro within_update [OF assms(2)])
      (auto simp: write_string_def Let_def split: if_splits prod.splits)
next
  case (line n l)
  then show ?thesis using consume_line_within [OF assms(2)] by blast
next
  case (block_into n)
  then show ?thesis
    using within_facts [OF assms(2)]
    by (intro within_update [OF assms(2)]) (auto simp: consume_block_into_def Let_def)
qed (use within_facts [OF assms(2)] in \<open>auto intro!: within_update [OF assms(2)]
    simp: write_item_def cb_clear_def clear_if_empty_def cb_consume_def consume_block_def Let_def\<close>)

text \<open>
  C31: No sequence of operations moves an index of the ring out of its array: after any calls
  of \<open>write\<close>, \<open>clear\<close>, \<open>clear_if_empty\<close>, \<open>consume\<close>, \<open>consume_block\<close> and \<open>consume_line\<close>, with
  any arguments, \<open>head\<close> and \<open>tail\<close> are below the size, the array has one cell more than
  that, and the block that can be consumed ends within the ring.
\<close>

theorem ring_stays_in_array:
  assumes "rtranclp ring_step (cb_init n memory) cb" and "2 \<le> n" "n < 65536" "n < length memory"
  shows "cb_head cb < fixed_size cb \<and> cb_tail cb < fixed_size cb \<and>
     length (cb_buffer cb) = fixed_size cb + 1 \<and> cb_tail cb + consumable cb \<le> fixed_size cb"
proof -
  have "within (cb_init n memory)" using assms(2-4) by (simp add: within_def cb_init_def)
  with assms(1) have "within cb" by (induction rule: rtranclp_induct) (auto intro: ring_step_within)
  then show ?thesis using within_facts consumable_within by blast
qed

definition sample_log :: "u8 circular_buffer" where
  "sample_log = \<lparr>cb_buffer = ascii ''fire'' @ [newline] @ replicate 8 0, fixed_size = 12,
     cb_head = 5, cb_tail = 0, maxed = False, will_clear_if_empty = False\<rparr>"

lemma sample_log_written:
  "write_string (ascii ''fire'' @ [newline]) (cb_init 12 (replicate 13 0)) = Some sample_log"
proof -
  let ?text = "ascii ''fire'' @ [newline]"
  have loop: "write_loop 12 0 0 ?text (replicate 13 0, 0, 0, False) =
      (ascii ''fire'' @ [newline] @ replicate 8 0, 4, 5, False)"
    and short: "length (takeWhile (\<lambda>x. x \<noteq> 0) ?text) = 5"
    and cells: "(ascii ''fire'' @ [newline] @ replicate 8 0)[4 + 1 := 0] =
      ascii ''fire'' @ [newline] @ replicate 8 0"
    by code_simp+
  show ?thesis
    unfolding write_string_def short sample_log_def
    by (simp add: cb_init_def Let_def loop [simplified] cells [simplified])
qed

lemma sample_log_ok: "cb_ok sample_log" "contents sample_log = ascii ''fire'' @ [newline]"
proof -
  show "cb_ok sample_log" by (simp add: cb_ok_def sample_log_def)
  show "contents sample_log = ascii ''fire'' @ [newline]" by code_simp
qed

theorem ring_stays_in_array_witness:
  "cb_head (write_item 7 sample_log) < fixed_size (write_item 7 sample_log)"
proof -
  from rtranclp.rtrancl_into_rtrancl [OF r_into_rtranclp [of ring_step, OF ring_step.string
      [OF sample_log_written]] ring_step.item]
  have "rtranclp ring_step (cb_init 12 (replicate 13 0)) (write_item 7 sample_log)" .
  from ring_stays_in_array [OF this] show ?thesis by simp
qed

subsection \<open>Writing\<close>

text \<open>
  C20: A string write is the append of a log that keeps the last items. Whatever the ring held
  and however long the string is, afterwards it holds the last \<open>fixed_size - 1\<close> items of what
  it held followed by the string up to its end item, oldest first; and as often as there are
  items, \<open>consume\<close> takes the oldest one out and leaves the rest.
\<close>

theorem write_keeps_last:
  assumes "cb_ok cb" and "xs = takeWhile (\<lambda>x. x \<noteq> 0) text" and "xs \<noteq> []" "length xs < 65536"
  shows "\<exists>u. write_string text cb = Some u \<and> fixed_size u = fixed_size cb \<and>
     contents u = keep (capacity cb) (contents cb @ xs) \<and>
     fst (cb_consume u) = hd (contents u) \<and> contents (snd (cb_consume u)) = tl (contents u)"
proof -
  from write_string_refines [OF assms] obtain u where u: "write_string text cb = Some u" "cb_ok u"
    "fixed_size u = fixed_size cb" "contents u = keep (capacity cb) (contents cb @ xs)" by blast
  have "0 < length (contents u)"
    using assms(3) cb_ok_facts(3) [OF assms(1)] by (simp add: u(4) capacity_def)
  then have "contents u \<noteq> []" by auto
  note one = log.take_one [OF u(2) this]
  then have "fst (cb_consume u) = hd (contents u) \<and> contents (snd (cb_consume u)) = tl (contents u)"
    by (metis list.sel(1,3))
  with u show ?thesis by blast
qed

theorem write_keeps_last_witness:
  "\<exists>u. write_string (ascii ''smoke seen'') sample_log = Some u \<and>
     contents u = keep 11 (contents sample_log @ ascii ''smoke seen'')"
proof -
  have "ascii ''smoke seen'' = takeWhile (\<lambda>x. x \<noteq> 0) (ascii ''smoke seen'')" by code_simp
  moreover have "capacity sample_log = 11" by (simp add: capacity_def sample_log_def)
  ultimately show ?thesis using write_keeps_last [OF sample_log_ok(1)] by fastforce
qed

text \<open>
  Written one item at a time the ring loses everything when the head reaches the last cell
  with the tail at the first: the test for a full ring compares \<open>head\<close> with \<open>tail - 1\<close>, which
  is -1 there, so the next item is written without moving the tail, the head wraps onto the
  tail, and a ring that held all the items it can hold is empty.
\<close>

theorem single_writes_wrap:
  assumes "cb_ok cb" and "cb_tail cb = 0" and "cb_head cb = fixed_size cb - 1"
  shows "length (contents cb) = capacity cb \<and> \<not> cb_full cb \<and> contents (write_item x cb) = []"
proof -
  note ok = cb_ok_facts [OF assms(1)]
  have "(cb_head cb + fixed_size cb - cb_tail cb) mod fixed_size cb = fixed_size cb - 1"
    unfolding held [OF ok(1,2)] using assms(2,3) by simp
  then have "length (contents cb) = capacity cb" "\<not> maxed cb"
    using ok(7) assms(2) by (simp_all add: contents_def length_ring capacity_def)
  moreover from this have "contents (write_item x cb) = []"
    using ok(3) assms(2,3) by (simp add: write_item_def Let_def contents_def ring_def)
  ultimately show ?thesis by (simp add: cb_full_def)
qed

theorem single_writes_wrap_witness:
  "let cb = \<lparr>cb_buffer = ascii ''abc'' @ [0, 0], fixed_size = 4, cb_head = 3, cb_tail = 0,
             maxed = False, will_clear_if_empty = False\<rparr>
   in length (contents cb) = 3 \<and> contents (write_item 100 cb) = []"
proof -
  let ?cb = "\<lparr>cb_buffer = ascii ''abc'' @ [0, 0], fixed_size = 4, cb_head = 3, cb_tail = 0,
             maxed = False, will_clear_if_empty = False\<rparr>"
  have "cb_ok ?cb" by (simp add: cb_ok_def)
  from single_writes_wrap [OF this, of 100] show ?thesis by (simp add: Let_def capacity_def)
qed

lemma empty_string_clears_cell:
  assumes "cb_ok cb"
  shows "\<exists>u. write_string [] cb = Some u \<and> cb_buffer u = (cb_buffer cb)[1 := 0] \<and>
     cb_head u = cb_head cb"
  using cb_ok_facts [OF assms] by (simp add: write_string_def Let_def)

subsection \<open>Logging packets\<close>

lemma hex_char_nonzero: "n < 16 \<Longrightarrow> hex_char n \<noteq> 0"
proof -
  assume "n < 16"
  then have "unat (hex_char n) = (if n < 10 then 48 + n else 87 + n)"
    by (simp add: hex_char_def unat_of_nat)
  then show "hex_char n \<noteq> 0" by (metis add_is_0 unat_0 zero_neq_numeral)
qed

definition logged_text :: "bytes \<Rightarrow> bool" where
  "logged_text text \<longleftrightarrow> text \<noteq> [] \<and> 0 \<notin> set text \<and> length text < 600"

lemma print_named_data_texts_logged:
  assumes "0 \<notin> set name" "length name < 590"
  shows "list_all logged_text (print_named_data_texts name data)"
proof -
  have "unat b < 2 ^ LENGTH(8)" for b :: u8 by (rule unsigned_less)
  then have "unat b div 16 < 16" for b :: u8 using less_mult_imp_div_less [of "unat b" 16 16] by simp
  then have "hex_char (unat b div 16) \<noteq> 0" "hex_char (unat b mod 16) \<noteq> 0" for b :: u8
    by (simp_all add: hex_char_nonzero)
  then show ?thesis
    using assms by (auto simp: print_named_data_texts_def list_all_iff logged_text_def format_02x_def
        format_visible_def ascii_def word_le_nat_alt dest!: sym [of 0])
qed

lemma writeF_all:
  assumes "log_ok cb" "list_all logged_text texts"
  shows "\<exists>u. fold (\<lambda>text r. Option.bind r (writeF text)) texts (Some cb) = Some u \<and> log_ok u \<and>
     fixed_size u = fixed_size cb \<and>
     contents u = (if texts = [] then contents cb else keep (capacity cb) (contents cb @ concat texts))"
  using assms
proof (induction texts arbitrary: cb)
  case (Cons x texts)
  then have x: "x \<noteq> []" "0 \<notin> set x" "length x < 65536" "length x < 600"
    by (simp_all add: logged_text_def)
  from log_ok_write [OF Cons.prems(1) x(1-3)] obtain v where
    v: "write_string x cb = Some v" "log_ok v" "fixed_size v = fixed_size cb"
      "contents v = keep (capacity cb) (contents cb @ x)" by blast
  from Cons.IH [OF v(2)] Cons.prems(2) obtain u where
    "fold (\<lambda>text r. Option.bind r (writeF text)) texts (Some v) = Some u" "log_ok u"
    "fixed_size u = fixed_size cb"
    "contents u = (if texts = [] then contents v else keep (capacity v) (contents v @ concat texts))"
    by (auto simp: v(3))
  moreover have "writeF x cb = Some v" using v(1) x(4) by (simp add: writeF_def)
  ultimately show ?case using v(3,4) by (auto simp: capacity_def keep_append)
qed simp

text \<open>
  A packet that is logged with \<open>print_named_data\<close> is in the log as two lines, the bytes as
  two hexadecimal digits each and as characters, behind what was there, and the log keeps the
  last \<open>fixed_size - 1\<close> bytes of it all; no call of \<open>writeF\<close> runs into its assertion.
\<close>

theorem named_data_logged:
  assumes "log_ok cb" and "0 \<notin> set name" and "length name < 590"
  shows "\<exists>u. print_named_data name data cb = Some u \<and> log_ok u \<and>
     contents u = keep (capacity cb) (contents cb @
       name @ ascii '':'' @ concat (map format_02x data) @ [newline] @
       name @ ascii ''[c]:'' @ concat (map format_visible data) @ [newline])"
  using writeF_all [OF assms(1) print_named_data_texts_logged [OF assms(2,3)], of data]
  by (auto simp: print_named_data_def print_named_data_texts_def)

lemma sample_log_log_ok: "log_ok sample_log"
proof -
  have "0 \<notin> set (ascii ''fire'' @ [newline])" by code_simp
  then show ?thesis
    using sample_log_ok by (simp add: log_ok_def) (simp add: sample_log_def ascii_def)
qed

theorem named_data_logged_witness:
  "\<exists>u. print_named_data (ascii ''P'') [0x7f] sample_log = Some u \<and>
     contents u = keep 11 (ascii ''fire'' @ [newline] @ ascii ''P:7f'' @ [newline] @ ascii ''P[c]: '' @ [newline])"
proof -
  have "(0 :: u8) \<notin> set (ascii ''P'')" "length (ascii ''P'') < 590" "capacity sample_log = 11"
    by (simp_all add: ascii_def sample_log_def capacity_def)
  moreover have "ascii ''P:7f'' = ascii ''P:'' @ format_02x 0x7f" "ascii ''P[c]: '' =
      ascii ''P[c]:'' @ format_visible 0x7f"
    by code_simp+
  moreover have "ascii ''P:'' = ascii ''P'' @ ascii '':''" "ascii ''P[c]:'' = ascii ''P'' @ ascii ''[c]:''"
    by code_simp+
  ultimately show ?thesis
    using named_data_logged [OF sample_log_log_ok, of "ascii ''P''" "[0x7f]"]
    by (auto simp: sample_log_ok(2))
qed

subsection \<open>Printing\<close>

text \<open>
  C28: Printing the log ends and prints exactly what it holds. When the log has not overflown
  and every line in it is shorter than the line buffer, \<open>printAvailableLogging\<close> returns,
  what it printed is the text in the log, byte for byte, wherever in the ring the text starts
  and wraps, and the log is empty and reset to its start.
\<close>

theorem log_printed:
  assumes "log_ok cb" and "short_lines 159 (contents cb)" and "\<not> cb_full cb"
  shows "\<exists>u. printAvailableLogging cb = Some (None, contents cb, u) \<and> log_ok u \<and>
     contents u = [] \<and> cb_head u = 0 \<and> cb_tail u = 0"
proof -
  from print_lines_prints [OF assms(1,2), of "[]"] obtain u where
    u: "print_lines cb [] = Some (contents cb, u)" "log_ok u" "contents u = []" by auto
  have "cb_ok u" using u(2) by (simp add: log_ok_def)
  then have "cb_empty u" using contents_empty_iff u(3) by blast
  then show ?thesis
    using u log_ok_cleared [OF u(2,3)] assms(3)
    by (simp add: printAvailableLogging_def clear_if_empty_def cb_empty_def Let_def)
qed

theorem log_printed_witness:
  "\<exists>u. printAvailableLogging sample_log = Some (None, ascii ''fire'' @ [newline], u) \<and> contents u = []"
proof -
  have "short_lines 159 (contents sample_log)"
    by (simp add: sample_log_ok short_lines_def ascii_def upt_rec)
  moreover have "\<not> cb_full sample_log" by (simp add: cb_full_def sample_log_def)
  ultimately show ?thesis using log_printed [OF sample_log_log_ok] sample_log_ok(2) by auto
qed

text \<open>
  A line longer than the line buffer that wraps around the end of the ring is lost its way.
  When the text up to the end of the ring has no newline and does not fit the line buffer, and
  the head is below its size \<open>n\<close>, \<open>consume_line\<close> returns the first \<open>n\<close> bytes but sets the tail to
  \<open>n\<close>, not \<open>n\<close> further: text that is long gone is in the log again. When the tail was
  there already, nothing is consumed, and \<open>printAvailableLogging\<close> prints for ever.
\<close>

theorem long_line_rewinds:
  assumes "cb_ok cb" and "cb_head cb < n" and "n < fixed_size cb - cb_tail cb" and "n \<le> cb_tail cb"
    and "\<And>i. cb_tail cb \<le> i \<Longrightarrow> i < fixed_size cb \<Longrightarrow> cb_buffer cb ! i \<noteq> newline \<and> cb_buffer cb ! i \<noteq> 0"
    and "cb_buffer cb ! fixed_size cb = 0"
  shows "consume_line n cb =
      Some ((n, take n (contents cb) @ [0]), cb\<lparr>maxed := False, cb_tail := n\<rparr>) \<and>
    (cb_tail cb = n \<and> n = 159 \<and> cb_head cb < 158 \<longrightarrow> printAvailableLogging cb = None)"
proof -
  let ?N = "fixed_size cb" and ?t = "cb_tail cb" and ?cells = "cb_buffer cb"
  note ok = cb_ok_facts [OF assms(1)]
  have ended: "strchr newline (drop p ?cells) = Some None" if "?t \<le> p" "p \<le> ?N" for p
    using that assms(5,6) ok(5) by (intro strchr_ended [where e = "?N - p"]) auto
  have c: "consumable cb = ?N - ?t" "min n (consumable cb) = n"
    using assms(2-4) by (simp_all add: consumable_eq [OF assms(1)])
  have "take n (contents cb) = take n (drop ?t ?cells)"
    using read_prefix(1,2) [OF assms(1) _ refl, of n] c(2) by (simp add: min_def split: if_splits)
  moreover have "u16_of (int ?t + int n) = ?t + n" "u16_of (int n - int n) = 0" "u16_of (int n) = n"
    using assms(3) ok(6) by (simp_all add: u16_of_def)
  moreover have "?t + n \<le> ?N" using assms(3) by simp
  ultimately have line: "consume_line n cb =
      Some ((n, take n (contents cb) @ [0]), cb\<lparr>maxed := False, cb_tail := n\<rparr>)"
    using ended [of ?t] ended [of "?t + n"] assms(2-4) ok(2) c
    by (simp add: consume_line_def line_finish_def Let_def cb_empty_def)
  have stuck: "printAvailableLogging cb = None" if "?t = n" "n = 159" "cb_head cb < 158"
  proof -
    have "\<not> maxed cb" using that ok(7) by simp
    then have same: "cb\<lparr>maxed := False, cb_tail := n\<rparr> = cb" using that(1) by simp
    have again: "consume_line 159 cb = Some ((159, take 159 (contents cb) @ [0]), cb)"
      using line same that(2) by simp
    have full_line: "SERIAL_LOG_BUFFER_LEN - 1 = 159" and here: "\<not> cb_empty cb"
      using that assms(2) by (simp_all add: SERIAL_LOG_BUFFER_LEN_def cb_empty_def)
    have never: "c \<noteq> cb" if "print_lines c out = Some r" for c out r
    proof (rule print_lines.raw_induct [OF _ that, of "\<lambda>c out r. c \<noteq> cb"])
      fix f :: "u8 circular_buffer \<Rightarrow> bytes \<Rightarrow> (bytes \<times> u8 circular_buffer) option" and c out r
      assume "\<And>c out r. f c out = Some r \<Longrightarrow> c \<noteq> cb"
        and "(if cb_empty c then Some (out, c)
          else case consume_line (SERIAL_LOG_BUFFER_LEN - 1) c of
                 None \<Rightarrow> None
               | Some ((len, line), u) \<Rightarrow>
                   if len = 0 then None
                   else f u (out @ take (if line ! (len - 1) = newline then len - 1 else len) line @ [newline]))
          = Some r"
      note 1 = this
      show "c \<noteq> cb"
      proof
        assume "c = cb"
        then have "\<exists>printed. f cb printed = Some r"
          using 1(2) again here by (auto simp: full_line [simplified])
        then show False using 1(1) by blast
      qed
    qed
    have "print_lines cb [] = None" using never by (cases "print_lines cb []") blast+
    then show ?thesis using \<open>\<not> maxed cb\<close> by (simp add: printAvailableLogging_def cb_full_def)
  qed
  show ?thesis using line stuck by blast
qed

definition sample_hexdump :: "u8 circular_buffer" where
  "sample_hexdump = \<lparr>cb_buffer = 0 # replicate 1999 97 @ [0], fixed_size = 2000, cb_head = 0,
     cb_tail = 159, maxed = False, will_clear_if_empty = False\<rparr>"

theorem long_line_rewinds_witness:
  "printAvailableLogging sample_hexdump = None"
proof -
  have facts: "cb_ok sample_hexdump" "cb_head sample_hexdump < 159"
    "159 < fixed_size sample_hexdump - cb_tail sample_hexdump" "159 \<le> cb_tail sample_hexdump"
    by (simp_all add: sample_hexdump_def cb_ok_def)
  have cells: "cb_buffer sample_hexdump ! i \<noteq> newline \<and> cb_buffer sample_hexdump ! i \<noteq> 0"
    if "cb_tail sample_hexdump \<le> i" "i < fixed_size sample_hexdump" for i
    using that by (cases i) (auto simp: sample_hexdump_def nth_append)
  have "cb_buffer sample_hexdump ! fixed_size sample_hexdump = 0"
    by (simp add: sample_hexdump_def nth_append nth_Cons')
  from long_line_rewinds [OF facts cells this] show ?thesis by (simp add: sample_hexdump_def)
qed

end
