(* ===== verification/Std_Map.thy ===== *)
theory Std_Map
  imports Mesh_Prelude
begin

section \<open>The ordered containers of the C++ library\<close>

text \<open>
  A \<open>std::map\<close> is an association list with ascending keys: its iterators visit the entries
  in that order and \<open>begin()\<close> is the head. A \<open>std::multimap\<close> is an association list sorted by
  the rank of its keys, where \<open>emplace\<close> puts an entry behind those with an equivalent key.
  The rank of a pointer is its address, which is a parameter; the rank of a handle is the
  handle. An iterator into a multimap is the suffix of the list it starts, \<open>end()\<close> is \<open>[]\<close>.
\<close>

subsection \<open>map\<close>

definition map_find :: "'k \<Rightarrow> ('k \<times> 'v) list \<Rightarrow> 'v option" where
  "map_find k m = map_of m k"

fun map_put :: "'k :: linorder \<Rightarrow> 'v \<Rightarrow> ('k \<times> 'v) list \<Rightarrow> ('k \<times> 'v) list" where
  "map_put k v [] = [(k, v)]"
| "map_put k v ((k', v') # m) =
     (if k < k' then (k, v) # (k', v') # m
      else if k = k' then (k, v) # m
      else (k', v') # map_put k v m)"

definition map_erase :: "'k \<Rightarrow> ('k \<times> 'v) list \<Rightarrow> ('k \<times> 'v) list" where
  "map_erase k m = filter (\<lambda>e. fst e \<noteq> k) m"

definition erase_if :: "('e \<Rightarrow> bool) \<Rightarrow> 'e list \<Rightarrow> 'e list" where
  "erase_if P m = filter (\<lambda>e. \<not> P e) m"

text \<open>
  \<open>m[k]\<close> inserts a default element when the key is absent. \<open>map_touch\<close> is that insertion,
  \<open>map_alter\<close> a modification of the element \<open>m[k]\<close>.
\<close>

definition map_at :: "'v \<Rightarrow> 'k \<Rightarrow> ('k \<times> 'v) list \<Rightarrow> 'v" where
  "map_at d k m = (case map_find k m of Some v \<Rightarrow> v | None \<Rightarrow> d)"

definition map_alter :: "'v \<Rightarrow> 'k :: linorder \<Rightarrow> ('v \<Rightarrow> 'v) \<Rightarrow> ('k \<times> 'v) list \<Rightarrow> ('k \<times> 'v) list" where
  "map_alter d k f m = map_put k (f (map_at d k m)) m"

definition map_touch :: "'v \<Rightarrow> 'k :: linorder \<Rightarrow> ('k \<times> 'v) list \<Rightarrow> ('k \<times> 'v) list" where
  "map_touch d k m = map_alter d k (\<lambda>v. v) m"

definition map_sorted :: "('k :: linorder \<times> 'v) list \<Rightarrow> bool" where
  "map_sorted m \<longleftrightarrow> sorted_wrt (<) (map fst m)"

lemma map_sorted_Nil [simp]: "map_sorted []" by (simp add: map_sorted_def)

lemma map_sorted_distinct: "map_sorted m \<Longrightarrow> distinct (map fst m)"
  by (simp add: map_sorted_def strict_sorted_iff)

lemma keys_map_put: "fst ` set (map_put k v m) = insert k (fst ` set m)"
  by (induction k v m rule: map_put.induct) auto

lemma map_sorted_put [simp]: "map_sorted m \<Longrightarrow> map_sorted (map_put k v m)"
proof (induction k v m rule: map_put.induct)
  case (2 k v k' v' m)
  then have keys: "\<forall>x \<in> fst ` set m. k' < x" and m: "map_sorted m"
    by (auto simp: map_sorted_def)
  show ?case
  proof (cases "k < k' \<or> k = k'")
    case True
    with keys m show ?thesis by (auto simp: map_sorted_def intro: less_trans)
  next
    case False
    then have "k' < k" by auto
    with keys have "\<forall>x \<in> fst ` set (map_put k v m). k' < x"
      unfolding keys_map_put by simp
    then show ?thesis
      using False "2.IH" m by (auto simp: map_sorted_def)
  qed
qed (simp add: map_sorted_def)

lemma map_sorted_filter [simp]: "map_sorted m \<Longrightarrow> map_sorted (filter P m)"
  unfolding map_sorted_def sorted_wrt_map by (rule sorted_wrt_filter)

lemma map_sorted_erase [simp]: "map_sorted m \<Longrightarrow> map_sorted (map_erase k m)"
  by (simp add: map_erase_def)

lemma map_sorted_erase_if [simp]: "map_sorted m \<Longrightarrow> map_sorted (erase_if P m)"
  by (simp add: erase_if_def)

lemma map_sorted_alter [simp]: "map_sorted m \<Longrightarrow> map_sorted (map_alter d k f m)"
  by (simp add: map_alter_def)

lemma map_sorted_touch [simp]: "map_sorted m \<Longrightarrow> map_sorted (map_touch d k m)"
  by (simp add: map_touch_def)

text \<open>What the program relies on when it uses a map, and its derived operations.\<close>

locale std_map =
  fixes find :: "'k \<Rightarrow> 'm \<Rightarrow> 'v option"
    and put :: "'k \<Rightarrow> 'v \<Rightarrow> 'm \<Rightarrow> 'm"
    and erase :: "'k \<Rightarrow> 'm \<Rightarrow> 'm"
  assumes find_put: "find j (put k v m) = (if j = k then Some v else find j m)"
    and find_erase: "find j (erase k m) = (if j = k then None else find j m)"
begin

lemma find_put_same: "find k (put k v m) = Some v"
  by (simp add: find_put)

lemma find_put_keeps: "find j m \<noteq> None \<Longrightarrow> find j (put k v m) \<noteq> None"
  by (simp add: find_put)

lemma find_alter:
  "find j (put k (f (case find k m of Some v \<Rightarrow> v | None \<Rightarrow> d)) m) =
     (if j = k then Some (f (case find k m of Some v \<Rightarrow> v | None \<Rightarrow> d)) else find j m)"
  by (simp add: find_put)

lemma find_erase_other: "j \<noteq> k \<Longrightarrow> find j (erase k m) = find j m"
  by (simp add: find_erase)

lemma find_erase_None: "find j m = None \<Longrightarrow> find j (erase k m) = None"
  by (simp add: find_erase)

end

lemma map_find_put: "map_find j (map_put k v m) = (if j = k then Some v else map_find j m)"
  unfolding map_find_def by (induction k v m rule: map_put.induct) auto

lemma map_of_filter_key: "map_of (filter (\<lambda>e. fst e \<noteq> k) m) j = (if j = k then None else map_of m j)"
  by (induction m) auto

interpretation tree: std_map map_find map_put map_erase
  by unfold_locales
    (simp add: map_find_put, simp add: map_find_def map_erase_def map_of_filter_key)

lemmas map_find_simps [simp] = tree.find_put tree.find_erase

lemma map_find_Nil [simp]: "map_find k [] = None"
  by (simp add: map_find_def)

lemma map_find_alter [simp]:
  "map_find j (map_alter d k f m) =
     (if j = k then Some (f (map_at d k m)) else map_find j m)"
  by (simp add: map_alter_def)

lemma map_find_touch [simp]:
  "map_find j (map_touch d k m) = (if j = k then Some (map_at d k m) else map_find j m)"
  by (simp add: map_touch_def)

lemma map_at_Some [simp]: "map_find k m = Some v \<Longrightarrow> map_at d k m = v"
  by (simp add: map_at_def)

lemma map_find_None_iff: "map_find k m = None \<longleftrightarrow> k \<notin> fst ` set m"
  by (simp add: map_find_def map_of_eq_None_iff)

lemma map_find_Some_iff:
  "map_sorted m \<Longrightarrow> map_find k m = Some v \<longleftrightarrow> (k, v) \<in> set m"
  by (simp add: map_find_def map_of_eq_Some_iff map_sorted_distinct)

lemma map_find_erase_if [simp]:
  assumes "map_sorted m"
  shows "map_find k (erase_if P m) =
    (case map_find k m of None \<Rightarrow> None | Some v \<Rightarrow> if P (k, v) then None else Some v)"
proof (cases "map_find k m")
  case None
  then have "k \<notin> fst ` set (erase_if P m)"
    by (auto simp: map_find_None_iff erase_if_def)
  with None show ?thesis by (simp add: map_find_None_iff [symmetric])
next
  case (Some v)
  then have kv: "(k, v) \<in> set m" using assms by (simp add: map_find_Some_iff)
  have un: "w = v" if "(k, w) \<in> set m" for w
    using map_find_Some_iff [OF assms] that Some by (metis option.inject)
  show ?thesis
  proof (cases "P (k, v)")
    case True
    then have "k \<notin> fst ` set (erase_if P m)"
      using un by (force simp: erase_if_def)
    then show ?thesis
      using True Some by (simp add: map_find_None_iff [symmetric])
  next
    case False
    then have "(k, v) \<in> set (erase_if P m)" using kv by (simp add: erase_if_def)
    then have "map_find k (erase_if P m) = Some v"
      using map_find_Some_iff [OF map_sorted_erase_if [OF assms]] by blast
    then show ?thesis using False Some by simp
  qed
qed

lemma set_erase_if [simp]: "set (erase_if P m) = {e \<in> set m. \<not> P e}"
  by (auto simp: erase_if_def)

subsection \<open>multimap\<close>

definition mm_emplace :: "('k \<Rightarrow> 'r :: linorder) \<Rightarrow> 'k \<Rightarrow> 'v \<Rightarrow> ('k \<times> 'v) list \<Rightarrow> ('k \<times> 'v) list" where
  "mm_emplace rank k v m =
     takeWhile (\<lambda>e. rank (fst e) \<le> rank k) m @ (k, v) # dropWhile (\<lambda>e. rank (fst e) \<le> rank k) m"

definition mm_equal_range :: "'k \<Rightarrow> ('k \<times> 'v) list \<Rightarrow> ('k \<times> 'v) list" where
  "mm_equal_range k m = filter (\<lambda>e. fst e = k) m"

text \<open>\<open>find(k)\<close>, and \<open>equal_range(k).first\<close>, which is where an entry of that key belongs.\<close>

definition mm_find_on :: "'k \<Rightarrow> ('k \<times> 'v) list \<Rightarrow> ('k \<times> 'v) list" where
  "mm_find_on k m = dropWhile (\<lambda>e. fst e \<noteq> k) m"

definition mm_lower_bound :: "('k \<Rightarrow> 'r :: linorder) \<Rightarrow> 'k \<Rightarrow> ('k \<times> 'v) list \<Rightarrow> ('k \<times> 'v) list" where
  "mm_lower_bound rank k m = dropWhile (\<lambda>e. rank (fst e) < rank k) m"

text \<open>\<open>erase(equal_range(k).first)\<close>, for an iterator that is not \<open>end()\<close>.\<close>

definition mm_erase_first :: "('k \<Rightarrow> 'r :: linorder) \<Rightarrow> 'k \<Rightarrow> ('k \<times> 'v) list \<Rightarrow> ('k \<times> 'v) list" where
  "mm_erase_first rank k m =
     takeWhile (\<lambda>e. rank (fst e) < rank k) m @ tl (mm_lower_bound rank k m)"

lemma mm_emplace_Nil [simp]: "mm_emplace rank k v [] = [(k, v)]"
  by (simp add: mm_emplace_def)

lemma mm_emplace_Cons [simp]:
  "mm_emplace rank k v (e # m) =
     (if rank (fst e) \<le> rank k then e # mm_emplace rank k v m else (k, v) # e # m)"
  by (simp add: mm_emplace_def)

lemma set_mm_emplace [simp]: "set (mm_emplace rank k v m) = insert (k, v) (set m)"
  by (induction m) auto

definition mm_sorted :: "('k \<Rightarrow> 'r :: linorder) \<Rightarrow> ('k \<times> 'v) list \<Rightarrow> bool" where
  "mm_sorted rank m \<longleftrightarrow> sorted (map (rank \<circ> fst) m)"

lemma mm_sorted_emplace:
  "mm_sorted rank m \<Longrightarrow> mm_sorted rank (mm_emplace rank k v m)"
  by (induction m) (auto simp: mm_sorted_def)

text \<open>
  The entries of one key are a queue: \<open>emplace\<close> puts an entry at its end, \<open>equal_range\<close>
  starts at its front. \<open>get\<close>, \<open>push\<close>, \<open>front_at\<close> and \<open>pop\<close> are the operations on a
  container whose state satisfies \<open>wf\<close>.
\<close>

locale keyed_queue =
  fixes wf :: "'m \<Rightarrow> bool"
    and get :: "'k \<Rightarrow> 'm \<Rightarrow> 'v list"
    and push :: "'k \<Rightarrow> 'v \<Rightarrow> 'm \<Rightarrow> 'm"
    and pop :: "'k \<Rightarrow> 'm \<Rightarrow> 'm"
  assumes wf_push: "wf m \<Longrightarrow> wf (push k v m)"
    and wf_pop: "wf m \<Longrightarrow> get k m \<noteq> [] \<Longrightarrow> wf (pop k m)"
    and get_push: "wf m \<Longrightarrow> get j (push k v m) = (if j = k then get k m @ [v] else get j m)"
    and get_pop: "wf m \<Longrightarrow> get k m \<noteq> [] \<Longrightarrow>
      get j (pop k m) = (if j = k then tl (get k m) else get j m)"
begin

lemma pop_push: "wf m \<Longrightarrow> get k m = [] \<Longrightarrow> get k (pop k (push k v m)) = []"
  by (simp add: get_pop get_push wf_push)

lemma pop_push_swap:
  "wf m \<Longrightarrow> get k m \<noteq> [] \<Longrightarrow> get j (pop k (push k v m)) = get j (push k v (pop k m))"
  by (simp add: get_pop get_push wf_push wf_pop)

lemma get_pushes:
  "wf m \<Longrightarrow> wf (fold (push k) vs m) \<and> get k (fold (push k) vs m) = get k m @ vs"
  by (induction vs arbitrary: m) (simp_all add: wf_push get_push)

end

definition mm_values :: "'k \<Rightarrow> ('k \<times> 'v) list \<Rightarrow> 'v list" where
  "mm_values k m = map snd (mm_equal_range k m)"

lemma mm_values_append [simp]: "mm_values k (m @ n) = mm_values k m @ mm_values k n"
  by (simp add: mm_values_def mm_equal_range_def)

lemma mm_values_simps [simp]:
  "mm_values k [] = []"
  "mm_values k (e # m) = (if fst e = k then snd e # mm_values k m else mm_values k m)"
  by (simp_all add: mm_values_def mm_equal_range_def)

lemma mm_values_above:
  assumes "mm_sorted rank (e # m)" and "rank k < rank (fst e)"
  shows "mm_values k (e # m) = []"
proof -
  have "\<forall>e' \<in> set (e # m). fst e' \<noteq> k"
    using assms by (auto simp: mm_sorted_def)
  then show ?thesis
    by (auto simp: mm_values_def mm_equal_range_def filter_empty_conv)
qed

lemma mm_values_emplace:
  "mm_sorted rank m \<Longrightarrow> mm_values j (mm_emplace rank k v m) =
     (if j = k then mm_values k m @ [v] else mm_values j m)"
proof (induction m)
  case (Cons e m)
  have "mm_sorted rank m" using Cons.prems by (simp add: mm_sorted_def)
  note IH = Cons.IH [OF this]
  show ?case
  proof (cases "rank (fst e) \<le> rank k")
    case True
    then show ?thesis using IH by (cases "j = k") simp_all
  next
    case False
    then show ?thesis using mm_values_above [OF Cons.prems, of k] by auto
  qed
qed simp

lemma mm_lower_bound_key:
  fixes rank :: "'k \<Rightarrow> 'r :: linorder"
  assumes "inj rank" and "mm_sorted rank m" and "mm_values k m \<noteq> []"
  shows "\<exists>rest. mm_lower_bound rank k m = (k, hd (mm_values k m)) # rest"
  using assms(2,3)
proof (induction m)
  case (Cons e m)
  show ?case
  proof (cases "rank (fst e) < rank k")
    case True
    then have "fst e \<noteq> k" by auto
    with Cons True show ?thesis by (simp add: mm_sorted_def mm_lower_bound_def)
  next
    case False
    show ?thesis
    proof (cases "fst e = k")
      case True
      with False show ?thesis by (cases e) (simp add: mm_lower_bound_def)
    next
      case ne: False
      then have "rank k < rank (fst e)" using False injD [OF assms(1)] by (meson linorder_neqE)
      with mm_values_above [OF Cons.prems(1)] Cons.prems(2) show ?thesis by simp
    qed
  qed
qed simp

lemma mm_erase_first_split:
  assumes "mm_lower_bound rank k m = (k, v) # rest"
  shows "\<exists>pre. m = pre @ (k, v) # rest \<and> mm_erase_first rank k m = pre @ rest
      \<and> (\<forall>e \<in> set pre. fst e \<noteq> k)"
proof (intro exI conjI)
  let ?pre = "takeWhile (\<lambda>e. rank (fst e) < rank k) m"
  show "m = ?pre @ (k, v) # rest"
    using assms takeWhile_dropWhile_id [of "\<lambda>e. rank (fst e) < rank k" m]
    by (simp add: mm_lower_bound_def)
  show "mm_erase_first rank k m = ?pre @ rest"
    using assms by (simp add: mm_erase_first_def)
  show "\<forall>e \<in> set ?pre. fst e \<noteq> k"
    by (auto dest: set_takeWhileD)
qed

lemma mm_sorted_remove: "mm_sorted rank (pre @ e # rest) \<Longrightarrow> mm_sorted rank (pre @ rest)"
  by (auto simp: mm_sorted_def sorted_append)

interpretation handle_queue: keyed_queue "mm_sorted (\<lambda>h :: u16. h)" mm_values
  "mm_emplace (\<lambda>h. h)" "mm_erase_first (\<lambda>h. h)"
proof (unfold_locales, goal_cases)
  case (1 m k v)
  then show ?case by (rule mm_sorted_emplace)
next
  case (2 m k)
  then obtain rest where "mm_lower_bound (\<lambda>h. h) k m = (k, hd (mm_values k m)) # rest"
    using mm_lower_bound_key [of "\<lambda>h. h"] by (auto simp: inj_on_def)
  from mm_erase_first_split [OF this] show ?case
    using 2(1) mm_sorted_remove by metis
next
  case (3 m j k v)
  then show ?case by (rule mm_values_emplace)
next
  case (4 m k j)
  then obtain rest where "mm_lower_bound (\<lambda>h. h) k m = (k, hd (mm_values k m)) # rest"
    using mm_lower_bound_key [of "\<lambda>h. h"] by (auto simp: inj_on_def)
  from mm_erase_first_split [OF this] obtain pre where
    m: "m = pre @ (k, hd (mm_values k m)) # rest" "mm_erase_first (\<lambda>h. h) k m = pre @ rest"
    and pre: "\<forall>e \<in> set pre. fst e \<noteq> k" by blast
  have "mm_values k pre = []"
    using pre by (auto simp: mm_values_def mm_equal_range_def filter_empty_conv)
  then show ?case
    by (subst (2 3) m(1), unfold m(2)) auto
qed

end
