(* ===== verification/Peer_Connection.thy ===== *)
theory Peer_Connection
  imports Mesh_Prelude
begin

section \<open>Peer: a node heard of\<close>

text \<open>\<^verbatim>\<open>class Peer\<close>; \<open>operator==\<close> compares the ids.\<close>

record peer =
  peer_id :: u64
  peer_name :: bytes
  peer_public_key :: bytes
  peer_max_ttl :: u8
  peer_connection_handle :: u16

definition Peer_blank :: peer where
  "Peer_blank = \<lparr>peer_id = 0, peer_name = [], peer_public_key = [], peer_max_ttl = 0,
     peer_connection_handle = 0\<rparr>"

definition Peer_init :: "u64 \<Rightarrow> bytes \<Rightarrow> peer" where
  "Peer_init i nm = Peer_blank\<lparr>peer_id := i, peer_name := nm\<rparr>"

definition peer_eq :: "peer \<Rightarrow> peer \<Rightarrow> bool" where
  "peer_eq p other \<longleftrightarrow> peer_id p = peer_id other"

definition updateName :: "peer \<Rightarrow> bytes \<Rightarrow> peer" where
  "updateName p nm = p\<lparr>peer_name := nm\<rparr>"

definition setId :: "peer \<Rightarrow> u64 \<Rightarrow> peer" where
  "setId p new_id = p\<lparr>peer_id := new_id\<rparr>"

definition updateNoisePublicKey :: "peer \<Rightarrow> bytes \<Rightarrow> peer" where
  "updateNoisePublicKey p k = p\<lparr>peer_public_key := k\<rparr>"

definition setAnnounceTtl :: "peer \<Rightarrow> u8 \<Rightarrow> peer" where
  "setAnnounceTtl p ttl = p\<lparr>peer_max_ttl := ttl\<rparr>"

definition Peer_setConnectionHandle :: "peer \<Rightarrow> u16 \<Rightarrow> peer" where
  "Peer_setConnectionHandle p h = p\<lparr>peer_connection_handle := h\<rparr>"

section \<open>BleConnection: a link or a neighbour that could become one\<close>

abbreviation (input) BD_ADDR_TYPE_LE_RANDOM :: u8 where "BD_ADDR_TYPE_LE_RANDOM \<equiv> 1"
abbreviation (input) BD_ADDR_TYPE_UNKNOWN :: u8 where "BD_ADDR_TYPE_UNKNOWN \<equiv> 0xfe"
abbreviation (input) HCI_ROLE_MASTER :: u8 where "HCI_ROLE_MASTER \<equiv> 0"
abbreviation (input) HCI_ROLE_SLAVE :: u8 where "HCI_ROLE_SLAVE \<equiv> 1"
abbreviation (input) HCI_ROLE_INVALID :: u8 where "HCI_ROLE_INVALID \<equiv> 0xff"

definition packet_service_uuid :: bytes where
  "packet_service_uuid =
     [0x29, 0x8c, 0xfe, 0xca, 0xa1, 0x0d, 0x49, 0xee, 0x8a, 0x74, 0xe5, 0x13, 0x54, 0x7f, 0x7e,
      0xf7]"

definition packet_service_uuid_reversed :: bytes where
  "packet_service_uuid_reversed =
     [0xf7, 0x7e, 0x7f, 0x54, 0x13, 0xe5, 0x74, 0x8a, 0xee, 0x49, 0x0d, 0xa1, 0xca, 0xfe, 0x8c,
      0x29]"

definition packet_characteristic_uuid :: bytes where
  "packet_characteristic_uuid =
     [0xa8, 0xd9, 0x91, 0x67, 0xe5, 0x8c, 0x4a, 0x0c, 0x95, 0x65, 0xe2, 0xf1, 0xa7, 0xfb, 0xc0,
      0x5d]"

definition packet_service_name :: bytes where
  "packet_service_name = ascii ''Repeater''"

definition ble_smoke_detector_service_name :: bytes where
  "ble_smoke_detector_service_name = ascii ''SmokeDetector''"

datatype service_uuid_check_status =
  ServiceUUIDNotFound | ServiceUUIDFound | ServiceUUIDAndNameFound

text \<open>
  The address is six bytes. The \<open>notification_listener\<close> is a link cell that the Bluetooth
  stack owns and has no field here.
\<close>

record ble_connection =
  connection_handle :: u16
  bt_address :: bytes
  bt_address_type :: u8
  bt_mtu :: u16
  packet_service_start_group_handle :: u16
  packet_service_end_group_handle :: u16
  packet_characteristic_value_handle :: u16
  notification_enabled :: int
  has_data_to_send :: bool
  connected :: bool
  use_coded_phy :: bool
  fail_reason :: int
  services_found :: service_uuid_check_status
  rssi :: "8 word"
  role :: u8
  last_seen_time :: u64

definition BleConnection_blank :: ble_connection where
  "BleConnection_blank =
     \<lparr>connection_handle = 0, bt_address = replicate 6 0, bt_address_type = BD_ADDR_TYPE_UNKNOWN,
      bt_mtu = 0, packet_service_start_group_handle = 0, packet_service_end_group_handle = 0,
      packet_characteristic_value_handle = 0, notification_enabled = 0,
      has_data_to_send = False, connected = False, use_coded_phy = False, fail_reason = 0,
      services_found = ServiceUUIDFound, rssi = 0, role = HCI_ROLE_INVALID,
      last_seen_time = 0\<rparr>"

definition connection_eq :: "ble_connection \<Rightarrow> ble_connection \<Rightarrow> bool" where
  "connection_eq c other \<longleftrightarrow> connection_handle c = connection_handle other"

subsection \<open>Setters\<close>

definition setConnectionHandle :: "ble_connection \<Rightarrow> u16 \<Rightarrow> ble_connection" where
  "setConnectionHandle c h = c\<lparr>connection_handle := h\<rparr>"

definition setNotificationEnabled :: "ble_connection \<Rightarrow> bool \<Rightarrow> ble_connection" where
  "setNotificationEnabled c cond = c\<lparr>notification_enabled := of_bool cond\<rparr>"

definition getNotificationEnabled :: "ble_connection \<Rightarrow> bool" where
  "getNotificationEnabled c \<longleftrightarrow> notification_enabled c \<noteq> 0"

definition setPacketCharacteristicValueHandle :: "ble_connection \<Rightarrow> int \<Rightarrow> ble_connection" where
  "setPacketCharacteristicValueHandle c h =
     c\<lparr>packet_characteristic_value_handle := word_of_int h\<rparr>"

definition setConnected :: "ble_connection \<Rightarrow> bool \<Rightarrow> ble_connection" where
  "setConnected c cond = c\<lparr>connected := cond\<rparr>"

definition setConnectFailure :: "ble_connection \<Rightarrow> int \<Rightarrow> ble_connection" where
  "setConnectFailure c reason = c\<lparr>fail_reason := reason\<rparr>"

definition setBleAddress :: "ble_connection \<Rightarrow> bytes \<Rightarrow> u8 \<Rightarrow> ble_connection" where
  "setBleAddress c addr addr_type = c\<lparr>bt_address := take 6 addr, bt_address_type := addr_type\<rparr>"

definition setHasData :: "ble_connection \<Rightarrow> bool \<Rightarrow> ble_connection" where
  "setHasData c data = c\<lparr>has_data_to_send := data\<rparr>"

definition setServices :: "ble_connection \<Rightarrow> service_uuid_check_status \<Rightarrow> ble_connection" where
  "setServices c services = c\<lparr>services_found := services\<rparr>"

definition setRssi :: "ble_connection \<Rightarrow> 8 word \<Rightarrow> ble_connection" where
  "setRssi c scan_rssi = c\<lparr>rssi := scan_rssi\<rparr>"

definition setTimestamp :: "ble_connection \<Rightarrow> u64 \<Rightarrow> ble_connection" where
  "setTimestamp c t = c\<lparr>last_seen_time := t\<rparr>"

definition setMtu :: "ble_connection \<Rightarrow> u16 \<Rightarrow> ble_connection" where
  "setMtu c mtu = c\<lparr>bt_mtu := mtu\<rparr>"

definition setUseCodedPhy :: "ble_connection \<Rightarrow> bool \<Rightarrow> ble_connection" where
  "setUseCodedPhy c cond = c\<lparr>use_coded_phy := cond\<rparr>"

definition setRole :: "ble_connection \<Rightarrow> u8 \<Rightarrow> ble_connection" where
  "setRole c the_role = c\<lparr>role := the_role\<rparr>"

lemmas connection_setter_defs = setConnectionHandle_def setNotificationEnabled_def
  setPacketCharacteristicValueHandle_def setConnected_def setConnectFailure_def
  setBleAddress_def setHasData_def setServices_def setRssi_def setTimestamp_def setMtu_def
  setUseCodedPhy_def setRole_def

subsection \<open>Queries\<close>

definition isRepeater :: "ble_connection \<Rightarrow> bool" where
  "isRepeater c \<longleftrightarrow> services_found c = ServiceUUIDAndNameFound"

definition isRandom :: "ble_connection \<Rightarrow> bool" where
  "isRandom c \<longleftrightarrow> bt_address_type c = BD_ADDR_TYPE_LE_RANDOM"

definition getTimestampMs :: "ble_connection \<Rightarrow> u64" where
  "getTimestampMs c = last_seen_time c div 1000"

subsection \<open>Discovery of the packet service\<close>

text \<open>\<open>gatt_client_service_t\<close> and \<open>gatt_client_characteristic_t\<close>, as far as the code reads them.\<close>

record gatt_service =
  start_group_handle :: u16
  end_group_handle :: u16
  uuid16 :: u16
  uuid128 :: bytes

record gatt_characteristic =
  value_handle :: u16
  char_uuid128 :: bytes

text \<open>\<open>std::equal\<close> over the sixteen bytes of the expected identifier.\<close>

definition storeHandlesIfServiceMatches :: "ble_connection \<Rightarrow> gatt_service \<Rightarrow> ble_connection" where
  "storeHandlesIfServiceMatches c service =
     (if take 16 (uuid128 service) = packet_service_uuid
      then c\<lparr>packet_service_start_group_handle := start_group_handle service,
             packet_service_end_group_handle := end_group_handle service\<rparr>
      else c)"

definition storeHandlesIfCharacteristicMatches ::
  "ble_connection \<Rightarrow> gatt_characteristic \<Rightarrow> ble_connection" where
  "storeHandlesIfCharacteristicMatches c characteristic =
     (if take 16 (char_uuid128 characteristic) = packet_characteristic_uuid
      then c\<lparr>packet_characteristic_value_handle := value_handle characteristic\<rparr>
      else c)"

text \<open>The service argument is written to only when the result is true.\<close>

definition canAndNeedToDiscoverPacketCharacteristicsQuery ::
  "ble_connection \<Rightarrow> gatt_service \<Rightarrow> bool \<times> gatt_service" where
  "canAndNeedToDiscoverPacketCharacteristicsQuery c service =
     (if packet_service_start_group_handle c > 0 \<and> packet_characteristic_value_handle c = 0
      then (True, \<lparr>start_group_handle = packet_service_start_group_handle c,
                   end_group_handle = packet_service_end_group_handle c,
                   uuid16 = 0, uuid128 = packet_service_uuid\<rparr>)
      else (False, service))"

subsection \<open>Once found, a characteristic is not asked for again\<close>

lemma characteristic_stays_known:
  assumes "packet_characteristic_value_handle c > 0"
    and "\<forall>ch \<in> set later. take 16 (char_uuid128 ch) = packet_characteristic_uuid \<longrightarrow>
           value_handle ch > 0"
  shows "packet_characteristic_value_handle
           (fold (\<lambda>ch c. storeHandlesIfCharacteristicMatches c ch) later c) > 0"
  by (rule fold_invariant [where P = "\<lambda>c. packet_characteristic_value_handle c > 0"])
    (use assms in \<open>auto simp: storeHandlesIfCharacteristicMatches_def\<close>)

text \<open>
  Service discovery converges. A connection that has been told of the packet service
  (with a nonzero group handle) and knows no characteristic asks for the characteristics of
  exactly that service; once it has been told of the packet characteristic it does not ask
  again, whatever characteristics are reported afterwards, as long as none of them claims
  the packet characteristic with value handle 0.
\<close>

theorem discovery_converges:
  assumes "take 16 (uuid128 s) = packet_service_uuid" and "start_group_handle s > 0"
    and "packet_characteristic_value_handle c = 0"
    and "take 16 (char_uuid128 ch) = packet_characteristic_uuid" and "value_handle ch > 0"
    and "\<forall>ch' \<in> set later. take 16 (char_uuid128 ch') = packet_characteristic_uuid \<longrightarrow>
           value_handle ch' > 0"
  shows "canAndNeedToDiscoverPacketCharacteristicsQuery (storeHandlesIfServiceMatches c s) q =
      (True, \<lparr>start_group_handle = start_group_handle s, end_group_handle = end_group_handle s,
              uuid16 = 0, uuid128 = packet_service_uuid\<rparr>) \<and>
    canAndNeedToDiscoverPacketCharacteristicsQuery
      (fold (\<lambda>ch c. storeHandlesIfCharacteristicMatches c ch) (ch # later)
        (storeHandlesIfServiceMatches c s)) q = (False, q)"
proof -
  let ?c = "storeHandlesIfServiceMatches c s"
  let ?later = "fold (\<lambda>ch c. storeHandlesIfCharacteristicMatches c ch) (ch # later) ?c"
  have "packet_characteristic_value_handle (storeHandlesIfCharacteristicMatches ?c ch) > 0"
    using assms(4,5) by (simp add: storeHandlesIfCharacteristicMatches_def)
  from characteristic_stays_known [OF this assms(6)]
  have "packet_characteristic_value_handle ?later \<noteq> 0" by auto
  then have "canAndNeedToDiscoverPacketCharacteristicsQuery ?later q = (False, q)"
    by (simp only: canAndNeedToDiscoverPacketCharacteristicsQuery_def simp_thms if_False)
  moreover have "canAndNeedToDiscoverPacketCharacteristicsQuery ?c q =
      (True, \<lparr>start_group_handle = start_group_handle s, end_group_handle = end_group_handle s,
              uuid16 = 0, uuid128 = packet_service_uuid\<rparr>)"
    using assms(1-3)
    by (simp add: canAndNeedToDiscoverPacketCharacteristicsQuery_def
        storeHandlesIfServiceMatches_def)
  ultimately show ?thesis by (rule conjI [rotated])
qed

theorem discovery_converges_witness:
  "canAndNeedToDiscoverPacketCharacteristicsQuery
     (storeHandlesIfServiceMatches BleConnection_blank
       \<lparr>start_group_handle = 9, end_group_handle = 12, uuid16 = 0,
        uuid128 = packet_service_uuid\<rparr>)
     \<lparr>start_group_handle = 0, end_group_handle = 0, uuid16 = 0, uuid128 = []\<rparr> =
   (True, \<lparr>start_group_handle = 9, end_group_handle = 12, uuid16 = 0,
           uuid128 = packet_service_uuid\<rparr>) \<and>
   \<not> fst (canAndNeedToDiscoverPacketCharacteristicsQuery
     (fold (\<lambda>ch c. storeHandlesIfCharacteristicMatches c ch)
       [\<lparr>value_handle = 11, char_uuid128 = packet_characteristic_uuid\<rparr>,
        \<lparr>value_handle = 3, char_uuid128 = replicate 16 0\<rparr>]
       (storeHandlesIfServiceMatches BleConnection_blank
         \<lparr>start_group_handle = 9, end_group_handle = 12, uuid16 = 0,
          uuid128 = packet_service_uuid\<rparr>))
     \<lparr>start_group_handle = 0, end_group_handle = 0, uuid16 = 0, uuid128 = []\<rparr>)"
  using discovery_converges [of "\<lparr>start_group_handle = 9, end_group_handle = 12, uuid16 = 0,
        uuid128 = packet_service_uuid\<rparr>" BleConnection_blank
      "\<lparr>value_handle = 11, char_uuid128 = packet_characteristic_uuid\<rparr>"
      "[\<lparr>value_handle = 3, char_uuid128 = replicate 16 0\<rparr>]"
      "\<lparr>start_group_handle = 0, end_group_handle = 0, uuid16 = 0, uuid128 = []\<rparr>"]
  by (simp add: packet_service_uuid_def packet_characteristic_uuid_def BleConnection_blank_def
      del: fold_simps)

end
