(* ===== verification/Packet_Types.thy ===== *)
theory Packet_Types
  imports Mesh_Prelude
begin

section \<open>The constants of PacketTypes.h\<close>

text \<open>
  The C enumerations name byte values that the code compares with bytes off the wire, so
  each enumerator is an abbreviation of its value.
\<close>

subsection \<open>PacketType\<close>

abbreviation (input) type_unknown :: u8 where "type_unknown \<equiv> 0"
abbreviation (input) type_announce :: u8 where "type_announce \<equiv> 0x01"
abbreviation (input) type_message :: u8 where "type_message \<equiv> 0x02"
abbreviation (input) type_micro_mesh_preferences :: u8 where "type_micro_mesh_preferences \<equiv> 0x7d"

subsection \<open>PacketFlag\<close>

abbreviation (input) packet_flag_has_recipient :: u8 where "packet_flag_has_recipient \<equiv> 0x01"
abbreviation (input) packet_flag_has_signature :: u8 where "packet_flag_has_signature \<equiv> 0x02"
abbreviation (input) packet_flag_is_compressed :: u8 where "packet_flag_is_compressed \<equiv> 0x04"
abbreviation (input) packet_flag_has_route :: u8 where "packet_flag_has_route \<equiv> 0x08"
abbreviation (input) packet_flag_from_meshtastic :: u8 where "packet_flag_from_meshtastic \<equiv> 0x80"

subsection \<open>AnnounceTLVType\<close>

abbreviation (input) tlv_announce_nickname :: u8 where "tlv_announce_nickname \<equiv> 0x01"
abbreviation (input) tlv_announce_noise_public_key :: u8 where "tlv_announce_noise_public_key \<equiv> 0x02"
abbreviation (input) tlv_announce_signing_public_key :: u8 where
  "tlv_announce_signing_public_key \<equiv> 0x03"
abbreviation (input) tlv_announce_direct_neighbors :: u8 where "tlv_announce_direct_neighbors \<equiv> 0x04"
abbreviation (input) tlv_announce_location_latitude :: u8 where "tlv_announce_location_latitude \<equiv> 0x7d"
abbreviation (input) tlv_announce_location_longitude :: u8 where
  "tlv_announce_location_longitude \<equiv> 0x7e"
abbreviation (input) tlv_announce_location_altitude :: u8 where "tlv_announce_location_altitude \<equiv> 0x7f"

subsection \<open>MessageTLVType and MessageTypeFlags\<close>

abbreviation (input) tlv_message_id :: u8 where "tlv_message_id \<equiv> 0x00"
abbreviation (input) tlv_message_content :: u8 where "tlv_message_content \<equiv> 0x01"
abbreviation (input) tlv_message_location_latitude :: u8 where "tlv_message_location_latitude \<equiv> 0x78"
abbreviation (input) tlv_message_location_longitude :: u8 where "tlv_message_location_longitude \<equiv> 0x79"
abbreviation (input) tlv_message_location_altitude :: u8 where "tlv_message_location_altitude \<equiv> 0x7a"
abbreviation (input) tlv_message_flags :: u8 where "tlv_message_flags \<equiv> 0x7b"
abbreviation (input) tlv_message_reply_to_id :: u8 where "tlv_message_reply_to_id \<equiv> 0x7c"
abbreviation (input) tlv_message_sender_nickname :: u8 where "tlv_message_sender_nickname \<equiv> 0x7d"
abbreviation (input) tlv_message_channel_content :: u8 where "tlv_message_channel_content \<equiv> 0x7e"
abbreviation (input) tlv_message_channel :: u8 where "tlv_message_channel \<equiv> 0x7f"

abbreviation (input) message_flag_emoji :: u8 where "message_flag_emoji \<equiv> 0x80"

subsection \<open>MicroMeshPreferencesTLVType\<close>

abbreviation (input) tlv_micro_mesh_preferences_key :: u8 where "tlv_micro_mesh_preferences_key \<equiv> 0x01"
abbreviation (input) tlv_micro_mesh_preferences_ssid :: u8 where "tlv_micro_mesh_preferences_ssid \<equiv> 0x02"
abbreviation (input) tlv_micro_mesh_preferences_password :: u8 where
  "tlv_micro_mesh_preferences_password \<equiv> 0x03"
abbreviation (input) tlv_micro_mesh_preferences_latitude :: u8 where
  "tlv_micro_mesh_preferences_latitude \<equiv> 0x04"
abbreviation (input) tlv_micro_mesh_preferences_longitude :: u8 where
  "tlv_micro_mesh_preferences_longitude \<equiv> 0x05"
abbreviation (input) tlv_micro_mesh_preferences_altitude :: u8 where
  "tlv_micro_mesh_preferences_altitude \<equiv> 0x06"

end
