(* ===== verification/Binary_Reader.thy ===== *)
theory Binary_Reader
  imports Mesh_Prelude
begin

section \<open>BinaryReader: a bounded cursor over received bytes\<close>

text \<open>
  The state of \<^verbatim>\<open>BinaryReader\<close>: the byte buffer it points to, the number of bytes it
  may read (\<open>buffer_size\<close>) and the 16-bit position. The buffer is the memory the pointer
  reaches, so it may be longer than \<open>buffer_size\<close> (the flash page, an ATT buffer); that no
  read looks past \<open>buffer_size\<close> is a theorem, not a choice of the model.

  The bounds tests \<open>pos + n > buffer_size\<close> are done in \<open>int\<close> by the source, so they do
  not wrap; the update \<open>pos += n\<close> does, in 16 bits. A read past the end returns 0 (or
  \<open>nullptr\<close>) and still advances the position.
\<close>

record binary_reader =
  rd_offset :: u16
  rd_buffer :: bytes
  rd_buffer_size :: u16
  rd_pos :: u16

definition BinaryReader :: "u16 \<Rightarrow> bytes \<Rightarrow> u16 \<Rightarrow> binary_reader" where
  "BinaryReader offset buffer buffer_size =
     \<lparr>rd_offset = offset, rd_buffer = buffer, rd_buffer_size = buffer_size, rd_pos = offset\<rparr>"

text \<open>\<open>pos += n\<close>, and the byte \<open>buffer[pos + i]\<close>.\<close>

definition advance :: "binary_reader \<Rightarrow> nat \<Rightarrow> binary_reader" where
  "advance r n = r\<lparr>rd_pos := rd_pos r + of_nat n\<rparr>"

definition byte_at :: "binary_reader \<Rightarrow> nat \<Rightarrow> u8" where
  "byte_at r i = rd_buffer r ! (unat (rd_pos r) + i)"

text \<open>The test \<open>pos + n > buffer_size\<close>.\<close>

definition overruns :: "binary_reader \<Rightarrow> nat \<Rightarrow> bool" where
  "overruns r n \<longleftrightarrow> unat (rd_pos r) + n > unat (rd_buffer_size r)"

definition read_uint8 :: "binary_reader \<Rightarrow> u8 \<times> binary_reader" where
  "read_uint8 r = (if overruns r 1 then (0, advance r 1) else (byte_at r 0, advance r 1))"

definition read_uint16 :: "binary_reader \<Rightarrow> u16 \<times> binary_reader" where
  "read_uint16 r =
     (if overruns r 2 then (0, advance r 2)
      else (push_bit 8 (ucast (byte_at r 0)) OR ucast (byte_at r 1), advance r 2))"

definition read_int32 :: "binary_reader \<Rightarrow> i32 \<times> binary_reader" where
  "read_int32 r =
     (if overruns r 4 then (0, advance r 4)
      else (ucast (push_bit 24 (ucast (byte_at r 0)) OR
                   push_bit 16 (ucast (byte_at r 1)) OR
                   push_bit 8 (ucast (byte_at r 2)) OR
                   (ucast (byte_at r 3) :: u64)), advance r 4))"

definition read_uint32 :: "binary_reader \<Rightarrow> u32 \<times> binary_reader" where
  "read_uint32 r =
     (if overruns r 4 then (0, advance r 4)
      else (ucast (push_bit 24 (ucast (byte_at r 0)) OR
                   push_bit 16 (ucast (byte_at r 1)) OR
                   push_bit 8 (ucast (byte_at r 2)) OR
                   (ucast (byte_at r 3) :: u64)), advance r 4))"

definition read_uint64 :: "binary_reader \<Rightarrow> u64 \<times> binary_reader" where
  "read_uint64 r =
     (if overruns r 8 then (0, advance r 8)
      else (push_bit 56 (ucast (byte_at r 0)) OR
            push_bit 48 (ucast (byte_at r 1)) OR
            push_bit 40 (ucast (byte_at r 2)) OR
            push_bit 32 (ucast (byte_at r 3)) OR
            push_bit 24 (ucast (byte_at r 4)) OR
            push_bit 16 (ucast (byte_at r 5)) OR
            push_bit 8 (ucast (byte_at r 6)) OR
            ucast (byte_at r 7), advance r 8))"

text \<open>\<open>de_hexify\<close> computes in \<open>int\<close> and returns the low byte.\<close>

definition de_hexify :: "u8 \<Rightarrow> u8" where
  "de_hexify nibble =
     (let v0 = uint nibble - of_char (CHR ''0'');
          v1 = (if v0 > 9 then 10 + uint nibble - of_char (CHR ''a'') else v0);
          v2 = (if v1 > 9 then 10 + uint nibble - of_char (CHR ''A'') else v1)
      in word_of_int v2)"

text \<open>
  C++ does not fix which operand of \<open>|\<close> is evaluated first; the two reads are taken from
  left to right, as the compilers of the two targets do.
\<close>

definition read_hex16_uint8 :: "binary_reader \<Rightarrow> u8 \<times> binary_reader" where
  "read_hex16_uint8 r =
     (let (high, r1) = read_uint8 r;
          (low, r2) = read_uint8 r1
      in (ucast (push_bit 4 (ucast (de_hexify high) :: u32) OR ucast (de_hexify low)), r2))"

definition read_hex16_uint64 :: "binary_reader \<Rightarrow> u64 \<times> binary_reader" where
  "read_hex16_uint64 r =
     (if overruns r 16 then (0, advance r 16)
      else
        let (b0, r0) = read_hex16_uint8 r;
            (b1, r1) = read_hex16_uint8 r0;
            (b2, r2) = read_hex16_uint8 r1;
            (b3, r3) = read_hex16_uint8 r2;
            (b4, r4) = read_hex16_uint8 r3;
            (b5, r5) = read_hex16_uint8 r4;
            (b6, r6) = read_hex16_uint8 r5;
            (b7, r7) = read_hex16_uint8 r6
        in (push_bit 56 (ucast b0) OR push_bit 48 (ucast b1) OR
            push_bit 40 (ucast b2) OR push_bit 32 (ucast b3) OR
            push_bit 24 (ucast b4) OR push_bit 16 (ucast b5) OR
            push_bit 8 (ucast b6) OR ucast b7, r7))"

text \<open>\<open>buffer_size - pos\<close> is an \<open>int\<close>, returned as \<open>uint16_t\<close>.\<close>

definition read_remainder_len :: "binary_reader \<Rightarrow> u16" where
  "read_remainder_len r = rd_buffer_size r - rd_pos r"

text \<open>
  \<open>read_data\<close> returns a pointer into the buffer or \<open>nullptr\<close>. Every caller copies the
  \<open>len\<close> bytes it points to, which are the result here.
\<close>

definition read_data :: "u16 \<Rightarrow> binary_reader \<Rightarrow> bytes option \<times> binary_reader" where
  "read_data len r =
     (if overruns r (unat len) then (None, advance r (unat len))
      else (Some (map (byte_at r) [0..<unat len]), advance r (unat len)))"

subsection \<open>Where the cursor stands\<close>

text \<open>
  \<open>reader_at r bs\<close>: the next bytes the reader is allowed to read are \<open>bs\<close>. It is the
  precondition under which a read returns what a writer wrote.
\<close>

definition reader_at :: "binary_reader \<Rightarrow> bytes \<Rightarrow> bool" where
  "reader_at r bs \<longleftrightarrow>
     unat (rd_pos r) + length bs \<le> unat (rd_buffer_size r) \<and>
     unat (rd_buffer_size r) \<le> length (rd_buffer r) \<and>
     take (length bs) (drop (unat (rd_pos r)) (rd_buffer r)) = bs"

lemma advance_simps [simp]:
  "rd_buffer (advance r n) = rd_buffer r"
  "rd_buffer_size (advance r n) = rd_buffer_size r"
  "rd_offset (advance r n) = rd_offset r"
  "rd_pos (advance r n) = rd_pos r + of_nat n"
  by (simp_all add: advance_def)

lemma advance_advance: "advance (advance r m) n = advance r (m + n)"
  by (simp add: advance_def add.assoc)

lemma advance_0 [simp]: "advance r 0 = r"
  by (simp add: advance_def)

lemma reader_at_not_overruns:
  "reader_at r bs \<Longrightarrow> n \<le> length bs \<Longrightarrow> \<not> overruns r n"
  by (simp add: reader_at_def overruns_def)

lemma reader_at_byte:
  assumes "reader_at r bs" and "i < length bs"
  shows "byte_at r i = bs ! i"
  using assms by (auto simp: reader_at_def byte_at_def intro!: nth_take_drop)

lemma reader_at_prefix: "reader_at r (xs @ ys) \<Longrightarrow> reader_at r xs"
  by (auto simp: reader_at_def dest: take_drop_append(1) [of xs ys, simplified])

lemma unat_pos_advance:
  assumes "reader_at r bs" and "n \<le> length bs"
  shows "unat (rd_pos r + of_nat n) = unat (rd_pos r) + n"
proof (rule unat_add_u16_small)
  show "unat (rd_pos r) + n < 65536"
    using assms unat_u16_less [of "rd_buffer_size r"] by (simp add: reader_at_def)
qed

lemma reader_at_advance:
  assumes "reader_at r (xs @ ys)"
  shows "reader_at (advance r (length xs)) ys"
  using assms unat_pos_advance [OF assms, of "length xs"]
    take_drop_append(2) [of xs ys "unat (rd_pos r)" "rd_buffer r"]
  by (simp add: reader_at_def)

lemma reader_at_remainder:
  assumes "reader_at r bs" and "n \<le> length bs"
  shows "unat (read_remainder_len (advance r n)) =
         unat (rd_buffer_size r) - (unat (rd_pos r) + n)"
proof -
  have pos: "unat (rd_pos r + of_nat n) = unat (rd_pos r) + n"
    by (rule unat_pos_advance [OF assms])
  with assms have "unat (rd_pos r + of_nat n) \<le> unat (rd_buffer_size r)"
    unfolding reader_at_def by linarith
  then have "rd_pos r + of_nat n \<le> rd_buffer_size r"
    by (simp only: word_le_nat_alt)
  from unat_sub [OF this] pos show ?thesis
    by (simp only: read_remainder_len_def advance_simps)
qed

lemma read_data_at:
  assumes "reader_at r (xs @ ys)" and "unat len = length xs"
  shows "read_data len r = (Some xs, advance r (length xs))"
proof -
  have "map (byte_at r) [0..<length xs] = xs"
  proof (rule nth_equalityI)
    show "map (byte_at r) [0..<length xs] ! i = xs ! i"
      if "i < length (map (byte_at r) [0..<length xs])" for i
      using that reader_at_byte [OF assms(1), of i] by (simp add: nth_append)
  qed simp
  moreover have "\<not> overruns r (length xs)"
    by (rule reader_at_not_overruns [OF assms(1)]) simp
  ultimately show ?thesis
    by (simp only: read_data_def assms(2) if_False)
qed

end
