(* ===== verification/Binary_Writer.thy ===== *)
theory Binary_Writer
  imports Mesh_Prelude
begin

section \<open>BinaryWriter: big-endian output into a byte vector\<close>

text \<open>
  \<^verbatim>\<open>BinaryWriter\<close> holds a reference to a \<open>std::vector<uint8_t>\<close>; every method pushes
  bytes at its back. An operation here takes the vector and returns the vector it leaves.
  \<open>vector.reserve\<close> has no observable effect and is not modelled. The \<open>& 0xFF\<close> masks of
  the source stand where the source has them.
\<close>

definition write_uint8 :: "bytes \<Rightarrow> u8 \<Rightarrow> bytes" where
  "write_uint8 vector v = vector @ [v]"

definition write_uint16 :: "bytes \<Rightarrow> u16 \<Rightarrow> bytes" where
  "write_uint16 vector v =
     vector @ [ucast (drop_bit 8 v)] @ [ucast v AND 0xFF]"

definition write_uint32 :: "bytes \<Rightarrow> u32 \<Rightarrow> bytes" where
  "write_uint32 vector v =
     vector @ [ucast (drop_bit 24 v) AND 0xFF] @ [ucast (drop_bit 16 v) AND 0xFF]
            @ [ucast (drop_bit 8 v) AND 0xFF] @ [ucast v AND 0xFF]"

definition write_int32 :: "bytes \<Rightarrow> u32 \<Rightarrow> bytes" where
  "write_int32 vector v =
     vector @ [ucast (drop_bit 24 v) AND 0xFF] @ [ucast (drop_bit 16 v) AND 0xFF]
            @ [ucast (drop_bit 8 v) AND 0xFF] @ [ucast v AND 0xFF]"

definition write_uint64 :: "bytes \<Rightarrow> u64 \<Rightarrow> bytes" where
  "write_uint64 vector v =
     vector @ [ucast (drop_bit 56 v)] @ [ucast (drop_bit 48 v) AND 0xFF]
            @ [ucast (drop_bit 40 v) AND 0xFF] @ [ucast (drop_bit 32 v) AND 0xFF]
            @ [ucast (drop_bit 24 v) AND 0xFF] @ [ucast (drop_bit 16 v) AND 0xFF]
            @ [ucast (drop_bit 8 v) AND 0xFF] @ [ucast v AND 0xFF]"

text \<open>
  Both overloads of \<open>write_data\<close> copy \<open>data[0] .. data[len - 1]\<close>; every call of the
  program passes a \<open>len\<close> of at most the length of the data.
\<close>

definition write_data :: "bytes \<Rightarrow> bytes \<Rightarrow> u16 \<Rightarrow> bytes" where
  "write_data vector data len = vector @ map (\<lambda>i. data ! i) [0..<unat len]"

definition hexify :: "u8 \<Rightarrow> u8" where
  "hexify nibble = (if nibble < 10 then nibble + of_char (CHR ''0'')
                    else nibble + (of_char (CHR ''a'') - 10))"

definition write_uint8_hex16 :: "bytes \<Rightarrow> u8 \<Rightarrow> bytes" where
  "write_uint8_hex16 vector v =
     (let high_nibble = hexify (drop_bit 4 v AND 0xF);
          low_nibble = hexify (v AND 0xF)
      in vector @ [high_nibble] @ [low_nibble])"

definition write_uint16_hex16 :: "bytes \<Rightarrow> u16 \<Rightarrow> bytes" where
  "write_uint16_hex16 vector v =
     write_uint8_hex16 (write_uint8_hex16 vector (ucast (drop_bit 8 v))) (ucast v)"

definition write_uint32_hex16 :: "bytes \<Rightarrow> u32 \<Rightarrow> bytes" where
  "write_uint32_hex16 vector v =
     (let v1 = write_uint8_hex16 vector (ucast (drop_bit 24 v));
          v2 = write_uint8_hex16 v1 (ucast (drop_bit 16 v));
          v3 = write_uint8_hex16 v2 (ucast (drop_bit 8 v))
      in write_uint8_hex16 v3 (ucast v))"

definition write_uint48_hex16 :: "bytes \<Rightarrow> u64 \<Rightarrow> bytes" where
  "write_uint48_hex16 vector v =
     (let v1 = write_uint8_hex16 vector (ucast (drop_bit 40 v));
          v2 = write_uint8_hex16 v1 (ucast (drop_bit 32 v));
          v3 = write_uint8_hex16 v2 (ucast (drop_bit 24 v));
          v4 = write_uint8_hex16 v3 (ucast (drop_bit 16 v));
          v5 = write_uint8_hex16 v4 (ucast (drop_bit 8 v))
      in write_uint8_hex16 v5 (ucast v))"

definition write_uint64_hex16 :: "bytes \<Rightarrow> u64 \<Rightarrow> bytes" where
  "write_uint64_hex16 vector v =
     (let v1 = write_uint8_hex16 vector (ucast (drop_bit 56 v));
          v2 = write_uint8_hex16 v1 (ucast (drop_bit 48 v));
          v3 = write_uint8_hex16 v2 (ucast (drop_bit 40 v));
          v4 = write_uint8_hex16 v3 (ucast (drop_bit 32 v));
          v5 = write_uint8_hex16 v4 (ucast (drop_bit 24 v));
          v6 = write_uint8_hex16 v5 (ucast (drop_bit 16 v));
          v7 = write_uint8_hex16 v6 (ucast (drop_bit 8 v))
      in write_uint8_hex16 v7 (ucast v))"

subsection \<open>Every operation appends\<close>

text \<open>
  The proofs read a written packet as a concatenation: \<open>write_x vector v\<close> is
  \<open>vector\<close> followed by the encoding \<open>write_x [] v\<close>.
\<close>

lemma write_uint8_append: "write_uint8 vector v = vector @ write_uint8 [] v"
  by (simp add: write_uint8_def)

lemma write_uint16_append: "write_uint16 vector v = vector @ write_uint16 [] v"
  by (simp add: write_uint16_def)

lemma write_uint32_append: "write_uint32 vector v = vector @ write_uint32 [] v"
  by (simp add: write_uint32_def)

lemma write_int32_append: "write_int32 vector v = vector @ write_int32 [] v"
  by (simp add: write_int32_def)

lemma write_uint64_append: "write_uint64 vector v = vector @ write_uint64 [] v"
  by (simp add: write_uint64_def)

lemma write_data_take:
  assumes "unat len \<le> length data"
  shows "write_data vector data len = vector @ take (unat len) data"
proof -
  have "map (\<lambda>i. data ! i) [0..<unat len] = take (unat len) data"
    using assms by (simp add: list_eq_iff_nth_eq)
  then show ?thesis by (simp add: write_data_def)
qed

lemma length_write [simp]:
  "length (write_uint8 vector v8) = length vector + 1"
  "length (write_uint16 vector v16) = length vector + 2"
  "length (write_uint32 vector v32) = length vector + 4"
  "length (write_int32 vector v32) = length vector + 4"
  "length (write_uint64 vector v64) = length vector + 8"
  "length (write_data vector data len) = length vector + unat len"
  by (simp_all add: write_uint8_def write_uint16_def write_uint32_def write_int32_def
      write_uint64_def write_data_def)

lemma length_write_hex [simp]:
  "length (write_uint8_hex16 vector v8) = length vector + 2"
  "length (write_uint16_hex16 vector v16) = length vector + 4"
  "length (write_uint32_hex16 vector v32) = length vector + 8"
  "length (write_uint48_hex16 vector v64) = length vector + 12"
  "length (write_uint64_hex16 vector v64) = length vector + 16"
  by (simp_all add: write_uint8_hex16_def write_uint16_hex16_def write_uint32_hex16_def
      write_uint48_hex16_def write_uint64_hex16_def Let_def)

end
