(* ===== verification/Wire_Codec.thy ===== *)
theory Wire_Codec
  imports Binary_Reader Binary_Writer
begin

section \<open>The contract between BinaryWriter and BinaryReader\<close>

text \<open>
  The packet classes rely on one contract for every field type: what \<open>write_x\<close> appends,
  \<open>read_x\<close> returns; a read moves the cursor by the width of the field whether it
  succeeds or not; and its value depends only on the bytes inside \<open>buffer_size\<close>. The
  locale \<open>wire_codec\<close> states it, the interpretations below discharge it for the five
  integer types, and the packet theories use the facts of the interpretations.
\<close>

text \<open>Two readers that agree on everything inside \<open>buffer_size\<close>.\<close>

definition same_view :: "binary_reader \<Rightarrow> binary_reader \<Rightarrow> bool" where
  "same_view r s \<longleftrightarrow>
     rd_buffer_size r = rd_buffer_size s \<and> rd_pos r = rd_pos s \<and>
     take (unat (rd_buffer_size r)) (rd_buffer r) = take (unat (rd_buffer_size s)) (rd_buffer s)"

lemma same_view_refl [simp]: "same_view r r"
  by (simp add: same_view_def)

lemma same_view_advance [intro]: "same_view r s \<Longrightarrow> same_view (advance r n) (advance s n)"
  by (auto simp: same_view_def)

lemma same_view_overruns: "same_view r s \<Longrightarrow> overruns r n = overruns s n"
  by (simp add: same_view_def overruns_def)

lemma same_view_remainder: "same_view r s \<Longrightarrow> read_remainder_len r = read_remainder_len s"
  by (simp add: same_view_def read_remainder_len_def)

lemma same_view_byte:
  assumes "same_view r s" and "\<not> overruns r n" and "i < n"
  shows "byte_at r i = byte_at s i"
proof -
  have lt: "unat (rd_pos r) + i < unat (rd_buffer_size r)"
    using assms(2,3) by (simp add: overruns_def)
  have eq: "rd_pos s = rd_pos r"
    "take (unat (rd_buffer_size r)) (rd_buffer r) = take (unat (rd_buffer_size r)) (rd_buffer s)"
    using assms(1) by (auto simp: same_view_def)
  have "byte_at r i = take (unat (rd_buffer_size r)) (rd_buffer r) ! (unat (rd_pos r) + i)"
    using lt by (simp add: byte_at_def)
  also have "\<dots> = byte_at s i"
    unfolding eq(2) using lt eq(1) by (simp add: byte_at_def)
  finally show ?thesis .
qed

lemma same_view_bytes:
  "same_view r s \<Longrightarrow> \<not> overruns r n \<Longrightarrow> map (byte_at r) [0..<n] = map (byte_at s) [0..<n]"
  by (auto intro: same_view_byte)

lemma read_data_same_view:
  assumes "same_view r s"
  shows "fst (read_data len r) = fst (read_data len s)"
    and "snd (read_data len r) = advance r (unat len)"
    and "snd (read_data len s) = advance s (unat len)"
  using assms same_view_overruns [OF assms] same_view_bytes [OF assms]
  by (auto simp: read_data_def)

text \<open>
  Two computations on a reader agree: same result, and readers that agree again. The rules
  follow the structure of a definition, so that a composed reading function is shown to be
  independent of the bytes behind \<open>buffer_size\<close> by applying them.
\<close>

definition agree :: "'a \<times> binary_reader \<Rightarrow> 'a \<times> binary_reader \<Rightarrow> bool" where
  "agree x y \<longleftrightarrow> fst x = fst y \<and> same_view (snd x) (snd y)"

named_theorems agree_rules

lemma agree_pair [agree_rules]: "same_view r s \<Longrightarrow> agree (a, r) (a, s)"
  by (simp add: agree_def)

lemma agree_case [agree_rules]:
  "agree x y \<Longrightarrow> (\<And>a r s. same_view r s \<Longrightarrow> agree (f a r) (g a s)) \<Longrightarrow>
   agree (case x of (a, r) \<Rightarrow> f a r) (case y of (a, r) \<Rightarrow> g a r)"
  by (auto simp: agree_def split: prod.splits)

lemma agree_if [agree_rules]:
  "(b \<Longrightarrow> agree x y) \<Longrightarrow> (\<not> b \<Longrightarrow> agree x' y') \<Longrightarrow>
   agree (if b then x else x') (if b then y else y')"
  by simp

lemma agree_option [agree_rules]:
  "agree x y \<Longrightarrow> (\<And>a. agree (z a) (w a)) \<Longrightarrow> agree (case v of None \<Rightarrow> x | Some a \<Rightarrow> z a)
     (case v of None \<Rightarrow> y | Some a \<Rightarrow> w a)"
  by (simp split: option.split)

lemma agree_read_data [agree_rules]:
  "same_view r s \<Longrightarrow> agree (read_data len r) (read_data len s)"
  using read_data_same_view [of r s len] by (simp add: agree_def same_view_advance)

text \<open>
  \<open>moves r lo hi x\<close>: the computation \<open>x\<close>, started on \<open>r\<close>, leaves the cursor between
  \<open>lo\<close> and \<open>hi\<close> bytes further. The rules add the bounds up along a definition.
\<close>

definition moves :: "binary_reader \<Rightarrow> nat \<Rightarrow> nat \<Rightarrow> 'a \<times> binary_reader \<Rightarrow> bool" where
  "moves r lo hi x \<longleftrightarrow> (\<exists>n. snd x = advance r n \<and> lo \<le> n \<and> n \<le> hi)"

named_theorems moves_rules

lemma moves_pair [moves_rules]: "moves r 0 0 (a, r)"
  by (simp add: moves_def exI [of _ 0])

lemma moves_case [moves_rules]:
  assumes "moves r a b x" and "\<And>v r'. moves r' c d (f v r')"
  shows "moves r (a + c) (b + d) (case x of (v, r') \<Rightarrow> f v r')"
proof -
  from assms(1) obtain n where n: "snd x = advance r n" "a \<le> n" "n \<le> b"
    by (auto simp: moves_def)
  from assms(2) [of "snd x" "fst x"] obtain m
    where m: "snd (f (fst x) (snd x)) = advance (snd x) m" "c \<le> m" "m \<le> d"
    by (auto simp: moves_def)
  from n m show ?thesis
    by (auto simp: moves_def case_prod_beta advance_advance intro!: exI [of _ "n + m"])
qed

lemma moves_if [moves_rules]:
  "moves r a b x \<Longrightarrow> moves r c d y \<Longrightarrow> moves r (min a c) (max b d) (if g then x else y)"
  by (auto simp: moves_def)

lemma moves_option [moves_rules]:
  "moves r a b x \<Longrightarrow> (\<And>v. moves r c d (y v)) \<Longrightarrow>
   moves r (min a c) (max b d) (case o' of None \<Rightarrow> x | Some v \<Rightarrow> y v)"
  by (cases o') (fastforce simp: moves_def)+

lemma moves_read_data [moves_rules]:
  "moves r 0 255 (read_data (ucast (len :: u8)) r)"
  using unat_u8_less [of len] by (auto simp: moves_def read_data_def)

lemma moves_weaken: "moves r a b x \<Longrightarrow> c \<le> a \<Longrightarrow> b \<le> d \<Longrightarrow> moves r c d x"
  by (auto simp: moves_def)

locale wire_codec =
  fixes put :: "bytes \<Rightarrow> 'v \<Rightarrow> bytes"
    and get :: "binary_reader \<Rightarrow> 'v \<times> binary_reader"
    and width :: nat
  assumes put_append: "put vector v = vector @ put [] v"
    and put_length: "length (put [] v) = width"
    and get_put: "reader_at r (put [] v @ rest) \<Longrightarrow> fst (get r) = v"
    and get_advance: "snd (get r) = advance r width"
    and get_same_view: "same_view r s \<Longrightarrow> fst (get r) = fst (get s)"
begin

lemma get_at: "reader_at r (put [] v @ rest) \<Longrightarrow> get r = (v, advance r width)"
  by (simp add: prod_eq_iff get_put get_advance)

lemma reader_after: "reader_at r (put [] v @ rest) \<Longrightarrow> reader_at (advance r width) rest"
  using reader_at_advance [of r "put [] v" rest] by (simp add: put_length)

lemma get_agree: "same_view r s \<Longrightarrow> agree (get r) (get s)"
  by (simp add: agree_def get_advance get_same_view same_view_advance)

lemma get_moves: "moves r width width (get r)"
  by (auto simp: moves_def get_advance)

end

text \<open>A counted loop of reads, and its write side.\<close>

primrec read_many :: "(binary_reader \<Rightarrow> 'v \<times> binary_reader) \<Rightarrow> nat \<Rightarrow> binary_reader
    \<Rightarrow> 'v list \<times> binary_reader" where
  "read_many get 0 r = ([], r)"
| "read_many get (Suc n) r =
     (let (v, r1) = get r; (vs, r2) = read_many get n r1 in (v # vs, r2))"

lemma length_read_many: "length (fst (read_many get n r)) = n"
  by (induction n arbitrary: r) (auto simp: Let_def split: prod.splits, metis fst_conv)

context wire_codec begin

lemma foldl_put: "foldl put vector vs = vector @ concat (map (put []) vs)"
proof (induction vs arbitrary: vector)
  case (Cons v vs)
  then show ?case using put_append [of vector v] by simp
qed simp

lemma length_puts: "length (concat (map (put []) vs)) = width * length vs"
  by (induction vs) (simp_all add: put_length)

lemma read_many_advance: "snd (read_many get n r) = advance r (width * n)"
proof (induction n arbitrary: r)
  case (Suc n)
  have "snd (read_many get (Suc n) r) = snd (read_many get n (snd (get r)))"
    by (simp add: case_prod_beta)
  then show ?case by (simp add: Suc.IH get_advance advance_advance)
qed simp

lemma read_many_at:
  "reader_at r (concat (map (put []) vs) @ rest) \<Longrightarrow>
   read_many get (length vs) r = (vs, advance r (width * length vs))"
proof (induction vs arbitrary: r)
  case (Cons v vs)
  then have at: "reader_at r (put [] v @ (concat (map (put []) vs) @ rest))" by simp
  show ?case
    using Cons.IH [OF reader_after [OF at]] by (simp add: get_at [OF at] advance_advance)
qed simp

lemma read_many_agree:
  "same_view r s \<Longrightarrow> agree (read_many get n r) (read_many get n s)"
proof (induction n arbitrary: r s)
  case (Suc n)
  then show ?case
    by (auto intro!: agree_rules get_agree)
qed (simp add: agree_def)

end

subsection \<open>The five integer codecs\<close>

lemmas read_defs = read_uint8_def read_uint16_def read_int32_def read_uint32_def read_uint64_def

lemma reader_at_bytes:
  assumes "reader_at r (xs @ rest)"
  shows "n = length xs \<Longrightarrow> \<not> overruns r n" and "i < length xs \<Longrightarrow> byte_at r i = xs ! i"
  using reader_at_not_overruns [OF assms] reader_at_byte [OF assms]
  by (simp_all add: nth_append)

interpretation u8c: wire_codec write_uint8 read_uint8 "Suc 0"
proof (unfold_locales, goal_cases)
  case (3 r v rest)
  then show ?case
    using reader_at_bytes(1) [OF 3, of 1] reader_at_bytes(2) [OF 3] by (simp add: read_uint8_def write_uint8_def)
next
  case (5 r s)
  then show ?case
    using same_view_overruns [OF 5] same_view_byte [OF 5] by (simp add: read_uint8_def)
qed (simp_all add: write_uint8_def read_uint8_def)

interpretation u16c: wire_codec write_uint16 read_uint16 2
proof (unfold_locales, goal_cases)
  case (3 r v rest)
  then show ?case
    using reader_at_bytes(1) [OF 3, of 2] reader_at_bytes(2) [OF 3] by (simp add: read_uint16_def write_uint16_def word_bytes)
next
  case (5 r s)
  then show ?case
    using same_view_overruns [OF 5] same_view_byte [OF 5] by (simp add: read_uint16_def)
qed (simp_all add: write_uint16_def read_uint16_def)

interpretation u32c: wire_codec write_uint32 read_uint32 4
proof (unfold_locales, goal_cases)
  case (3 r v rest)
  then show ?case
    using reader_at_bytes(1) [OF 3, of 4] reader_at_bytes(2) [OF 3]
    by (simp add: read_uint32_def write_uint32_def unsigned_or_eq word_bytes)
next
  case (5 r s)
  then show ?case
    using same_view_overruns [OF 5] same_view_byte [OF 5] by (simp add: read_uint32_def)
qed (simp_all add: write_uint32_def read_uint32_def)

interpretation i32c: wire_codec write_int32 read_int32 4
proof (unfold_locales, goal_cases)
  case (3 r v rest)
  then show ?case
    using reader_at_bytes(1) [OF 3, of 4] reader_at_bytes(2) [OF 3]
    by (simp add: read_int32_def write_int32_def unsigned_or_eq word_bytes)
next
  case (5 r s)
  then show ?case
    using same_view_overruns [OF 5] same_view_byte [OF 5] by (simp add: read_int32_def)
qed (simp_all add: write_int32_def read_int32_def)

interpretation u64c: wire_codec write_uint64 read_uint64 8
proof (unfold_locales, goal_cases)
  case (3 r v rest)
  then show ?case
    using reader_at_bytes(1) [OF 3, of 8] reader_at_bytes(2) [OF 3] by (simp add: read_uint64_def write_uint64_def word_bytes)
next
  case (5 r s)
  then show ?case
    using same_view_overruns [OF 5] same_view_byte [OF 5] by (simp add: read_uint64_def)
qed (simp_all add: write_uint64_def read_uint64_def)

lemmas get_at = u8c.get_at u16c.get_at u32c.get_at i32c.get_at u64c.get_at
lemmas get_advance =
  u8c.get_advance u16c.get_advance u32c.get_advance i32c.get_advance u64c.get_advance
lemmas get_agree [agree_rules] =
  u8c.get_agree u16c.get_agree u32c.get_agree i32c.get_agree u64c.get_agree
  u64c.read_many_agree
lemma moves_read_hops [moves_rules]:
  "moves r 0 2040 (read_many read_uint64 (unat (n :: u8)) r)"
  using unat_u8_less [of n] by (auto simp: moves_def u64c.read_many_advance)

lemmas get_moves [moves_rules] =
  u8c.get_moves u16c.get_moves u32c.get_moves i32c.get_moves u64c.get_moves
lemmas reader_after =
  u8c.reader_after u16c.reader_after u32c.reader_after i32c.reader_after u64c.reader_after

subsection \<open>Hexadecimal\<close>

text \<open>
  The hexadecimal reader inverts the writer on the digits 0 to 9 only: a letter is decoded twice,
  so that \<^verbatim>\<open>a\<close> has the value 42.
\<close>

lemma de_hexify_hexify:
  assumes "n < 16"
  shows "de_hexify (hexify n) = n \<longleftrightarrow> n < 10"
proof -
  have "unat n \<in> set [0..<16]" using assms by (simp add: word_less_nat_alt)
  then have "n \<in> set (map of_nat [0..<16])"
    by (simp only: list.set_map) (rule image_eqI [where x = "unat n"], simp_all)
  then show ?thesis
    by (simp add: upt_rec) (elim disjE; simp add: de_hexify_def hexify_def Let_def)
qed

end
