(* ===== verification/Tlv_Loop.thy ===== *)
theory Tlv_Loop
  imports Wire_Codec
begin

section \<open>The type-length-value loop of the packet constructors\<close>

text \<open>
  The reading constructors of \<^verbatim>\<open>Message\<close>, \<^verbatim>\<open>Announce\<close> and \<^verbatim>\<open>MicroMeshPreferences\<close> run
  the same do-while loop over the payload and differ in the body only. \<open>tlv_loop\<close> is that
  loop; \<open>step\<close> is the body up to \<open>remainder = ...\<close>, \<open>malf\<close> is \<open>isMalformed()\<close>, and
  \<open>plen\<close> is \<open>getPayloadLength()\<close>, which caches its result in the object and is called
  only when the packet is not malformed. The comparison
  \<open>remainder > tail - getPayloadLength()\<close> is done in \<open>uint32_t\<close> and wraps.

  The loop is a partial function: \<open>None\<close> is a loop that never ends.
\<close>

partial_function (option) tlv_loop ::
  "(binary_reader \<Rightarrow> 'm \<Rightarrow> 'm \<times> binary_reader) \<Rightarrow> ('m \<Rightarrow> bool) \<Rightarrow> ('m \<Rightarrow> u32 \<times> 'm)
    \<Rightarrow> u16 \<Rightarrow> binary_reader \<Rightarrow> 'm \<Rightarrow> ('m \<times> binary_reader) option" where
  "tlv_loop step malf plen tail r m =
     (let (m1, r1) = step r m;
          remainder = read_remainder_len r1
      in if malf m1 then Some (m1, r1)
         else let (len, m2) = plen m1
              in if (ucast remainder :: u32) > ucast tail - len
                 then tlv_loop step malf plen tail r1 m2
                 else Some (m2, r1))"

subsection \<open>Termination and independence of the memory behind the packet\<close>

text \<open>
  The 16-bit position wraps, so the loop can only be shown to end when the buffer stays
  clear of the wrap: every body advances by at most 258 bytes, and the first body that
  starts at or after the end marks the packet malformed. An ATT value has at most 512
  bytes and the flash sector 4096, far below the bound.
\<close>

definition small_reader :: "binary_reader \<Rightarrow> bool" where
  "small_reader r \<longleftrightarrow>
     unat (rd_buffer_size r) + 260 < 65536 \<and> unat (rd_pos r) + 2 < 65536"

locale tlv_step =
  fixes step :: "binary_reader \<Rightarrow> 'm \<Rightarrow> 'm \<times> binary_reader"
    and malf :: "'m \<Rightarrow> bool"
  assumes step_moves: "moves r 2 258 (step r m)"
    and step_past_end: "overruns r 1 \<Longrightarrow> unat (rd_pos r) + 2 < 65536 \<Longrightarrow> malf (fst (step r m))"
    and step_agree: "same_view r s \<Longrightarrow> agree (step r m) (step s m)"
begin

lemma step_progress:
  assumes "small_reader r" and "\<not> malf (fst (step r m))"
  shows "small_reader (snd (step r m))"
    and "unat (rd_buffer_size r) - unat (rd_pos (snd (step r m))) <
         unat (rd_buffer_size r) - unat (rd_pos r)"
    and "rd_buffer_size (snd (step r m)) = rd_buffer_size r"
proof -
  from step_moves [of r m] obtain n where n: "snd (step r m) = advance r n" "2 \<le> n" "n \<le> 258"
    by (auto simp: moves_def)
  have inside: "unat (rd_pos r) < unat (rd_buffer_size r)"
  proof (rule ccontr)
    assume "\<not> unat (rd_pos r) < unat (rd_buffer_size r)"
    then have "overruns r 1" by (simp add: overruns_def)
    with step_past_end [of r m] assms show False by (simp add: small_reader_def)
  qed
  have "unat (rd_pos r + of_nat n) = unat (rd_pos r) + n"
    using inside n assms(1) by (intro unat_add_u16_small) (auto simp: small_reader_def)
  with inside n assms(1) show "small_reader (snd (step r m))"
    and "unat (rd_buffer_size r) - unat (rd_pos (snd (step r m))) <
         unat (rd_buffer_size r) - unat (rd_pos r)"
    and "rd_buffer_size (snd (step r m)) = rd_buffer_size r"
    by (auto simp: small_reader_def)
qed

theorem loop_same_view:
  assumes "small_reader r" and "same_view r s"
  shows "\<exists>r' s' m'. tlv_loop step malf plen tail r m = Some (m', r') \<and>
           tlv_loop step malf plen tail s m = Some (m', s') \<and> same_view r' s'"
  using assms
proof (induction "unat (rd_buffer_size r) - unat (rd_pos r)" arbitrary: r s m
    rule: less_induct)
  case less
  obtain r1 m1 where r1: "step r m = (m1, r1)" by (cases "step r m")
  obtain s1 where s1: "step s m = (m1, s1)" and view: "same_view r1 s1"
    using step_agree [OF less.prems(2), of m] r1 by (cases "step s m") (auto simp: agree_def)
  note rem = same_view_remainder [OF view]
  show ?case
  proof (cases "malf m1")
    case True
    then show ?thesis
      using view by (simp add: tlv_loop.simps [of step malf plen tail r]
          tlv_loop.simps [of step malf plen tail s] r1 s1)
  next
    case False
    obtain len m2 where m2: "plen m1 = (len, m2)" by (cases "plen m1")
    have prog: "small_reader r1" "unat (rd_buffer_size r1) - unat (rd_pos r1) <
        unat (rd_buffer_size r) - unat (rd_pos r)"
      using step_progress [OF less.prems(1), of m] False r1 by auto
    from less.hyps [OF prog(2,1) view, of m2] show ?thesis
      using view False by (auto simp: tlv_loop.simps [of step malf plen tail r]
          tlv_loop.simps [of step malf plen tail s] r1 s1 m2 rem)
  qed
qed

corollary loop_terminates:
  "small_reader r \<Longrightarrow> \<exists>r' m'. tlv_loop step malf plen tail r m = Some (m', r')"
  using loop_same_view [of r r] by (meson same_view_refl)

end

subsection \<open>At and after the end of the buffer\<close>

lemma reads_past_end:
  assumes "overruns r 1" and "unat (rd_pos r) + 2 < 65536"
  shows "read_uint8 r = (0, advance r (Suc 0))"
    and "read_uint8 (advance r (Suc 0)) = (0, advance r 2)"
    and "read_data 0 (advance r 2) = (None, advance r 2)"
proof -
  have pos: "unat (rd_pos r + of_nat n) = unat (rd_pos r) + n" if "n \<le> 2" for n
    using assms(2) that by (intro unat_add_u16_small) simp
  show "read_uint8 r = (0, advance r (Suc 0))"
    using assms(1) by (simp add: read_uint8_def)
  show "read_uint8 (advance r (Suc 0)) = (0, advance r 2)"
    using assms(1) pos [of "Suc 0"]
    by (simp add: read_uint8_def overruns_def advance_advance numeral_2_eq_2)
  show "read_data 0 (advance r 2) = (None, advance r 2)"
    using assms(1) pos [of 2] by (simp add: read_data_def overruns_def)
qed

text \<open>The type and length bytes of an entry, and its data as a fixed-width field.\<close>

definition be32 :: "bytes \<Rightarrow> u32" where
  "be32 v = fst (read_uint32 (BinaryReader 0 v 4))"

lemma be32_read:
  assumes "reader_at r (v @ rest)" and "length v = 4"
  shows "read_uint32 r = (be32 v, advance r 4)" and "read_int32 r = (be32 v, advance r 4)"
proof -
  have "reader_at (BinaryReader 0 v 4) (v @ [])"
    using assms(2) by (simp add: reader_at_def BinaryReader_def)
  note c = reader_at_bytes(2) [OF this] and n = reader_at_bytes(1) [OF this, of 4]
  note d = reader_at_bytes(2) [OF assms(1)] and k = reader_at_bytes(1) [OF assms(1), of 4]
  show "read_uint32 r = (be32 v, advance r 4)" "read_int32 r = (be32 v, advance r 4)"
    using assms(2) n k by (simp_all add: be32_def read_uint32_def read_int32_def c d)
qed

lemma be32_write [simp]:
  "be32 (write_uint32 [] x) = x" "be32 (write_int32 [] x) = x"
proof -
  have at: "reader_at (BinaryReader 0 v 4) (v @ [])" if "length v = 4" for v
    using that by (simp add: reader_at_def BinaryReader_def)
  show "be32 (write_uint32 [] x) = x"
    using u32c.get_put [OF at] by (simp add: be32_def)
  then show "be32 (write_int32 [] x) = x"
    by (simp add: write_int32_def write_uint32_def)
qed

subsection \<open>Reading back a written payload\<close>

text \<open>The bytes of one entry, as \<open>writeVariable\<close> lays them out.\<close>

definition tlv_bytes :: "u8 \<times> bytes \<Rightarrow> bytes" where
  "tlv_bytes e = [fst e, of_nat (length (snd e))] @ snd e"

abbreviation tlvs_bytes :: "(u8 \<times> bytes) list \<Rightarrow> bytes" where
  "tlvs_bytes es \<equiv> concat (map tlv_bytes es)"

lemma length_tlv_bytes [simp]: "length (tlv_bytes e) = 2 + length (snd e)"
  by (simp add: tlv_bytes_def)

lemma tlvs_bytes_le:
  "\<forall>e \<in> set es. length (snd e) \<le> 255 \<Longrightarrow> length (tlvs_bytes es) \<le> 257 * length es"
  by (induction es) auto

lemma tlvs_bytes_Nil_iff: "tlvs_bytes es = [] \<longleftrightarrow> es = []"
  by (cases es) (simp_all add: tlv_bytes_def)

lemma entry_head:
  assumes at: "reader_at r (tlv_bytes (t, v) @ rest)" and len: "length v \<le> 255"
  shows "read_uint8 r = (t, advance r (Suc 0))"
    and "read_uint8 (advance r (Suc 0)) = (of_nat (length v), advance r 2)"
    and "reader_at (advance r 2) (v @ rest)"
    and "read_data (ucast (of_nat (length v) :: u8)) (advance r 2) =
           (Some v, advance r (2 + length v))"
proof -
  have a0: "reader_at r (write_uint8 [] t @ (write_uint8 [] (of_nat (length v)) @ (v @ rest)))"
    using at by (simp add: tlv_bytes_def write_uint8_def)
  note a1 = u8c.reader_after [OF a0]
  have two: "advance (advance r (Suc 0)) (Suc 0) = advance r 2"
    by (simp add: advance_advance numeral_2_eq_2)
  show "read_uint8 r = (t, advance r (Suc 0))"
    by (rule u8c.get_at [OF a0])
  show "read_uint8 (advance r (Suc 0)) = (of_nat (length v), advance r 2)"
    using u8c.get_at [OF a1] by (simp add: two)
  show a2: "reader_at (advance r 2) (v @ rest)"
    using u8c.reader_after [OF a1] by (simp add: two)
  have "unat (ucast (of_nat (length v) :: u8) :: u16) = length v"
    using len by (simp add: unat_of_nat_u8)
  from read_data_at [OF a2 this]
  show "read_data (ucast (of_nat (length v) :: u8)) (advance r 2) =
      (Some v, advance r (2 + length v))"
    by (simp add: advance_advance)
qed

text \<open>
  What a body must satisfy on a well-formed entry: it consumes exactly the entry, changes
  the object by \<open>put_entry\<close> and leaves \<open>malf\<close> and the cached payload length alone.
\<close>

locale tlv_entries =
  fixes step :: "binary_reader \<Rightarrow> 'm \<Rightarrow> 'm \<times> binary_reader"
    and malf :: "'m \<Rightarrow> bool"
    and plen :: "'m \<Rightarrow> u32 \<times> 'm"
    and cached :: "'m \<Rightarrow> u32"
    and good :: "u8 \<times> bytes \<Rightarrow> bool"
    and put_entry :: "u8 \<times> bytes \<Rightarrow> 'm \<Rightarrow> 'm"
  assumes step_entry: "good e \<Longrightarrow> reader_at r (tlv_bytes e @ rest) \<Longrightarrow>
      step r m = (put_entry e m, advance r (length (tlv_bytes e)))"
    and malf_entry: "good e \<Longrightarrow> malf (put_entry e m) = malf m"
    and cached_entry: "good e \<Longrightarrow> cached (put_entry e m) = cached m"
    and plen_cached: "cached m \<noteq> 0 \<Longrightarrow> plen m = (cached m, m)"
begin

lemma loop_reads_entries:
  assumes "es \<noteq> []" and "\<forall>e \<in> set es. good e"
    and "reader_at r (tlvs_bytes es @ rest)"
    and "\<not> malf m" and "cached m \<noteq> 0"
    and "unat tail = (unat (rd_buffer_size r) - unat (rd_pos r) - length (tlvs_bytes es))
           + unat (cached m)"
  shows "tlv_loop step malf plen tail r m =
           Some (fold put_entry es m, advance r (length (tlvs_bytes es)))"
  using assms
proof (induction es arbitrary: r m)
  case (Cons e es)
  define n where "n = length (tlv_bytes e)"
  define k where "k = length (tlvs_bytes es)"
  have at: "reader_at r (tlv_bytes e @ (tlvs_bytes es @ rest))"
    using Cons.prems(3) by simp
  have good: "good e" using Cons.prems(2) by simp
  have step: "step r m = (put_entry e m, advance r n)"
    unfolding n_def by (rule step_entry [OF good at])
  have nomalf: "\<not> malf (put_entry e m)" using Cons.prems(4) good by (simp add: malf_entry)
  have plen: "plen (put_entry e m) = (cached m, put_entry e m)"
    using plen_cached [of "put_entry e m"] Cons.prems(5) good by (simp add: cached_entry)
  have len: "length (tlv_bytes e @ (tlvs_bytes es @ rest)) = n + k + length rest"
    by (simp add: n_def k_def)
  have bound: "unat (rd_pos r) + (n + k) \<le> unat (rd_buffer_size r)"
    using at unfolding reader_at_def len by simp
  have rem: "unat (read_remainder_len (advance r n)) =
      unat (rd_buffer_size r) - (unat (rd_pos r) + n)"
    by (rule reader_at_remainder [OF at]) (simp add: n_def)
  have tl: "unat tail = (unat (rd_buffer_size r) - unat (rd_pos r) - (n + k)) + unat (cached m)"
    using Cons.prems(6) by (simp add: n_def k_def)
  have "cached m \<le> (ucast tail :: u32)"
    using tl by (simp add: word_le_nat_alt)
  then have lim: "unat (ucast tail - cached m :: u32) =
      unat (rd_buffer_size r) - unat (rd_pos r) - (n + k)"
    using tl by (simp add: unat_sub)
  have guard: "(ucast (read_remainder_len (advance r n)) :: u32) > ucast tail - cached m
      \<longleftrightarrow> 0 < k"
    using bound by (auto simp: word_less_nat_alt lim rem)
  show ?case
  proof (cases "es = []")
    case True
    then show ?thesis
      using step nomalf plen guard
      by (subst tlv_loop.simps) (simp add: k_def n_def)
  next
    case False
    then have "0 < k" by (cases es) (simp_all add: k_def)
    have at': "reader_at (advance r n) (tlvs_bytes es @ rest)"
      unfolding n_def by (rule reader_at_advance [OF at])
    have pos': "unat (rd_pos r + of_nat n) = unat (rd_pos r) + n"
      by (rule unat_pos_advance [OF at]) (simp add: n_def)
    have "tlv_loop step malf plen tail (advance r n) (put_entry e m) =
        Some (fold put_entry es (put_entry e m), advance (advance r n) (length (tlvs_bytes es)))"
      using False Cons.prems(2,5) at' nomalf good tl bound
      by (intro Cons.IH) (auto simp: cached_entry pos' k_def)
    then show ?thesis
      using step nomalf plen guard \<open>0 < k\<close>
      by (subst tlv_loop.simps) (simp add: n_def advance_advance)
  qed
qed simp

end

end
