(* ===== verification/Packet_Base.thy ===== *)
theory Packet_Base
  imports Packet_Types Tlv_Loop
begin

section \<open>Base: the packet header shared by every packet class\<close>

text \<open>
  The fields of \<^verbatim>\<open>class Base\<close>. The subclasses extend this record, so a method of
  \<^verbatim>\<open>Base\<close> is a function on any extension of it, and a virtual method a \<^verbatim>\<open>Base\<close> method
  calls is an argument of its definition. A \<open>Peer *\<close> is the key of the peer in the
  tracker's peer map, from which peers are never erased.
\<close>

record base =
  malformed :: bool
  packet_version :: u8
  packet_type :: u8
  packet_ttl :: u8
  packet_timestamp_ms :: u64
  packet_flags :: u8
  sending_connection_handle :: u16
  payload_length :: u32
  packet_sender_id :: u64
  packet_recipient_id :: u64
  sender_peer :: "u64 option"
  routeList :: "u64 list"
  signature :: bytes

definition SIGNATURE_LENGTH :: u16 where
  "SIGNATURE_LENGTH = 64"

subsection \<open>Construction\<close>

text \<open>
  The first three constructors initialise the header over the member initialisers of
  \<^verbatim>\<open>Base.h\<close>. They act on the object under construction, whose other fields the subclass
  has yet to set.
\<close>

definition Base_init :: "'a base_scheme \<Rightarrow> u8 \<Rightarrow> 'a base_scheme" where
  "Base_init p ty =
     p\<lparr>malformed := False, packet_version := 1, packet_type := ty, packet_ttl := 0,
       packet_timestamp_ms := 0, packet_flags := 0, sending_connection_handle := 0,
       payload_length := 0, packet_sender_id := 0, packet_recipient_id := 0,
       sender_peer := None, routeList := [], signature := []\<rparr>"

definition Base_init4 :: "'a base_scheme \<Rightarrow> u8 \<Rightarrow> u8 \<Rightarrow> u64 \<Rightarrow> u8 \<Rightarrow> 'a base_scheme" where
  "Base_init4 p ty ttl timestamp flags =
     (Base_init p ty)\<lparr>packet_ttl := ttl, packet_timestamp_ms := timestamp,
       packet_flags := flags\<rparr>"

definition Base_init6 :: "'a base_scheme \<Rightarrow> u8 \<Rightarrow> u8 \<Rightarrow> u64 \<Rightarrow> u8 \<Rightarrow> u64 \<Rightarrow> u64
    \<Rightarrow> 'a base_scheme" where
  "Base_init6 p ty ttl timestamp flags sender recipient =
     (Base_init p ty)\<lparr>packet_ttl := ttl, packet_timestamp_ms := timestamp,
       packet_flags := flags, packet_sender_id := sender, packet_recipient_id := recipient\<rparr>"

subsection \<open>Flags and setters\<close>

definition hasPacketRecipient :: "'a base_scheme \<Rightarrow> bool" where
  "hasPacketRecipient p \<longleftrightarrow> packet_flags p AND packet_flag_has_recipient \<noteq> 0"

definition hasSignature :: "'a base_scheme \<Rightarrow> bool" where
  "hasSignature p \<longleftrightarrow> packet_flags p AND packet_flag_has_signature \<noteq> 0"

definition hasPacketRoute :: "'a base_scheme \<Rightarrow> bool" where
  "hasPacketRoute p \<longleftrightarrow> packet_flags p AND packet_flag_has_route \<noteq> 0"

definition fromMeshtastic :: "'a base_scheme \<Rightarrow> bool" where
  "fromMeshtastic p \<longleftrightarrow> packet_flags p AND packet_flag_from_meshtastic \<noteq> 0"

definition setFromMeshtastic :: "'a base_scheme \<Rightarrow> bool \<Rightarrow> 'a base_scheme" where
  "setFromMeshtastic p cond =
     (if cond then p\<lparr>packet_flags := packet_flags p OR packet_flag_from_meshtastic\<rparr>
      else p\<lparr>packet_flags := packet_flags p AND NOT packet_flag_from_meshtastic\<rparr>)"

definition setPacketTtl :: "'a base_scheme \<Rightarrow> u8 \<Rightarrow> 'a base_scheme" where
  "setPacketTtl p ttl = p\<lparr>packet_ttl := ttl\<rparr>"

definition setPacketTimestamp :: "'a base_scheme \<Rightarrow> u64 \<Rightarrow> 'a base_scheme" where
  "setPacketTimestamp p timestamp = p\<lparr>packet_timestamp_ms := timestamp\<rparr>"

definition setPacketFlags :: "'a base_scheme \<Rightarrow> u8 \<Rightarrow> 'a base_scheme" where
  "setPacketFlags p flags = p\<lparr>packet_flags := flags\<rparr>"

definition setSendingConnectionHandle :: "'a base_scheme \<Rightarrow> u16 \<Rightarrow> 'a base_scheme" where
  "setSendingConnectionHandle p handle = p\<lparr>sending_connection_handle := handle\<rparr>"

definition setPacketType :: "'a base_scheme \<Rightarrow> u8 \<Rightarrow> 'a base_scheme" where
  "setPacketType p ty = p\<lparr>packet_type := ty\<rparr>"

definition setPacketSenderId :: "'a base_scheme \<Rightarrow> u64 \<Rightarrow> 'a base_scheme" where
  "setPacketSenderId p senderId = p\<lparr>packet_sender_id := senderId\<rparr>"

definition setSenderPeer :: "'a base_scheme \<Rightarrow> u64 option \<Rightarrow> 'a base_scheme" where
  "setSenderPeer p peer = p\<lparr>sender_peer := peer\<rparr>"

definition setPayloadLength :: "'a base_scheme \<Rightarrow> u32 \<Rightarrow> 'a base_scheme" where
  "setPayloadLength p len = p\<lparr>payload_length := len\<rparr>"

definition setMalformed :: "'a base_scheme \<Rightarrow> bool \<Rightarrow> 'a base_scheme" where
  "setMalformed p cond = p\<lparr>malformed := cond\<rparr>"

lemmas setter_defs = setPacketTtl_def setPacketTimestamp_def setPacketFlags_def
  setSendingConnectionHandle_def setPacketType_def setPacketSenderId_def
  setSenderPeer_def setPayloadLength_def setMalformed_def

subsection \<open>Reading a header and a trailer\<close>

text \<open>
  The reading constructor. The version byte has been read by the caller and is an
  argument; it is not stored, so the object keeps the member initialiser
  \<open>packet_version = 1\<close>.
\<close>

definition Base_read :: "'a base_scheme \<Rightarrow> u8 \<Rightarrow> u8 \<Rightarrow> binary_reader
    \<Rightarrow> 'a base_scheme \<times> binary_reader" where
  "Base_read p ty version r0 =
     (let p0 = Base_init p ty;
          (ttl, r1) = read_uint8 r0;
          (timestamp, r2) = read_uint64 r1;
          (flags, r3) = read_uint8 r2;
          p1 = p0\<lparr>packet_ttl := ttl, packet_timestamp_ms := timestamp, packet_flags := flags\<rparr>;
          (p2, r4) = (if version = 1
                      then let (len, r) = read_uint16 r3
                           in (p1\<lparr>payload_length := ucast len\<rparr>, r)
                      else if version = 2
                      then let (len, r) = read_uint32 r3
                           in (p1\<lparr>payload_length := len\<rparr>, r)
                      else (p1, r3));
          (sender, r5) = read_uint64 r4;
          p3 = p2\<lparr>packet_sender_id := sender\<rparr>;
          (p4, r6) = (if hasPacketRecipient p3
                      then let (recipient, r) = read_uint64 r5
                           in (p3\<lparr>packet_recipient_id := recipient\<rparr>, r)
                      else (p3, r5))
      in if version = 2 \<and> hasPacketRoute p4
         then let (routeCount, r7) = read_uint8 r6;
                  (hops, r8) = read_many read_uint64 (unat routeCount) r7
              in (p4\<lparr>routeList := hops\<rparr>, r8)
         else (p4, r6))"

definition handleReaderRemainder :: "'a base_scheme \<Rightarrow> binary_reader
    \<Rightarrow> 'a base_scheme \<times> binary_reader" where
  "handleReaderRemainder p r =
     (if \<not> malformed p \<and> hasSignature p
      then case read_data SIGNATURE_LENGTH r of
             (Some sig_data, r1) \<Rightarrow> (p\<lparr>signature := sig_data\<rparr>, r1)
           | (None, r1) \<Rightarrow> (p\<lparr>signature := [], malformed := True\<rparr>, r1)
      else (p, r))"

subsection \<open>Writing a packet\<close>

definition variableLength :: "'a base_scheme \<Rightarrow> u8 \<Rightarrow> nat \<Rightarrow> u32" where
  "variableLength p ty sz =
     (if packet_type p = type_announce \<and> ty = tlv_announce_direct_neighbors
      then 2 + ucast (of_nat (min 248 (sz * 8)) :: u8)
      else 2 + ucast (of_nat (min 255 sz) :: u8))"

text \<open>The four overloads of \<open>writeVariable\<close>.\<close>

definition writeVariable :: "bytes \<Rightarrow> u8 \<Rightarrow> bytes \<Rightarrow> bytes" where
  "writeVariable vector ty v =
     (let v1 = write_uint8 vector ty;
          value_len = (of_nat (min 255 (length v)) :: u8);
          v2 = write_uint8 v1 value_len
      in write_data v2 v (ucast value_len))"

definition writeVariable_uint32 :: "bytes \<Rightarrow> u8 \<Rightarrow> u32 \<Rightarrow> bytes" where
  "writeVariable_uint32 vector ty v = write_uint32 (write_uint8 (write_uint8 vector ty) 4) v"

definition writeVariable_int32 :: "bytes \<Rightarrow> u8 \<Rightarrow> i32 \<Rightarrow> bytes" where
  "writeVariable_int32 vector ty v = write_int32 (write_uint8 (write_uint8 vector ty) 4) v"

definition writeVariable_uint8 :: "bytes \<Rightarrow> u8 \<Rightarrow> u8 \<Rightarrow> bytes" where
  "writeVariable_uint8 vector ty v = write_uint8 (write_uint8 (write_uint8 vector ty) 1) v"

text \<open>
  \<open>writePacket\<close> calls the virtual \<open>getPayloadLength\<close>, which may store the length it
  computes, and the virtual \<open>writePacketPayload\<close>; both are arguments. The result is the
  vector and the object the call leaves behind.
\<close>

definition writePacket :: "('a base_scheme \<Rightarrow> u32 \<times> 'a base_scheme)
    \<Rightarrow> (bytes \<Rightarrow> 'a base_scheme \<Rightarrow> bytes) \<Rightarrow> 'a base_scheme \<Rightarrow> bytes
    \<Rightarrow> bytes \<times> 'a base_scheme" where
  "writePacket getPayloadLength writePacketPayload p vector =
     (let v1 = write_uint8 vector (packet_version p);
          v2 = write_uint8 v1 (packet_type p);
          v3 = write_uint8 v2 (packet_ttl p);
          v4 = write_uint64 v3 (packet_timestamp_ms p);
          v5 = write_uint8 v4 (packet_flags p);
          (v6, q) = (if packet_version p = 1
                     then let (len, q) = getPayloadLength p in (write_uint16 v5 (ucast len), q)
                     else if packet_version p = 2
                     then let (len, q) = getPayloadLength p in (write_uint32 v5 len, q)
                     else (v5, p));
          v7 = write_uint64 v6 (packet_sender_id q);
          v8 = (if hasPacketRecipient q then write_uint64 v7 (packet_recipient_id q) else v7);
          v9 = (if packet_version q = 2 \<and> hasPacketRoute q
                then foldl write_uint64 (write_uint8 v8 (of_nat (length (routeList q))))
                       (routeList q)
                else v8);
          v10 = writePacketPayload v9 q;
          v11 = (if hasSignature q
                 then write_data (write_uint8 v10 (of_nat (length (signature q))))
                        (signature q) (of_nat (length (signature q)))
                 else v10)
      in (write_uint8 v11 0, q))"

text \<open>
  \<open>getPacketHash\<close> feeds these bytes to \<open>std::hash<std::string>\<close>, which is a parameter.
\<close>

definition getPacketHash :: "(bytes \<Rightarrow> nat) \<Rightarrow> 'a base_scheme \<Rightarrow> nat" where
  "getPacketHash hash p =
     (let v1 = write_uint8 [] (packet_type p);
          v2 = write_uint8 v1 (packet_flags p);
          v3 = write_uint64 v2 (packet_timestamp_ms p);
          v4 = write_uint64 v3 (packet_sender_id p);
          v5 = write_uint64 v4 (packet_recipient_id p)
      in hash v5)"

subsection \<open>Entries\<close>

text \<open>
  What \<open>writeVariable\<close> appends is one entry of the loop's input, cut at 255 bytes.
\<close>

lemma writeVariable_entry [wire]:
  "writeVariable vector ty v = vector @ tlv_bytes (ty, take 255 v)"
proof -
  have len: "unat (of_nat (min 255 (length v)) :: u8) = min 255 (length v)"
    by (rule unat_of_nat_u8) simp
  have take: "take (min 255 (length v)) v = take 255 v"
    by (simp add: min_def)
  have cut: "length (take 255 v) = min 255 (length v)" by simp
  show ?thesis
    unfolding writeVariable_def Let_def
    by (subst write_data_take)
      (simp_all only: unat_ucast_u8_u16 len take cut min.cobounded2 write_uint8_def
        tlv_bytes_def append_assoc fst_conv snd_conv append_Cons append_Nil)
qed

lemma writeVariable_uint32_entry [wire]:
  "writeVariable_uint32 vector ty v = vector @ tlv_bytes (ty, write_uint32 [] v)"
  by (simp add: writeVariable_uint32_def write_uint32_def write_uint8_def tlv_bytes_def)

lemma writeVariable_int32_entry [wire]:
  "writeVariable_int32 vector ty v = vector @ tlv_bytes (ty, write_int32 [] v)"
  by (simp add: writeVariable_int32_def write_int32_def write_uint8_def tlv_bytes_def)

lemma writeVariable_uint8_entry [wire]:
  "writeVariable_uint8 vector ty v = vector @ tlv_bytes (ty, write_uint8 [] v)"
  by (simp add: writeVariable_uint8_def write_uint8_def tlv_bytes_def)

lemma unat_variableLength:
  "unat (variableLength p ty sz) =
     (if packet_type p = type_announce \<and> ty = tlv_announce_direct_neighbors
      then 2 + min 248 (sz * 8) else 2 + min 255 sz)"
proof -
  have *: "unat (2 + ucast (of_nat n :: u8) :: u32) = 2 + n" if "n < 256" for n
    using that by (simp add: unat_word_ariths unsigned_ucast_eq unat_of_nat_u8
        take_bit_nat_eq_self)
  show ?thesis by (simp add: variableLength_def *)
qed

lemma variableLength_of_nat:
  assumes "\<not> (packet_type p = type_announce \<and> ty = tlv_announce_direct_neighbors)"
  shows "variableLength p ty sz = of_nat (2 + min 255 sz)"
proof (rule unsigned_word_eqI [where ?'a = nat])
  have "unat (of_nat (2 + min 255 sz) :: u32) = 2 + min 255 sz"
    by (rule unat_of_nat_u32) simp
  then show "unat (variableLength p ty sz) = unat (of_nat (2 + min 255 sz) :: u32)"
    using assms by (simp only: unat_variableLength if_False)
qed

subsection \<open>Header round trip\<close>

text \<open>
  The bytes \<open>writePacket\<close> puts between the type byte and the payload of a version 1
  packet.
\<close>

definition header_bytes :: "'a base_scheme \<Rightarrow> bytes" where
  "header_bytes p =
     write_uint8 [] (packet_ttl p) @ write_uint64 [] (packet_timestamp_ms p) @
     write_uint8 [] (packet_flags p) @ write_uint16 [] (ucast (payload_length p)) @
     write_uint64 [] (packet_sender_id p) @
     (if hasPacketRecipient p then write_uint64 [] (packet_recipient_id p) else [])"

lemma Base_read_header:
  fixes p :: "'a base_scheme"
  assumes at: "reader_at r (header_bytes p @ rest)"
    and len: "unat (payload_length p) < 65536"
  shows "Base_read q ty 1 r =
    ((Base_init q ty)\<lparr>packet_ttl := packet_ttl p, packet_timestamp_ms := packet_timestamp_ms p,
       packet_flags := packet_flags p, payload_length := payload_length p,
       packet_sender_id := packet_sender_id p,
       packet_recipient_id := (if hasPacketRecipient p then packet_recipient_id p else 0)\<rparr>,
     advance r (length (header_bytes p)))"
proof -
  define tail where "tail = (if hasPacketRecipient p then write_uint64 [] (packet_recipient_id p)
      else []) @ rest"
  have a0: "reader_at r (write_uint8 [] (packet_ttl p) @ write_uint64 [] (packet_timestamp_ms p) @
      write_uint8 [] (packet_flags p) @ write_uint16 [] (ucast (payload_length p)) @
      write_uint64 [] (packet_sender_id p) @ tail)"
    using at by (simp add: header_bytes_def tail_def)
  note a1 = u8c.reader_after [OF a0]
  note a2 = u64c.reader_after [OF a1]
  note a3 = u8c.reader_after [OF a2]
  note a4 = u16c.reader_after [OF a3]
  note a5 = u64c.reader_after [OF a4]
  have len': "(ucast (ucast (payload_length p) :: u16) :: u32) = payload_length p"
    using len by (rule ucast_u32_u16_u32)
  show ?thesis
  proof (cases "hasPacketRecipient p")
    case True
    then have a5': "reader_at (advance (advance (advance (advance (advance r (Suc 0)) 8) (Suc 0)) 2) 8)
        (write_uint64 [] (packet_recipient_id p) @ rest)"
      using a5 by (simp add: tail_def)
    show ?thesis
      using True
      by (simp add: Base_read_def header_bytes_def u8c.get_at [OF a0] u64c.get_at [OF a1] u8c.get_at [OF a2]
          u16c.get_at [OF a3] u64c.get_at [OF a4] u64c.get_at [OF a5'] len'
          hasPacketRecipient_def Base_init_def)
  next
    case False
    then show ?thesis
      by (simp add: Base_read_def header_bytes_def u8c.get_at [OF a0] u64c.get_at [OF a1] u8c.get_at [OF a2]
          u16c.get_at [OF a3] u64c.get_at [OF a4] len'
          hasPacketRecipient_def Base_init_def)
  qed
qed

text \<open>A header moves the cursor by at most 2073 bytes (255 hops), whatever it holds.\<close>

lemma Base_read_agree:
  "same_view r s \<Longrightarrow> agree (Base_read p ty version r) (Base_read p ty version s)"
  unfolding Base_read_def Let_def
  by (intro agree_rules)

lemma Base_read_moves: "moves r 0 2073 (Base_read p ty version r)"
  unfolding Base_read_def Let_def
  by (rule moves_weaken, (rule moves_rules)+) simp_all


lemma handleReaderRemainder_agree:
  "same_view r s \<Longrightarrow> agree (handleReaderRemainder p r) (handleReaderRemainder p s)"
  unfolding handleReaderRemainder_def
  by (intro agree_rules)

lemma writePacket_v1:
  assumes "packet_version p = 1" and "\<not> hasSignature p"
    and "getPayloadLength p = (payload_length q, q)"
    and "q = p\<lparr>payload_length := payload_length q\<rparr>"
    and "\<And>v. writePacketPayload v q = v @ payload"
  shows "writePacket getPayloadLength writePacketPayload p [] =
           ([1, packet_type p] @ header_bytes q @ payload @ [0], q)"
proof -
  have same: "packet_version q = 1" "packet_type q = packet_type p" "packet_ttl q = packet_ttl p"
    "packet_timestamp_ms q = packet_timestamp_ms p" "packet_flags q = packet_flags p"
    "packet_sender_id q = packet_sender_id p" "packet_recipient_id q = packet_recipient_id p"
    "\<not> hasSignature q"
    by (subst assms(4), use assms(1,2) in \<open>simp add: hasSignature_def\<close>)+
  show ?thesis
    by (simp add: writePacket_def assms(1,3,5) same header_bytes_def write_uint8_def
        write_uint16_def write_uint64_def hasPacketRecipient_def)
qed

text \<open>
  A reader on a written version 1 packet (in a buffer of \<open>n\<close> readable bytes that may go on
  behind it) reads the version, the type, the header, and stands at the payload.
\<close>

definition packet_reader :: "bytes \<Rightarrow> bytes \<Rightarrow> nat \<Rightarrow> binary_reader" where
  "packet_reader packet behind n = BinaryReader 0 (packet @ behind) (of_nat n)"

lemma packet_reader_at:
  assumes "length packet \<le> n" and "n \<le> length (packet @ behind)" and "n < 65536"
  shows "reader_at (packet_reader packet behind n) packet"
  using assms by (simp add: reader_at_def packet_reader_def BinaryReader_def unat_of_nat_u16)

lemma packet_frame:
  fixes q :: "'a base_scheme"
  assumes packet: "packet = [1, ty] @ header_bytes q @ payload @ [0]"
    and size: "length packet \<le> n" "n \<le> length (packet @ behind)" "n < 65536"
    and len: "unat (payload_length q) < 65536"
  defines "r \<equiv> packet_reader packet behind n"
  defines "r2 \<equiv> advance (advance r (Suc 0)) (Suc 0)"
  defines "r3 \<equiv> advance r2 (length (header_bytes q))"
  shows "read_uint8 r = (1, advance r (Suc 0))"
    and "read_uint8 (advance r (Suc 0)) = (ty, r2)"
    and "Base_read p ty 1 r2 =
      ((Base_init p ty)\<lparr>packet_ttl := packet_ttl q, packet_timestamp_ms := packet_timestamp_ms q,
         packet_flags := packet_flags q, payload_length := payload_length q,
         packet_sender_id := packet_sender_id q,
         packet_recipient_id := (if hasPacketRecipient q then packet_recipient_id q else 0)\<rparr>, r3)"
    and "reader_at r3 (payload @ [0])"
    and "unat (read_remainder_len r3) = unat (rd_buffer_size r3) - unat (rd_pos r3)"
proof -
  have a0: "reader_at r (write_uint8 [] 1 @ (write_uint8 [] ty @ (header_bytes q @ (payload @ [0]))))"
    using packet_reader_at [OF size] by (simp add: r_def packet write_uint8_def)
  note a1 = u8c.reader_after [OF a0]
  have a2: "reader_at r2 (header_bytes q @ (payload @ [0]))"
    unfolding r2_def by (rule u8c.reader_after [OF a1])
  show "read_uint8 r = (1, advance r (Suc 0))" by (rule u8c.get_at [OF a0])
  show "read_uint8 (advance r (Suc 0)) = (ty, r2)"
    unfolding r2_def by (rule u8c.get_at [OF a1])
  show "Base_read p ty 1 r2 =
      ((Base_init p ty)\<lparr>packet_ttl := packet_ttl q, packet_timestamp_ms := packet_timestamp_ms q,
         packet_flags := packet_flags q, payload_length := payload_length q,
         packet_sender_id := packet_sender_id q,
         packet_recipient_id := (if hasPacketRecipient q then packet_recipient_id q else 0)\<rparr>, r3)"
    unfolding r3_def by (rule Base_read_header [OF a2 len])
  show a3: "reader_at r3 (payload @ [0])"
    unfolding r3_def by (rule reader_at_advance [OF a2])
  show "unat (read_remainder_len r3) = unat (rd_buffer_size r3) - unat (rd_pos r3)"
    using reader_at_remainder [OF a3, of 0] by simp
qed

end
