(* ===== verification/Packet_Class.thy ===== *)
theory Packet_Class
  imports Packet_Base
begin

section \<open>What the packet classes share\<close>

text \<open>
  \<^verbatim>\<open>Message\<close>, \<^verbatim>\<open>Announce\<close> and \<^verbatim>\<open>MicroMeshPreferences\<close> have the same reading constructor
  around their own loop bodies: the header, the remaining length, the loop, the trailer.
  \<open>packet_read\<close> is that shape; each class has its constructor written out and a lemma that
  it is an instance. The locale \<open>packet_class\<close> states what a class must satisfy for its
  packets to be read back as they were written, for its constructor to end on every input
  and for the result to depend on the readable bytes only.
\<close>

definition packet_read :: "'a base_scheme \<Rightarrow> u8
    \<Rightarrow> (binary_reader \<Rightarrow> 'a base_scheme \<Rightarrow> 'a base_scheme \<times> binary_reader)
    \<Rightarrow> ('a base_scheme \<Rightarrow> u32 \<times> 'a base_scheme) \<Rightarrow> u8 \<Rightarrow> binary_reader
    \<Rightarrow> ('a base_scheme \<times> binary_reader) option" where
  "packet_read blank ty step plen version r =
     (let (m0, r1) = Base_read blank ty version r
      in case tlv_loop step malformed plen (read_remainder_len r1) r1 m0 of
           None \<Rightarrow> None
         | Some (m1, r2) \<Rightarrow> Some (handleReaderRemainder m1 r2))"

text \<open>The object after the header of a packet \<open>q\<close> has been read.\<close>

definition header_on_wire :: "'a base_scheme \<Rightarrow> u8 \<Rightarrow> 'b base_scheme \<Rightarrow> 'a base_scheme" where
  "header_on_wire blank ty q =
     (Base_init blank ty)\<lparr>packet_ttl := packet_ttl q,
       packet_timestamp_ms := packet_timestamp_ms q, packet_flags := packet_flags q,
       payload_length := payload_length q, packet_sender_id := packet_sender_id q,
       packet_recipient_id := (if hasPacketRecipient q then packet_recipient_id q else 0)\<rparr>"

lemma header_on_wire_simps [simp]:
  "malformed (header_on_wire blank ty q) = False"
  "payload_length (header_on_wire blank ty q) = payload_length q"
  "packet_flags (header_on_wire blank ty q) = packet_flags q"
  by (simp_all add: header_on_wire_def Base_init_def)

text \<open>A buffer that a packet constructor can be started on: an ATT value or a flash sector.\<close>

definition packet_sized :: "binary_reader \<Rightarrow> bool" where
  "packet_sized r \<longleftrightarrow> unat (rd_buffer_size r) \<le> 60000 \<and> unat (rd_pos r) \<le> 60000"

lemma Base_read_small:
  assumes "packet_sized r" and "Base_read p ty version r = (m, r1)"
  shows "small_reader r1"
proof -
  from Base_read_moves [of r p ty version] assms(2)
  obtain n where "r1 = advance r n" "n \<le> 2073" by (auto simp: moves_def)
  moreover from this have "unat (rd_pos r + of_nat n) = unat (rd_pos r) + n"
    using assms(1) by (intro unat_add_u16_small) (simp add: packet_sized_def)
  ultimately show ?thesis using assms(1) by (simp add: small_reader_def packet_sized_def)
qed

locale packet_class =
  tlv_step step malformed + tlv_entries step malformed plen payload_length good put_entry
  for step :: "binary_reader \<Rightarrow> 'a base_scheme \<Rightarrow> 'a base_scheme \<times> binary_reader"
    and plen :: "'a base_scheme \<Rightarrow> u32 \<times> 'a base_scheme"
    and good :: "u8 \<times> bytes \<Rightarrow> bool"
    and put_entry :: "u8 \<times> bytes \<Rightarrow> 'a base_scheme \<Rightarrow> 'a base_scheme" +
  fixes blank :: "'a base_scheme"
    and ty :: u8
    and payload :: "bytes \<Rightarrow> 'a base_scheme \<Rightarrow> bytes"
    and entries :: "'a base_scheme \<Rightarrow> (u8 \<times> bytes) list"
    and counted :: "'a base_scheme \<Rightarrow> bool"
  assumes flags_entry: "good e \<Longrightarrow> packet_flags (put_entry e m) = packet_flags m"
    and payload_entries: "payload v m = v @ tlvs_bytes (entries m)"
    and entries_good: "e \<in> set (entries m) \<Longrightarrow> good e"
    and entries_short: "length (tlvs_bytes (entries m)) < 60000"
    and entries_update: "entries (m\<lparr>payload_length := x\<rparr>) = entries m"
    and plen_entries: "payload_length m = 0 \<Longrightarrow> packet_type m = ty \<Longrightarrow> counted m \<Longrightarrow>
      plen m = (of_nat (length (tlvs_bytes (entries m))),
                m\<lparr>payload_length := of_nat (length (tlvs_bytes (entries m)))\<rparr>)"
begin

lemma read_total_and_local:
  assumes "packet_sized r" and "same_view r s"
  shows "\<exists>m r' s'. packet_read blank ty step plen version r = Some (m, r') \<and>
           packet_read blank ty step plen version s = Some (m, s') \<and> same_view r' s'"
proof -
  obtain m0 r1 where r1: "Base_read blank ty version r = (m0, r1)"
    by (cases "Base_read blank ty version r")
  obtain s1 where s1: "Base_read blank ty version s = (m0, s1)" and view: "same_view r1 s1"
    using Base_read_agree [OF assms(2), of blank ty version] r1
    by (cases "Base_read blank ty version s") (auto simp: agree_def)
  from loop_same_view [OF Base_read_small [OF assms(1) r1] view]
  obtain r2 s2 m1 where "tlv_loop step malformed plen (read_remainder_len r1) r1 m0 = Some (m1, r2)"
    "tlv_loop step malformed plen (read_remainder_len r1) s1 m0 = Some (m1, s2)"
    "same_view r2 s2" by metis
  then show ?thesis
    using handleReaderRemainder_agree [of r2 s2 m1] same_view_remainder [OF view]
    by (cases "handleReaderRemainder m1 r2"; cases "handleReaderRemainder m1 s2")
      (auto simp: packet_read_def r1 s1 agree_def)
qed

lemma flags_fold:
  "\<forall>e \<in> set es. good e \<Longrightarrow> packet_flags (fold put_entry es m) = packet_flags m"
  "\<forall>e \<in> set es. good e \<Longrightarrow> malformed (fold put_entry es m) = malformed m"
  by (induction es arbitrary: m) (auto simp: flags_entry malf_entry)

text \<open>
  The length a packet carries is either not computed yet or that of its entries, as for a
  packet that was read and is written again.
\<close>

lemma plen_of_entries:
  assumes "packet_type m = ty" and "counted m"
    and "payload_length m = 0 \<or> payload_length m = of_nat (length (tlvs_bytes (entries m)))"
  shows "plen m = (of_nat (length (tlvs_bytes (entries m))),
                   m\<lparr>payload_length := of_nat (length (tlvs_bytes (entries m)))\<rparr>)"
proof (cases "payload_length m = 0")
  case True
  then show ?thesis using plen_entries assms(1,2) by blast
next
  case False
  then show ?thesis using plen_cached [OF False] assms(3) by auto
qed

lemma written_bytes:
  assumes "packet_version m = 1" and "packet_type m = ty" and "\<not> hasSignature m"
    and "payload_length m = 0 \<or> payload_length m = of_nat (length (tlvs_bytes (entries m)))"
    and "counted m"
  defines "q \<equiv> m\<lparr>payload_length := of_nat (length (tlvs_bytes (entries m)))\<rparr>"
  shows "writePacket plen payload m [] =
           ([1, ty] @ header_bytes q @ tlvs_bytes (entries m) @ [0], q)"
proof -
  have "writePacket plen payload m [] =
      ([1, packet_type m] @ header_bytes q @ tlvs_bytes (entries m) @ [0], q)"
    using plen_of_entries [OF assms(2,5,4)] payload_entries [of _ q]
    by (intro writePacket_v1 [OF assms(1,3)]) (simp_all add: q_def entries_update)
  then show ?thesis by (simp only: assms(2))
qed

theorem written_is_read:
  assumes "packet_version m = 1" and "packet_type m = ty" and "\<not> hasSignature m"
    and "payload_length m = 0 \<or> payload_length m = of_nat (length (tlvs_bytes (entries m)))"
    and "counted m" and "entries m \<noteq> []"
    and packet: "writePacket plen payload m [] = (packet, q)"
    and size: "length packet \<le> n" "n \<le> length (packet @ behind)" "n < 65536"
  shows "\<exists>r1 r2 r3. read_uint8 (packet_reader packet behind n) = (1, r1) \<and>
           read_uint8 r1 = (ty, r2) \<and>
           packet_read blank ty step plen 1 r2 =
             Some (fold put_entry (entries m) (header_on_wire blank ty q), r3)"
proof -
  define es where "es = entries m"
  note written = written_bytes [OF assms(1-5), folded es_def]
  define h where "h = header_on_wire blank ty q"
  from packet written have q: "q = m\<lparr>payload_length := of_nat (length (tlvs_bytes es))\<rparr>"
    by simp
  with packet written have pk: "packet = [1, ty] @ header_bytes q @ tlvs_bytes es @ [0]"
    by simp
  have L: "unat (payload_length q) = length (tlvs_bytes es)"
    using entries_short [of m] by (simp add: q es_def unat_of_nat_u32)
  define r where "r = packet_reader packet behind n"
  define r2 where "r2 = advance (advance r (Suc 0)) (Suc 0)"
  define r3 where "r3 = advance r2 (length (header_bytes q))"
  have "unat (payload_length q) < 65536" using L entries_short [of m] by (simp add: es_def)
  note frame = packet_frame [OF pk size this, folded r_def, folded r2_def, folded r3_def]
  have base: "Base_read blank ty 1 r2 = (h, r3)"
    using frame(3) [of blank] by (simp add: h_def header_on_wire_def)
  have good: "\<forall>e \<in> set es. good e" using entries_good by (simp add: es_def)
  have "tlv_loop step malformed plen (read_remainder_len r3) r3 h =
      Some (fold put_entry es h, advance r3 (length (tlvs_bytes es)))"
    using frame(4,5) assms(6) good L tlvs_bytes_Nil_iff [of es] reader_at_def [of r3]
    by (intro loop_reads_entries [where rest = "[0]"])
      (auto simp: unat_eq_0 [symmetric] h_def es_def simp del: concat_eq_Nil_conv)
  moreover have "handleReaderRemainder (fold put_entry es h) r' = (fold put_entry es h, r')" for r'
    using assms(3) flags_fold(1) [OF good]
    by (simp add: handleReaderRemainder_def hasSignature_def h_def q)
  ultimately show ?thesis
    using frame(1,2) base
    by (simp add: packet_read_def r_def [symmetric] es_def [symmetric] h_def [symmetric])
qed

end

end
