(* ===== verification/Message_Packet.thy ===== *)
theory Message_Packet
  imports Packet_Class
begin

section \<open>Message: the packet that carries an alert\<close>

text \<open>
  \<^verbatim>\<open>class Message : public Base\<close>. \<open>Message\<close> declares a \<open>sender_peer\<close> of its own that
  shadows the one of \<^verbatim>\<open>Base\<close>; it is the field \<open>msg_sender_peer\<close>.
\<close>

record message = base +
  message_id :: bytes
  sender_nickname :: bytes
  content :: bytes
  reply_id :: u32
  message_flags :: u8
  msg_sender_peer :: "u64 option"
  channel :: bytes
  msg_latitude_i :: i32
  msg_longitude_i :: i32
  msg_altitude :: i32

text \<open>The member initialisers of both classes.\<close>

definition Message_blank :: message where
  "Message_blank =
     \<lparr>malformed = False, packet_version = 1, packet_type = 0, packet_ttl = 0,
      packet_timestamp_ms = 0, packet_flags = 0, sending_connection_handle = 0,
      payload_length = 0, packet_sender_id = 0, packet_recipient_id = 0,
      sender_peer = None, routeList = [], signature = [],
      message_id = [], sender_nickname = [], content = [], reply_id = 0, message_flags = 0,
      msg_sender_peer = None, channel = [], msg_latitude_i = 0, msg_longitude_i = 0,
      msg_altitude = 0\<rparr>"

definition Message_init :: message where
  "Message_init = Base_init Message_blank type_message"

definition Message_init5 :: "u8 \<Rightarrow> u64 \<Rightarrow> u8 \<Rightarrow> u64 \<Rightarrow> u64 \<Rightarrow> message" where
  "Message_init5 ttl timestamp flags sender recipient =
     Base_init6 Message_blank type_message ttl timestamp flags sender recipient"

subsection \<open>Setters\<close>

definition setMessageId :: "message \<Rightarrow> bytes \<Rightarrow> message" where
  "setMessageId m string = m\<lparr>message_id := string\<rparr>"

definition setSenderNickname :: "message \<Rightarrow> bytes \<Rightarrow> message" where
  "setSenderNickname m string = m\<lparr>sender_nickname := string\<rparr>"

definition setContent :: "message \<Rightarrow> bytes \<Rightarrow> message" where
  "setContent m string = setPayloadLength (m\<lparr>content := string\<rparr>) 0"

definition setChannel :: "message \<Rightarrow> bytes \<Rightarrow> message" where
  "setChannel m string = m\<lparr>channel := string\<rparr>"

definition setReplyId :: "message \<Rightarrow> u32 \<Rightarrow> message" where
  "setReplyId m reply_to_id = m\<lparr>reply_id := reply_to_id\<rparr>"

definition setEmoji :: "message \<Rightarrow> bool \<Rightarrow> message" where
  "setEmoji m cond =
     (if cond then m\<lparr>message_flags := message_flags m OR message_flag_emoji\<rparr>
      else m\<lparr>message_flags := message_flags m AND NOT message_flag_emoji\<rparr>)"

definition Message_setLatitudeI :: "message \<Rightarrow> i32 \<Rightarrow> message" where
  "Message_setLatitudeI m v = m\<lparr>msg_latitude_i := v\<rparr>"

definition Message_setLongitudeI :: "message \<Rightarrow> i32 \<Rightarrow> message" where
  "Message_setLongitudeI m v = m\<lparr>msg_longitude_i := v\<rparr>"

definition Message_setAltitude :: "message \<Rightarrow> i32 \<Rightarrow> message" where
  "Message_setAltitude m v = m\<lparr>msg_altitude := v\<rparr>"

subsection \<open>Writing\<close>

definition Message_getPayloadLength :: "message \<Rightarrow> u32 \<times> message" where
  "Message_getPayloadLength m =
     (if payload_length m > 0 then (payload_length m, m)
      else
        let l0 = 0;
            l1 = (if message_id m \<noteq> []
                  then l0 + variableLength m tlv_message_id (length (message_id m)) else l0);
            l2 = (if sender_nickname m \<noteq> []
                  then l1 + variableLength m tlv_message_sender_nickname
                              (length (sender_nickname m)) else l1);
            l3 = (if channel m \<noteq> []
                  then let k = l2 + variableLength m tlv_message_channel (length (channel m))
                       in (if content m \<noteq> []
                           then k + variableLength m tlv_message_channel_content
                                      (length (content m)) else k)
                  else (if content m \<noteq> []
                        then l2 + variableLength m tlv_message_content (length (content m))
                        else l2));
            l4 = (if message_flags m > 0
                  then l3 + variableLength m tlv_message_flags 1 else l3);
            l5 = (if reply_id m > 0
                  then l4 + variableLength m tlv_message_reply_to_id 4 else l4);
            l6 = (if msg_latitude_i m \<noteq> 0
                  then l5 + variableLength m tlv_message_location_latitude 4 else l5);
            l7 = (if msg_longitude_i m \<noteq> 0
                  then l6 + variableLength m tlv_message_location_longitude 4 else l6);
            l8 = (if msg_altitude m \<noteq> 0
                  then l7 + variableLength m tlv_message_location_altitude 4 else l7)
        in (l8, setPayloadLength m l8))"

definition Message_writePacketPayload :: "bytes \<Rightarrow> message \<Rightarrow> bytes" where
  "Message_writePacketPayload v0 m =
     (let v1 = (if message_id m \<noteq> [] then writeVariable v0 tlv_message_id (message_id m)
                else v0);
          v2 = (if sender_nickname m \<noteq> []
                then writeVariable v1 tlv_message_sender_nickname (sender_nickname m) else v1);
          v3 = (if channel m \<noteq> [] \<and> content m \<noteq> []
                then writeVariable (writeVariable v2 tlv_message_channel (channel m))
                       tlv_message_channel_content (content m)
                else if content m \<noteq> []
                then writeVariable v2 tlv_message_content (content m)
                else v2);
          v4 = (if message_flags m > 0
                then writeVariable_uint8 v3 tlv_message_flags (message_flags m) else v3);
          v5 = (if reply_id m > 0
                then writeVariable_uint32 v4 tlv_message_reply_to_id (reply_id m) else v4);
          v6 = (if msg_latitude_i m \<noteq> 0
                then writeVariable_int32 v5 tlv_message_location_latitude (msg_latitude_i m)
                else v5);
          v7 = (if msg_longitude_i m \<noteq> 0
                then writeVariable_int32 v6 tlv_message_location_longitude (msg_longitude_i m)
                else v6)
      in (if msg_altitude m \<noteq> 0
          then writeVariable_int32 v7 tlv_message_location_altitude (msg_altitude m)
          else v7))"

definition Message_writePacket :: "message \<Rightarrow> bytes \<times> message" where
  "Message_writePacket m =
     writePacket Message_getPayloadLength Message_writePacketPayload m []"

subsection \<open>Reading\<close>

text \<open>One run of the loop body of the reading constructor.\<close>

definition message_tlv_step :: "binary_reader \<Rightarrow> message \<Rightarrow> message \<times> binary_reader" where
  "message_tlv_step r m =
     (let (data_type, r1) = read_uint8 r;
          (data_length, r2) = read_uint8 r1
      in if data_type = tlv_message_flags then
           (if data_length = 1
            then let (v, r3) = read_uint8 r2 in (m\<lparr>message_flags := v\<rparr>, r3)
            else (setMalformed m True, r2))
         else if data_type = tlv_message_reply_to_id then
           (if data_length = 4
            then let (v, r3) = read_uint32 r2 in (m\<lparr>reply_id := v\<rparr>, r3)
            else (setMalformed m True, r2))
         else if data_type = tlv_message_location_latitude then
           (if data_length = 4
            then let (v, r3) = read_int32 r2 in (m\<lparr>msg_latitude_i := v\<rparr>, r3)
            else (setMalformed m True, r2))
         else if data_type = tlv_message_location_longitude then
           (if data_length = 4
            then let (v, r3) = read_int32 r2 in (m\<lparr>msg_longitude_i := v\<rparr>, r3)
            else (setMalformed m True, r2))
         else if data_type = tlv_message_location_altitude then
           (if data_length = 4
            then let (v, r3) = read_int32 r2 in (m\<lparr>msg_altitude := v\<rparr>, r3)
            else (setMalformed m True, r2))
         else
           (case read_data (ucast data_length) r2 of
              (data, r3) \<Rightarrow>
                (case data of
                   None \<Rightarrow> (setMalformed m True, r3)
                 | Some data \<Rightarrow>
                     (if data_type = tlv_message_id then (m\<lparr>message_id := data\<rparr>, r3)
                      else if data_type = tlv_message_content then (m\<lparr>content := data\<rparr>, r3)
                      else if data_type = tlv_message_sender_nickname
                           then (m\<lparr>sender_nickname := data\<rparr>, r3)
                      else if data_type = tlv_message_channel then (m\<lparr>channel := data\<rparr>, r3)
                      else if data_type = tlv_message_channel_content
                           then (m\<lparr>content := data\<rparr>, r3)
                      else (m, r3)))))"

definition Message_read :: "u8 \<Rightarrow> binary_reader \<Rightarrow> (message \<times> binary_reader) option" where
  "Message_read version r =
     (let (m0, r1) = Base_read Message_blank type_message version r;
          tail = read_remainder_len r1
      in case tlv_loop message_tlv_step malformed Message_getPayloadLength tail r1 m0 of
           None \<Rightarrow> None
         | Some (m1, r2) \<Rightarrow> Some (handleReaderRemainder m1 r2))"

subsection \<open>The loop ends and reads inside the buffer\<close>

interpretation msg_step: tlv_step message_tlv_step malformed
proof (unfold_locales, goal_cases)
  case (1 r m)
  show ?case
    unfolding message_tlv_step_def Let_def
    by (rule moves_weaken, (rule moves_rules)+) simp_all
next
  case (2 r m)
  then show ?case
    by (simp add: message_tlv_step_def reads_past_end setMalformed_def)
next
  case (3 r s m)
  then show ?case
    unfolding message_tlv_step_def Let_def
    by (intro agree_rules)
qed

subsection \<open>What a message is on the wire\<close>

text \<open>
  The entries \<open>writePacketPayload\<close> writes, in order. Strings are cut at 255 bytes.
\<close>

definition message_entries :: "message \<Rightarrow> (u8 \<times> bytes) list" where
  "message_entries m =
     (if message_id m \<noteq> [] then [(tlv_message_id, take 255 (message_id m))] else []) @
     (if sender_nickname m \<noteq> []
      then [(tlv_message_sender_nickname, take 255 (sender_nickname m))] else []) @
     (if channel m \<noteq> [] \<and> content m \<noteq> []
      then [(tlv_message_channel, take 255 (channel m)),
            (tlv_message_channel_content, take 255 (content m))]
      else if content m \<noteq> [] then [(tlv_message_content, take 255 (content m))] else []) @
     (if message_flags m > 0
      then [(tlv_message_flags, write_uint8 [] (message_flags m))] else []) @
     (if reply_id m > 0
      then [(tlv_message_reply_to_id, write_uint32 [] (reply_id m))] else []) @
     (if msg_latitude_i m \<noteq> 0
      then [(tlv_message_location_latitude, write_int32 [] (msg_latitude_i m))] else []) @
     (if msg_longitude_i m \<noteq> 0
      then [(tlv_message_location_longitude, write_int32 [] (msg_longitude_i m))] else []) @
     (if msg_altitude m \<noteq> 0
      then [(tlv_message_location_altitude, write_int32 [] (msg_altitude m))] else [])"

lemma Message_payload_entries:
  "Message_writePacketPayload v m = v @ tlvs_bytes (message_entries m)"
  unfolding Message_writePacketPayload_def message_entries_def wire if_append_else
    if_append_else3 Let_def
  by simp

definition message_good :: "u8 \<times> bytes \<Rightarrow> bool" where
  "message_good e \<longleftrightarrow> length (snd e) \<le> 255 \<and>
     (fst e = tlv_message_flags \<longrightarrow> length (snd e) = 1) \<and>
     (fst e \<in> {tlv_message_reply_to_id, tlv_message_location_latitude,
        tlv_message_location_longitude, tlv_message_location_altitude} \<longrightarrow> length (snd e) = 4)"

text \<open>What the loop body does with one well-formed entry.\<close>

definition message_put :: "u8 \<times> bytes \<Rightarrow> message \<Rightarrow> message" where
  "message_put e m =
     (case e of (t, v) \<Rightarrow>
        if t = tlv_message_flags then m\<lparr>message_flags := hd v\<rparr>
        else if t = tlv_message_reply_to_id then m\<lparr>reply_id := be32 v\<rparr>
        else if t = tlv_message_location_latitude then m\<lparr>msg_latitude_i := be32 v\<rparr>
        else if t = tlv_message_location_longitude then m\<lparr>msg_longitude_i := be32 v\<rparr>
        else if t = tlv_message_location_altitude then m\<lparr>msg_altitude := be32 v\<rparr>
        else if t = tlv_message_id then m\<lparr>message_id := v\<rparr>
        else if t = tlv_message_content then m\<lparr>content := v\<rparr>
        else if t = tlv_message_sender_nickname then m\<lparr>sender_nickname := v\<rparr>
        else if t = tlv_message_channel then m\<lparr>channel := v\<rparr>
        else if t = tlv_message_channel_content then m\<lparr>content := v\<rparr>
        else m)"

interpretation msg_entries: tlv_entries message_tlv_step malformed Message_getPayloadLength
  payload_length message_good message_put
proof (unfold_locales, goal_cases)
  case (1 e r rest m)
  obtain t v where e: "e = (t, v)" by (cases e)
  have len: "length v \<le> 255" using 1(1) by (simp add: e message_good_def)
  note at = 1(2) [unfolded e]
  note head = entry_head(1,2) [OF at len] and data = entry_head(4) [OF at len]
  have four: "read_uint32 (advance r 2) = (be32 v, advance r 6)"
    "read_int32 (advance r 2) = (be32 v, advance r 6)" if "length v = 4"
    using be32_read [OF entry_head(3) [OF at len] that] by (simp_all add: advance_advance)
  have one: "read_uint8 (advance r 2) = (hd v, advance r 3)" if single: "length v = 1"
  proof -
    obtain x where "v = [x]" using single by (cases v) auto
    then show ?thesis
      using u8c.get_at [of "advance r 2" x rest] entry_head(3) [OF at len]
      by (simp add: write_uint8_def advance_advance)
  qed
  show ?case
    using 1(1) head data four one
    by (auto simp: e message_tlv_step_def message_put_def message_good_def)
next
  case (2 e m)
  then show ?case by (simp add: message_put_def split: prod.split)
next
  case (3 e m)
  then show ?case by (simp add: message_put_def split: prod.split)
next
  case (4 m)
  then show ?case by (simp add: Message_getPayloadLength_def word_gt_0)
qed

lemma message_entries_good: "\<forall>e \<in> set (message_entries m). message_good e"
  unfolding message_entries_def message_good_def
  by (auto split: if_splits)

lemma message_entries_length: "length (tlvs_bytes (message_entries m)) \<le> 2570"
proof -
  have "length (message_entries m) \<le> 10"
    by (simp add: message_entries_def)
  moreover have "length (tlvs_bytes (message_entries m)) \<le> 257 * length (message_entries m)"
    using message_entries_good [of m] by (intro tlvs_bytes_le) (auto simp: message_good_def)
  ultimately show ?thesis by linarith
qed

text \<open>
  \<open>getPayloadLength\<close> announces the number of bytes \<open>writePacketPayload\<close> writes, unless the
  message has a channel and no content.
\<close>

lemma Message_length_entries:
  assumes "payload_length m = 0" and "packet_type m = type_message"
    and "channel m = [] \<or> content m \<noteq> []"
  shows "Message_getPayloadLength m =
           (of_nat (length (tlvs_bytes (message_entries m))),
            m\<lparr>payload_length := of_nat (length (tlvs_bytes (message_entries m)))\<rparr>)"
proof -
  have var: "variableLength m ty n = of_nat (2 + min 255 n)" for ty n
    using assms(2) by (simp add: variableLength_of_nat)
  have "fst (Message_getPayloadLength m) = of_nat (length (tlvs_bytes (message_entries m)))"
    using assms(1,3)
    unfolding Message_getPayloadLength_def message_entries_def var if_add_else Let_def
    by (auto simp: of_nat_if if_distrib [of length] concat_map_if min.commute)
  then show ?thesis
    using assms(1) by (auto simp: Message_getPayloadLength_def Let_def setPayloadLength_def)
qed

subsection \<open>Round trip\<close>

text \<open>
  What a receiver reconstructs: the header fields, every string cut at 255 bytes, and the
  member initialisers for what does not travel.
\<close>

definition message_on_wire :: "message \<Rightarrow> message" where
  "message_on_wire m =
     Message_blank\<lparr>packet_type := type_message, packet_ttl := packet_ttl m,
       packet_timestamp_ms := packet_timestamp_ms m, packet_flags := packet_flags m,
       payload_length := payload_length m, packet_sender_id := packet_sender_id m,
       packet_recipient_id := (if hasPacketRecipient m then packet_recipient_id m else 0),
       message_id := take 255 (message_id m), sender_nickname := take 255 (sender_nickname m),
       content := take 255 (content m), reply_id := reply_id m,
       message_flags := message_flags m, channel := take 255 (channel m),
       msg_latitude_i := msg_latitude_i m, msg_longitude_i := msg_longitude_i m,
       msg_altitude := msg_altitude m\<rparr>"

lemma message_update_same:
  "message_id q = x \<Longrightarrow> q\<lparr>message_id := x\<rparr> = q"
  "sender_nickname q = x \<Longrightarrow> q\<lparr>sender_nickname := x\<rparr> = q"
  "content q = x \<Longrightarrow> q\<lparr>content := x\<rparr> = q"
  "channel q = x \<Longrightarrow> q\<lparr>channel := x\<rparr> = q"
  "message_flags q = y \<Longrightarrow> q\<lparr>message_flags := y\<rparr> = q"
  "reply_id q = z \<Longrightarrow> q\<lparr>reply_id := z\<rparr> = q"
  "msg_latitude_i q = w \<Longrightarrow> q\<lparr>msg_latitude_i := w\<rparr> = q"
  "msg_longitude_i q = w \<Longrightarrow> q\<lparr>msg_longitude_i := w\<rparr> = q"
  "msg_altitude q = w \<Longrightarrow> q\<lparr>msg_altitude := w\<rparr> = q"
  by auto

lemma message_put_pieces:
  fixes q :: message
  shows "message_id q = [] \<Longrightarrow>
      fold message_put (if message_id m \<noteq> [] then [(tlv_message_id, take 255 (message_id m))]
        else []) q = q\<lparr>message_id := take 255 (message_id m)\<rparr>"
    and "sender_nickname q = [] \<Longrightarrow>
      fold message_put (if sender_nickname m \<noteq> []
        then [(tlv_message_sender_nickname, take 255 (sender_nickname m))] else []) q =
      q\<lparr>sender_nickname := take 255 (sender_nickname m)\<rparr>"
    and "channel q = [] \<Longrightarrow> content q = [] \<Longrightarrow> channel m = [] \<or> content m \<noteq> [] \<Longrightarrow>
      fold message_put (if channel m \<noteq> [] \<and> content m \<noteq> []
        then [(tlv_message_channel, take 255 (channel m)),
              (tlv_message_channel_content, take 255 (content m))]
        else if content m \<noteq> [] then [(tlv_message_content, take 255 (content m))] else []) q =
      q\<lparr>content := take 255 (content m), channel := take 255 (channel m)\<rparr>"
    and "message_flags q = 0 \<Longrightarrow>
      fold message_put (if message_flags m > 0
        then [(tlv_message_flags, write_uint8 [] (message_flags m))] else []) q =
      q\<lparr>message_flags := message_flags m\<rparr>"
    and "reply_id q = 0 \<Longrightarrow>
      fold message_put (if reply_id m > 0
        then [(tlv_message_reply_to_id, write_uint32 [] (reply_id m))] else []) q =
      q\<lparr>reply_id := reply_id m\<rparr>"
    and "msg_latitude_i q = 0 \<Longrightarrow>
      fold message_put (if msg_latitude_i m \<noteq> 0
        then [(tlv_message_location_latitude, write_int32 [] (msg_latitude_i m))] else []) q =
      q\<lparr>msg_latitude_i := msg_latitude_i m\<rparr>"
    and "msg_longitude_i q = 0 \<Longrightarrow>
      fold message_put (if msg_longitude_i m \<noteq> 0
        then [(tlv_message_location_longitude, write_int32 [] (msg_longitude_i m))] else []) q =
      q\<lparr>msg_longitude_i := msg_longitude_i m\<rparr>"
    and "msg_altitude q = 0 \<Longrightarrow>
      fold message_put (if msg_altitude m \<noteq> 0
        then [(tlv_message_location_altitude, write_int32 [] (msg_altitude m))] else []) q =
      q\<lparr>msg_altitude := msg_altitude m\<rparr>"
  by (auto simp: message_put_def write_uint8_def word_gt_0 message_update_same)

lemma Message_read_class:
  "Message_read = packet_read Message_blank type_message message_tlv_step Message_getPayloadLength"
  by (intro ext) (simp add: Message_read_def packet_read_def Let_def)

interpretation msg: packet_class message_tlv_step Message_getPayloadLength message_good message_put
  Message_blank type_message Message_writePacketPayload message_entries
  "\<lambda>m. channel m = [] \<or> content m \<noteq> []"
proof (unfold_locales, goal_cases)
  case (1 e m)
  then show ?case by (simp add: message_put_def split: prod.split)
next
  case (2 v m)
  then show ?case by (rule Message_payload_entries)
next
  case (3 e m)
  then show ?case using message_entries_good [of m] by simp
next
  case (4 m)
  then show ?case using message_entries_length [of m] by simp
next
  case (5 m x)
  then show ?case by (simp add: message_entries_def)
next
  case (6 m)
  then show ?case by (rule Message_length_entries)
qed

lemma message_put_entries:
  assumes "channel m = [] \<or> content m \<noteq> []"
    and "q = m\<lparr>payload_length := x\<rparr>"
  shows "fold message_put (message_entries m) (header_on_wire Message_blank type_message q) =
    message_on_wire q"
  using assms
  by (simp add: message_entries_def message_put_pieces header_on_wire_def Base_init_def
      Message_blank_def message_on_wire_def hasPacketRecipient_def)

lemma message_round_trip_lemma:
  assumes "packet_version m = 1" and "packet_type m = type_message" and "\<not> hasSignature m"
    and "payload_length m = 0 \<or>
         payload_length m = of_nat (length (Message_writePacketPayload [] m))"
    and "channel m = [] \<or> content m \<noteq> []"
    and "Message_writePacketPayload [] m \<noteq> []"
    and "Message_writePacket m = (packet, m')"
    and "length packet \<le> n" and "n \<le> length (packet @ behind)" and "n < 65536"
  shows "\<exists>r1 r2 r3. read_uint8 (packet_reader packet behind n) = (1, r1) \<and>
           read_uint8 r1 = (type_message, r2) \<and>
           Message_read 1 r2 = Some (message_on_wire m', r3)"
proof -
  have entries: "message_entries m \<noteq> []"
    using assms(6) by (auto simp: Message_payload_entries)
  have len: "payload_length m = 0 \<or>
      payload_length m = of_nat (length (tlvs_bytes (message_entries m)))"
    using assms(4) by (simp add: Message_payload_entries)
  note read = msg.written_is_read [OF assms(1-3) len assms(5) entries
      assms(7) [unfolded Message_writePacket_def] assms(8-10)]
  obtain x where "m' = m\<lparr>payload_length := x\<rparr>"
    using msg.written_bytes [OF assms(1-3) len assms(5)] assms(7)
    unfolding Message_writePacket_def by auto
  from message_put_entries [OF assms(5) this] read show ?thesis
    by (simp add: Message_read_class)
qed

text \<open>
  C12: A version 1 message that is written by \<open>writePacket\<close> and put into a receive buffer (of
  \<open>n\<close> readable bytes, whatever follows the packet in memory) is read back by the reading
  constructor with every field it was written with: the header fields, the strings cut at
  255 bytes, the flags, the reply id and the location. This holds for a message composed
  here, whose length is not computed yet, and for one that was read and is passed on, whose
  length is that of its payload.
\<close>

theorem message_round_trip:
  assumes "packet_version m = 1" and "packet_type m = type_message" and "\<not> hasSignature m"
    and "payload_length m = 0 \<or>
         payload_length m = of_nat (length (Message_writePacketPayload [] m))"
    and "channel m = [] \<or> content m \<noteq> []"
    and "Message_writePacketPayload [] m \<noteq> []"
    and "Message_writePacket m = (packet, m')"
    and "length packet \<le> n" and "n \<le> length (packet @ behind)" and "n < 65536"
  shows "\<exists>r1 r2 r3. read_uint8 (packet_reader packet behind n) = (1, r1) \<and>
           read_uint8 r1 = (type_message, r2) \<and>
           Message_read 1 r2 = Some (message_on_wire m', r3)"
  using message_round_trip_lemma [OF assms] .

definition sample_message :: message where
  "sample_message =
     setContent (setMessageId (Message_init5 3 1700000000000 0 0x1122334455667788 0)
       (ascii ''X1'')) (ascii ''SMOKE'')"

theorem message_round_trip_witness:
  "\<exists>r1 r2 r3.
     read_uint8 (packet_reader (fst (Message_writePacket sample_message)) [] 34) = (1, r1) \<and>
     read_uint8 r1 = (type_message, r2) \<and>
     Message_read 1 r2 =
       Some (message_on_wire (snd (Message_writePacket sample_message)), r3)"
proof (rule message_round_trip)
  show "Message_writePacket sample_message =
      (fst (Message_writePacket sample_message), snd (Message_writePacket sample_message))"
    by (rule prod.collapse [symmetric])
  show "(34 :: nat) < 65536" by simp
  show "payload_length sample_message = 0 \<or>
      payload_length sample_message =
        of_nat (length (Message_writePacketPayload [] sample_message))"
    by (rule disjI1) code_simp
qed code_simp+

end
