(* ===== verification/Announce_Packet.thy ===== *)
theory Announce_Packet
  imports Packet_Class
begin

section \<open>Announce: the packet a node introduces itself with\<close>

text \<open>\<^verbatim>\<open>class Announce final : public Base\<close>.\<close>

record announce = base +
  name :: bytes
  noise_public_key :: bytes
  signing_public_key :: bytes
  direct_neighbors :: "u64 list"
  ann_latitude_i :: i32
  ann_longitude_i :: i32
  ann_altitude :: i32

definition Announce_blank :: announce where
  "Announce_blank =
     \<lparr>malformed = False, packet_version = 1, packet_type = 0, packet_ttl = 0,
      packet_timestamp_ms = 0, packet_flags = 0, sending_connection_handle = 0,
      payload_length = 0, packet_sender_id = 0, packet_recipient_id = 0,
      sender_peer = None, routeList = [], signature = [],
      name = [], noise_public_key = [], signing_public_key = [], direct_neighbors = [],
      ann_latitude_i = 0, ann_longitude_i = 0, ann_altitude = 0\<rparr>"

definition Announce_init :: announce where
  "Announce_init = Base_init Announce_blank type_announce"

subsection \<open>Setters\<close>

definition setName :: "announce \<Rightarrow> bytes \<Rightarrow> announce" where
  "setName a v = a\<lparr>name := v\<rparr>"

definition setNoisePublicKey :: "announce \<Rightarrow> bytes \<Rightarrow> announce" where
  "setNoisePublicKey a v = a\<lparr>noise_public_key := v\<rparr>"

definition setSigningPublicKey :: "announce \<Rightarrow> bytes \<Rightarrow> announce" where
  "setSigningPublicKey a v = a\<lparr>signing_public_key := v\<rparr>"

definition Announce_setLatitudeI :: "announce \<Rightarrow> i32 \<Rightarrow> announce" where
  "Announce_setLatitudeI a v = a\<lparr>ann_latitude_i := v\<rparr>"

definition Announce_setLongitudeI :: "announce \<Rightarrow> i32 \<Rightarrow> announce" where
  "Announce_setLongitudeI a v = a\<lparr>ann_longitude_i := v\<rparr>"

definition Announce_setAltitude :: "announce \<Rightarrow> i32 \<Rightarrow> announce" where
  "Announce_setAltitude a v = a\<lparr>ann_altitude := v\<rparr>"

subsection \<open>Writing\<close>

definition Announce_getPayloadLength :: "announce \<Rightarrow> u32 \<times> announce" where
  "Announce_getPayloadLength a =
     (if payload_length a > 0 then (payload_length a, a)
      else
        let l0 = 0;
            l1 = (if length (name a) > 0
                  then l0 + variableLength a tlv_announce_nickname (length (name a)) else l0);
            l2 = (if length (noise_public_key a) > 0
                  then l1 + variableLength a tlv_announce_noise_public_key
                              (length (noise_public_key a)) else l1);
            l3 = (if length (signing_public_key a) > 0
                  then l2 + variableLength a tlv_announce_signing_public_key
                              (length (signing_public_key a)) else l2);
            l4 = (if length (direct_neighbors a) > 0
                  then l3 + variableLength a tlv_announce_direct_neighbors
                              (length (direct_neighbors a)) else l3);
            l5 = (if ann_latitude_i a \<noteq> 0
                  then l4 + variableLength a tlv_announce_location_latitude 4 else l4);
            l6 = (if ann_longitude_i a \<noteq> 0
                  then l5 + variableLength a tlv_announce_location_longitude 4 else l5);
            l7 = (if ann_altitude a \<noteq> 0
                  then l6 + variableLength a tlv_announce_location_altitude 4 else l6)
        in (l7, setPayloadLength a l7))"

text \<open>The location entries are written with the \<^verbatim>\<open>tlv_message_location_*\<close> types.\<close>

definition Announce_writePacketPayload :: "bytes \<Rightarrow> announce \<Rightarrow> bytes" where
  "Announce_writePacketPayload v0 a =
     (let v1 = (if length (name a) > 0
                then writeVariable v0 tlv_announce_nickname (name a) else v0);
          v2 = (if length (noise_public_key a) > 0
                then writeVariable v1 tlv_announce_noise_public_key (noise_public_key a) else v1);
          v3 = (if length (signing_public_key a) > 0
                then writeVariable v2 tlv_announce_signing_public_key (signing_public_key a)
                else v2);
          v4 = (if length (direct_neighbors a) > 0 \<and> length (direct_neighbors a) \<le> 31
                then foldl write_uint64
                       (write_uint8 (write_uint8 v3 tlv_announce_direct_neighbors)
                          (of_nat (min 248 (length (direct_neighbors a) * 8))))
                       (direct_neighbors a)
                else v3);
          v5 = (if ann_latitude_i a \<noteq> 0
                then writeVariable_int32 v4 tlv_message_location_latitude (ann_latitude_i a)
                else v4);
          v6 = (if ann_longitude_i a \<noteq> 0
                then writeVariable_int32 v5 tlv_message_location_longitude (ann_longitude_i a)
                else v5)
      in (if ann_altitude a \<noteq> 0
          then writeVariable_int32 v6 tlv_message_location_altitude (ann_altitude a)
          else v6))"

definition Announce_writePacket :: "announce \<Rightarrow> bytes \<times> announce" where
  "Announce_writePacket a =
     writePacket Announce_getPayloadLength Announce_writePacketPayload a []"

text \<open>\<open>std::hash<std::string>\<close> is a parameter.\<close>

definition getAnnounceHash :: "(bytes \<Rightarrow> nat) \<Rightarrow> announce \<Rightarrow> nat" where
  "getAnnounceHash hash a =
     (let v1 = write_uint8 [] (packet_type a);
          v2 = write_uint8 v1 (packet_flags a);
          v3 = write_uint64 v2 (packet_sender_id a);
          v4 = write_uint64 v3 (packet_recipient_id a);
          v5 = write_int32 v4 (ann_latitude_i a);
          v6 = write_int32 v5 (ann_longitude_i a);
          v7 = write_int32 v6 (ann_altitude a)
      in hash v7)"

subsection \<open>Reading\<close>

text \<open>
  The neighbour list is read by \<open>for (int i = 0; i < data_length; i += 8)\<close>, one run for
  every eight bytes or part of them; \<open>read_uint64\<close> yields 0 past the end.
\<close>

definition announce_tlv_step :: "binary_reader \<Rightarrow> announce \<Rightarrow> announce \<times> binary_reader" where
  "announce_tlv_step r a =
     (let (data_type, r1) = read_uint8 r;
          (data_length, r2) = read_uint8 r1
      in if data_type = tlv_announce_location_latitude then
           (if data_length = 4
            then let (v, r3) = read_int32 r2 in (a\<lparr>ann_latitude_i := v\<rparr>, r3)
            else (setMalformed a True, r2))
         else if data_type = tlv_announce_location_longitude then
           (if data_length = 4
            then let (v, r3) = read_int32 r2 in (a\<lparr>ann_longitude_i := v\<rparr>, r3)
            else (setMalformed a True, r2))
         else if data_type = tlv_announce_location_altitude then
           (if data_length = 4
            then let (v, r3) = read_int32 r2 in (a\<lparr>ann_altitude := v\<rparr>, r3)
            else (setMalformed a True, r2))
         else if data_type = tlv_announce_direct_neighbors then
           (let (ns, r3) = read_many read_uint64 ((unat data_length + 7) div 8) r2
            in (a\<lparr>direct_neighbors := direct_neighbors a @ ns\<rparr>, r3))
         else
           (case read_data (ucast data_length) r2 of
              (data, r3) \<Rightarrow>
                (case data of
                   None \<Rightarrow> (setMalformed a True, r3)
                 | Some data \<Rightarrow>
                     (if data_type = tlv_announce_nickname then (a\<lparr>name := data\<rparr>, r3)
                      else if data_type = tlv_announce_noise_public_key
                           then (a\<lparr>noise_public_key := data\<rparr>, r3)
                      else if data_type = tlv_announce_signing_public_key
                           then (a\<lparr>signing_public_key := data\<rparr>, r3)
                      else (a, r3)))))"

definition Announce_read :: "u8 \<Rightarrow> binary_reader \<Rightarrow> (announce \<times> binary_reader) option" where
  "Announce_read version r =
     (let (a0, r1) = Base_read Announce_blank type_announce version r;
          tail = read_remainder_len r1
      in case tlv_loop announce_tlv_step malformed Announce_getPayloadLength tail r1 a0 of
           None \<Rightarrow> None
         | Some (a1, r2) \<Rightarrow> Some (handleReaderRemainder a1 r2))"

subsection \<open>The loop ends and reads inside the buffer\<close>

lemma moves_read_neighbours [moves_rules]:
  "moves r 0 256 (read_many read_uint64 ((unat (n :: u8) + 7) div 8) r)"
  using unat_u8_less [of n] by (auto simp: moves_def u64c.read_many_advance)

interpretation ann_step: tlv_step announce_tlv_step malformed
proof (unfold_locales, goal_cases)
  case (1 r a)
  show ?case
    unfolding announce_tlv_step_def Let_def
    by (rule moves_weaken, (rule moves_rules)+) simp_all
next
  case (2 r a)
  then show ?case
    by (simp add: announce_tlv_step_def reads_past_end setMalformed_def)
next
  case (3 r s a)
  then show ?case
    unfolding announce_tlv_step_def Let_def
    by (intro agree_rules)
qed

subsection \<open>What an announce is on the wire\<close>

definition announce_entries :: "announce \<Rightarrow> (u8 \<times> bytes) list" where
  "announce_entries a =
     (if length (name a) > 0 then [(tlv_announce_nickname, take 255 (name a))] else []) @
     (if length (noise_public_key a) > 0
      then [(tlv_announce_noise_public_key, take 255 (noise_public_key a))] else []) @
     (if length (signing_public_key a) > 0
      then [(tlv_announce_signing_public_key, take 255 (signing_public_key a))] else []) @
     (if length (direct_neighbors a) > 0 \<and> length (direct_neighbors a) \<le> 31
      then [(tlv_announce_direct_neighbors,
             concat (map (write_uint64 []) (direct_neighbors a)))] else []) @
     (if ann_latitude_i a \<noteq> 0
      then [(tlv_message_location_latitude, write_int32 [] (ann_latitude_i a))] else []) @
     (if ann_longitude_i a \<noteq> 0
      then [(tlv_message_location_longitude, write_int32 [] (ann_longitude_i a))] else []) @
     (if ann_altitude a \<noteq> 0
      then [(tlv_message_location_altitude, write_int32 [] (ann_altitude a))] else [])"

lemma neighbours_entry:
  assumes "length ns \<le> 31"
  shows "foldl write_uint64 (write_uint8 (write_uint8 v tlv_announce_direct_neighbors)
           (of_nat (min 248 (length ns * 8)))) ns =
         v @ tlv_bytes (tlv_announce_direct_neighbors, concat (map (write_uint64 []) ns))"
proof -
  have "length (concat (map (write_uint64 []) ns)) = min 248 (length ns * 8)"
    unfolding u64c.length_puts using assms by simp
  then show ?thesis
    by (simp only: u64c.foldl_put tlv_bytes_def write_uint8_def fst_conv snd_conv) simp
qed

lemma neighbours_if:
  "(if 0 < length ns \<and> length ns \<le> 31
    then foldl write_uint64 (write_uint8 (write_uint8 v tlv_announce_direct_neighbors)
           (of_nat (min 248 (length ns * 8)))) ns
    else v) =
   v @ (if 0 < length ns \<and> length ns \<le> 31
        then tlv_bytes (tlv_announce_direct_neighbors, concat (map (write_uint64 []) ns))
        else [])"
proof (cases "0 < length ns \<and> length ns \<le> 31")
  case True
  then show ?thesis by (simp only: if_True neighbours_entry simp_thms)
next
  case False
  then show ?thesis by (simp only: if_False append_Nil2)
qed

lemma Announce_payload_entries:
  "Announce_writePacketPayload v a = v @ tlvs_bytes (announce_entries a)"
  unfolding Announce_writePacketPayload_def announce_entries_def neighbours_if wire
    if_append_else Let_def
  by simp

definition announce_good :: "u8 \<times> bytes \<Rightarrow> bool" where
  "announce_good e \<longleftrightarrow> length (snd e) \<le> 255 \<and>
     (fst e = tlv_announce_direct_neighbors \<longrightarrow>
        (\<exists>ns. snd e = concat (map (write_uint64 []) ns))) \<and>
     (fst e \<in> {tlv_announce_location_latitude, tlv_announce_location_longitude,
        tlv_announce_location_altitude} \<longrightarrow> length (snd e) = 4)"

definition be64s :: "bytes \<Rightarrow> u64 list" where
  "be64s v = fst (read_many read_uint64 (length v div 8) (BinaryReader 0 v (of_nat (length v))))"

lemma be64s_write:
  assumes "length (concat (map (write_uint64 []) ns)) \<le> 255"
  shows "be64s (concat (map (write_uint64 []) ns)) = ns"
proof -
  define v where "v = concat (map (write_uint64 []) ns)"
  have len: "length v = 8 * length ns" unfolding v_def by (rule u64c.length_puts)
  have "reader_at (BinaryReader 0 v (of_nat (length v))) (concat (map (write_uint64 []) ns) @ [])"
    using assms by (simp add: reader_at_def BinaryReader_def v_def [symmetric] unat_of_nat_u16)
  from u64c.read_many_at [OF this] show ?thesis
    by (simp add: be64s_def v_def [symmetric] len)
qed

definition announce_put :: "u8 \<times> bytes \<Rightarrow> announce \<Rightarrow> announce" where
  "announce_put e a =
     (case e of (t, v) \<Rightarrow>
        if t = tlv_announce_location_latitude then a\<lparr>ann_latitude_i := be32 v\<rparr>
        else if t = tlv_announce_location_longitude then a\<lparr>ann_longitude_i := be32 v\<rparr>
        else if t = tlv_announce_location_altitude then a\<lparr>ann_altitude := be32 v\<rparr>
        else if t = tlv_announce_direct_neighbors
             then a\<lparr>direct_neighbors := direct_neighbors a @ be64s v\<rparr>
        else if t = tlv_announce_nickname then a\<lparr>name := v\<rparr>
        else if t = tlv_announce_noise_public_key then a\<lparr>noise_public_key := v\<rparr>
        else if t = tlv_announce_signing_public_key then a\<lparr>signing_public_key := v\<rparr>
        else a)"

interpretation ann_entries: tlv_entries announce_tlv_step malformed Announce_getPayloadLength
  payload_length announce_good announce_put
proof (unfold_locales, goal_cases)
  case (1 e r rest a)
  obtain t v where e: "e = (t, v)" by (cases e)
  have len: "length v \<le> 255" using 1(1) by (simp add: e announce_good_def)
  note at = 1(2) [unfolded e]
  note head = entry_head(1,2) [OF at len] and data = entry_head(4) [OF at len]
  have four: "read_int32 (advance r 2) = (be32 v, advance r 6)" if "length v = 4"
    using be32_read [OF entry_head(3) [OF at len] that] by (simp add: advance_advance)
  have many: "read_many read_uint64 ((unat (of_nat (length v) :: u8) + 7) div 8) (advance r 2) =
      (be64s v, advance r (2 + length v))" if v: "v = concat (map (write_uint64 []) ns)" for ns
  proof -
    have l: "length v = 8 * length ns" unfolding v by (rule u64c.length_puts)
    have "reader_at (advance r 2) (concat (map (write_uint64 []) ns) @ rest)"
      using entry_head(3) [OF at len] unfolding v .
    note read = u64c.read_many_at [OF this, folded v]
    have "unat (of_nat (length v) :: u8) = 8 * length ns"
      using len l by (subst unat_of_nat_u8) simp_all
    then have count: "(unat (of_nat (length v) :: u8) + 7) div 8 = length ns" by simp
    have "be64s v = ns" using be64s_write [of ns] len by (simp add: v [symmetric])
    then show ?thesis unfolding count using read l by (simp add: advance_advance)
  qed
  show ?case
  proof (cases "t = tlv_announce_direct_neighbors")
    case True
    then obtain ns where "v = concat (map (write_uint64 []) ns)"
      using 1(1) by (auto simp: e announce_good_def)
    from many [OF this] True show ?thesis
      by (simp add: e announce_tlv_step_def announce_put_def head del: One_nat_def)
  next
    case False
    then show ?thesis
      using 1(1) head data four
      by (auto simp: e announce_tlv_step_def announce_put_def announce_good_def)
  qed
next
  case (2 e a)
  then show ?case by (simp add: announce_put_def split: prod.split)
next
  case (3 e a)
  then show ?case by (simp add: announce_put_def split: prod.split)
next
  case (4 a)
  then show ?case by (simp add: Announce_getPayloadLength_def word_gt_0)
qed

lemma announce_entries_good: "\<forall>e \<in> set (announce_entries a). announce_good e"
  unfolding announce_entries_def announce_good_def
  by (auto simp: u64c.length_puts split: if_splits)

lemma announce_entries_length: "length (tlvs_bytes (announce_entries a)) \<le> 1799"
proof -
  have "length (announce_entries a) \<le> 7"
    by (simp add: announce_entries_def)
  moreover have "length (tlvs_bytes (announce_entries a)) \<le> 257 * length (announce_entries a)"
    using announce_entries_good [of a] by (intro tlvs_bytes_le) (auto simp: announce_good_def)
  ultimately show ?thesis by linarith
qed

text \<open>
  \<open>getPayloadLength\<close> announces the number of bytes \<open>writePacketPayload\<close> writes, for at most
  31 neighbours; a longer list is counted as 248 bytes and not written at all.
\<close>

lemma Announce_length_entries:
  assumes "payload_length a = 0" and "packet_type a = type_announce"
    and "length (direct_neighbors a) \<le> 31"
  shows "Announce_getPayloadLength a =
           (of_nat (length (tlvs_bytes (announce_entries a))),
            a\<lparr>payload_length := of_nat (length (tlvs_bytes (announce_entries a)))\<rparr>)"
proof -
  have var: "variableLength a ty n = of_nat (2 + min 255 n)"
    if "ty \<noteq> tlv_announce_direct_neighbors" for ty n
    using that by (simp add: variableLength_of_nat)
  have nb: "variableLength a tlv_announce_direct_neighbors (length (direct_neighbors a)) =
      of_nat (2 + length (concat (map (write_uint64 []) (direct_neighbors a))))"
  proof (rule unsigned_word_eqI [where ?'a = nat], unfold u64c.length_puts)
    have "unat (of_nat (2 + 8 * length (direct_neighbors a)) :: u32) =
        2 + 8 * length (direct_neighbors a)"
      using assms(3) by (intro unat_of_nat_u32) simp
    then show "unat (variableLength a tlv_announce_direct_neighbors (length (direct_neighbors a))) =
        unat (of_nat (2 + 8 * length (direct_neighbors a)) :: u32)"
      using assms(2,3) by (simp only: unat_variableLength) simp
  qed
  have "fst (Announce_getPayloadLength a) = of_nat (length (tlvs_bytes (announce_entries a)))"
    using assms(1,3)
    unfolding Announce_getPayloadLength_def announce_entries_def if_add_else Let_def nb
    by (auto simp: var of_nat_if if_distrib [of length] concat_map_if min.commute)
  then show ?thesis
    using assms(1) by (auto simp: Announce_getPayloadLength_def Let_def setPayloadLength_def)
qed

subsection \<open>Round trip\<close>

text \<open>What a receiver reconstructs. The location does not survive.\<close>

definition announce_on_wire :: "announce \<Rightarrow> announce" where
  "announce_on_wire a =
     Announce_blank\<lparr>packet_type := type_announce, packet_ttl := packet_ttl a,
       packet_timestamp_ms := packet_timestamp_ms a, packet_flags := packet_flags a,
       payload_length := payload_length a, packet_sender_id := packet_sender_id a,
       packet_recipient_id := (if hasPacketRecipient a then packet_recipient_id a else 0),
       name := take 255 (name a), noise_public_key := take 255 (noise_public_key a),
       signing_public_key := take 255 (signing_public_key a),
       direct_neighbors := direct_neighbors a\<rparr>"

lemma announce_update_same:
  "name q = x \<Longrightarrow> q\<lparr>name := x\<rparr> = q"
  "noise_public_key q = x \<Longrightarrow> q\<lparr>noise_public_key := x\<rparr> = q"
  "signing_public_key q = x \<Longrightarrow> q\<lparr>signing_public_key := x\<rparr> = q"
  "direct_neighbors q = y \<Longrightarrow> q\<lparr>direct_neighbors := y\<rparr> = q"
  by auto

lemma announce_put_pieces:
  fixes q :: announce
  shows "name q = [] \<Longrightarrow>
      fold announce_put (if length (name a) > 0
        then [(tlv_announce_nickname, take 255 (name a))] else []) q =
      q\<lparr>name := take 255 (name a)\<rparr>"
    and "noise_public_key q = [] \<Longrightarrow>
      fold announce_put (if length (noise_public_key a) > 0
        then [(tlv_announce_noise_public_key, take 255 (noise_public_key a))] else []) q =
      q\<lparr>noise_public_key := take 255 (noise_public_key a)\<rparr>"
    and "signing_public_key q = [] \<Longrightarrow>
      fold announce_put (if length (signing_public_key a) > 0
        then [(tlv_announce_signing_public_key, take 255 (signing_public_key a))] else []) q =
      q\<lparr>signing_public_key := take 255 (signing_public_key a)\<rparr>"
    and "direct_neighbors q = [] \<Longrightarrow> length (direct_neighbors a) \<le> 31 \<Longrightarrow>
      fold announce_put (if length (direct_neighbors a) > 0 \<and> length (direct_neighbors a) \<le> 31
        then [(tlv_announce_direct_neighbors,
               concat (map (write_uint64 []) (direct_neighbors a)))] else []) q =
      q\<lparr>direct_neighbors := direct_neighbors a\<rparr>"
    and "fold announce_put (if ann_latitude_i a \<noteq> 0
        then [(tlv_message_location_latitude, write_int32 [] (ann_latitude_i a))] else []) q = q"
    and "fold announce_put (if ann_longitude_i a \<noteq> 0
        then [(tlv_message_location_longitude, write_int32 [] (ann_longitude_i a))] else []) q = q"
    and "fold announce_put (if ann_altitude a \<noteq> 0
        then [(tlv_message_location_altitude, write_int32 [] (ann_altitude a))] else []) q = q"
  by (auto simp: announce_put_def announce_update_same be64s_write u64c.length_puts)

lemma Announce_read_class:
  "Announce_read =
     packet_read Announce_blank type_announce announce_tlv_step Announce_getPayloadLength"
  by (intro ext) (simp add: Announce_read_def packet_read_def Let_def)

interpretation ann: packet_class announce_tlv_step Announce_getPayloadLength announce_good
  announce_put Announce_blank type_announce Announce_writePacketPayload announce_entries
  "\<lambda>a. length (direct_neighbors a) \<le> 31"
proof (unfold_locales, goal_cases)
  case (1 e a)
  then show ?case by (simp add: announce_put_def split: prod.split)
next
  case (2 v a)
  then show ?case by (rule Announce_payload_entries)
next
  case (3 e a)
  then show ?case using announce_entries_good [of a] by simp
next
  case (4 a)
  then show ?case using announce_entries_length [of a] by simp
next
  case (5 a x)
  then show ?case by (simp add: announce_entries_def)
next
  case (6 a)
  then show ?case by (rule Announce_length_entries)
qed

lemma announce_put_neighbours:
  "length ns \<le> 31 \<Longrightarrow> announce_put (tlv_announce_direct_neighbors, concat (map (write_uint64 []) ns)) q =
     q\<lparr>direct_neighbors := direct_neighbors q @ ns\<rparr>"
  by (simp add: announce_put_def be64s_write u64c.length_puts)

lemma announce_put_entries:
  assumes "length (direct_neighbors a) \<le> 31"
    and "q = a\<lparr>payload_length := x\<rparr>"
  shows "fold announce_put (announce_entries a) (header_on_wire Announce_blank type_announce q) =
    announce_on_wire q"
  using assms
  by (simp add: announce_entries_def announce_put_pieces [simplified] announce_put_neighbours
      header_on_wire_def
      Base_init_def Announce_blank_def announce_on_wire_def hasPacketRecipient_def)

lemma announce_round_trip_lemma:
  assumes "packet_version a = 1" and "packet_type a = type_announce" and "\<not> hasSignature a"
    and "payload_length a = 0 \<or>
         payload_length a = of_nat (length (Announce_writePacketPayload [] a))"
    and "length (direct_neighbors a) \<le> 31"
    and "Announce_writePacketPayload [] a \<noteq> []"
    and "Announce_writePacket a = (packet, a')"
    and "length packet \<le> n" and "n \<le> length (packet @ behind)" and "n < 65536"
  shows "\<exists>r1 r2 r3. read_uint8 (packet_reader packet behind n) = (1, r1) \<and>
           read_uint8 r1 = (type_announce, r2) \<and>
           Announce_read 1 r2 = Some (announce_on_wire a', r3)"
proof -
  have entries: "announce_entries a \<noteq> []"
    using assms(6) by (auto simp: Announce_payload_entries)
  have len: "payload_length a = 0 \<or>
      payload_length a = of_nat (length (tlvs_bytes (announce_entries a)))"
    using assms(4) by (simp add: Announce_payload_entries)
  note read = ann.written_is_read [OF assms(1-3) len assms(5) entries
      assms(7) [unfolded Announce_writePacket_def] assms(8-10)]
  obtain x where "a' = a\<lparr>payload_length := x\<rparr>"
    using ann.written_bytes [OF assms(1-3) len assms(5)] assms(7)
    unfolding Announce_writePacket_def by auto
  from announce_put_entries [OF assms(5) this] read show ?thesis
    by (simp add: Announce_read_class)
qed

text \<open>
  C17: An announce with at most 31 neighbours that is written by \<open>writePacket\<close> is read back,
  from any buffer that holds it, with its header fields, its name and keys (cut at 255 bytes)
  and its neighbours. The location does not survive: it is written under the message's type
  bytes, which the reading constructor of the announce skips, so a receiver sees 0, 0, 0.
\<close>

theorem announce_round_trip:
  assumes "packet_version a = 1" and "packet_type a = type_announce" and "\<not> hasSignature a"
    and "payload_length a = 0 \<or>
         payload_length a = of_nat (length (Announce_writePacketPayload [] a))"
    and "length (direct_neighbors a) \<le> 31"
    and "Announce_writePacketPayload [] a \<noteq> []"
    and "Announce_writePacket a = (packet, a')"
    and "length packet \<le> n" and "n \<le> length (packet @ behind)" and "n < 65536"
  shows "\<exists>r1 r2 r3. read_uint8 (packet_reader packet behind n) = (1, r1) \<and>
           read_uint8 r1 = (type_announce, r2) \<and>
           Announce_read 1 r2 = Some (announce_on_wire a', r3)"
  using announce_round_trip_lemma [OF assms] .

definition sample_announce :: announce where
  "sample_announce =
     Announce_setLatitudeI (setName (setPacketSenderId (setPacketTtl Announce_init 3)
       0x1122334455667788) (ascii ''SmokeDetector:77'')) 515074000\<lparr>direct_neighbors := [7, 9]\<rparr>"

theorem announce_round_trip_witness:
  "\<exists>r1 r2 r3.
     read_uint8 (packet_reader (fst (Announce_writePacket sample_announce)) [1, 2] 67) = (1, r1) \<and>
     read_uint8 r1 = (type_announce, r2) \<and>
     Announce_read 1 r2 =
       Some (announce_on_wire (snd (Announce_writePacket sample_announce)), r3)"
proof (rule announce_round_trip)
  show "Announce_writePacket sample_announce =
      (fst (Announce_writePacket sample_announce), snd (Announce_writePacket sample_announce))"
    by (rule prod.collapse [symmetric])
  show "(67 :: nat) < 65536" by simp
  show "payload_length sample_announce = 0 \<or>
      payload_length sample_announce =
        of_nat (length (Announce_writePacketPayload [] sample_announce))"
    by (rule disjI1) code_simp
qed code_simp+

end
