(* ===== verification/Preferences_Packet.thy ===== *)
theory Preferences_Packet
  imports Packet_Class
begin

section \<open>MicroMeshPreferences: the settings of a node\<close>

text \<open>
  \<^verbatim>\<open>class MicroMeshPreferences final : public Base\<close>. The same packet travels between nodes
  and is stored in the last flash sector.
\<close>

record preferences = base +
  key :: bytes
  ssid :: bytes
  password :: bytes
  latitude_i :: i32
  longitude_i :: i32
  altitude :: i32

definition Preferences_blank :: preferences where
  "Preferences_blank =
     \<lparr>malformed = False, packet_version = 1, packet_type = 0, packet_ttl = 0,
      packet_timestamp_ms = 0, packet_flags = 0, sending_connection_handle = 0,
      payload_length = 0, packet_sender_id = 0, packet_recipient_id = 0,
      sender_peer = None, routeList = [], signature = [],
      key = [], ssid = [], password = [], latitude_i = 0, longitude_i = 0, altitude = 0\<rparr>"

definition Preferences_init :: preferences where
  "Preferences_init = Base_init Preferences_blank type_micro_mesh_preferences"

text \<open>\<open>operator==\<close>; \<^verbatim>\<open>operator!=\<close> is its negation.\<close>

definition preferences_eq :: "preferences \<Rightarrow> preferences \<Rightarrow> bool" where
  "preferences_eq p other \<longleftrightarrow>
     key p = key other \<and> ssid p = ssid other \<and> password p = password other \<and>
     latitude_i p = latitude_i other \<and> longitude_i p = longitude_i other \<and>
     altitude p = altitude other"

subsection \<open>Setters\<close>

text \<open>The string setters take a \<open>const char *\<close>, which ends at its first 0.\<close>

definition c_str :: "bytes \<Rightarrow> bytes" where
  "c_str s = takeWhile (\<lambda>b. b \<noteq> 0) s"

definition setKey :: "preferences \<Rightarrow> bytes \<Rightarrow> preferences" where
  "setKey p v = p\<lparr>key := c_str v\<rparr>"

definition setSsid :: "preferences \<Rightarrow> bytes \<Rightarrow> preferences" where
  "setSsid p v = p\<lparr>ssid := c_str v\<rparr>"

definition setPassword :: "preferences \<Rightarrow> bytes \<Rightarrow> preferences" where
  "setPassword p v = p\<lparr>password := c_str v\<rparr>"

definition setLatitudeI :: "preferences \<Rightarrow> i32 \<Rightarrow> preferences" where
  "setLatitudeI p v = p\<lparr>latitude_i := v\<rparr>"

definition setLongitudeI :: "preferences \<Rightarrow> i32 \<Rightarrow> preferences" where
  "setLongitudeI p v = p\<lparr>longitude_i := v\<rparr>"

definition setAltitude :: "preferences \<Rightarrow> i32 \<Rightarrow> preferences" where
  "setAltitude p v = p\<lparr>altitude := v\<rparr>"

subsection \<open>Writing\<close>

definition Preferences_getPayloadLength :: "preferences \<Rightarrow> u32 \<times> preferences" where
  "Preferences_getPayloadLength p =
     (if payload_length p > 0 then (payload_length p, p)
      else
        let l0 = 0;
            l1 = (if key p \<noteq> []
                  then l0 + variableLength p tlv_micro_mesh_preferences_key (length (key p))
                  else l0);
            l2 = (if ssid p \<noteq> []
                  then l1 + variableLength p tlv_micro_mesh_preferences_ssid (length (ssid p))
                  else l1);
            l3 = (if password p \<noteq> []
                  then l2 + variableLength p tlv_micro_mesh_preferences_password
                              (length (password p)) else l2);
            l4 = (if latitude_i p \<noteq> 0
                  then l3 + variableLength p tlv_micro_mesh_preferences_latitude 4 else l3);
            l5 = (if longitude_i p \<noteq> 0
                  then l4 + variableLength p tlv_micro_mesh_preferences_longitude 4 else l4);
            l6 = (if altitude p \<noteq> 0
                  then l5 + variableLength p tlv_micro_mesh_preferences_altitude 4 else l5)
        in (l6, setPayloadLength p l6))"

definition Preferences_writePacketPayload :: "bytes \<Rightarrow> preferences \<Rightarrow> bytes" where
  "Preferences_writePacketPayload v0 p =
     (let v1 = (if key p \<noteq> []
                then writeVariable v0 tlv_micro_mesh_preferences_key (key p) else v0);
          v2 = (if ssid p \<noteq> []
                then writeVariable v1 tlv_micro_mesh_preferences_ssid (ssid p) else v1);
          v3 = (if password p \<noteq> []
                then writeVariable v2 tlv_micro_mesh_preferences_password (password p) else v2);
          v4 = (if latitude_i p \<noteq> 0
                then writeVariable_int32 v3 tlv_micro_mesh_preferences_latitude (latitude_i p)
                else v3);
          v5 = (if longitude_i p \<noteq> 0
                then writeVariable_int32 v4 tlv_micro_mesh_preferences_longitude (longitude_i p)
                else v4)
      in (if altitude p \<noteq> 0
          then writeVariable_int32 v5 tlv_micro_mesh_preferences_altitude (altitude p)
          else v5))"

definition Preferences_writePacket :: "preferences \<Rightarrow> bytes \<times> preferences" where
  "Preferences_writePacket p =
     writePacket Preferences_getPayloadLength Preferences_writePacketPayload p []"

subsection \<open>Reading\<close>

definition preferences_tlv_step :: "binary_reader \<Rightarrow> preferences \<Rightarrow> preferences \<times> binary_reader" where
  "preferences_tlv_step r p =
     (let (data_type, r1) = read_uint8 r;
          (data_length, r2) = read_uint8 r1
      in if data_type = tlv_micro_mesh_preferences_latitude then
           (if data_length = 4
            then let (v, r3) = read_int32 r2 in (p\<lparr>latitude_i := v\<rparr>, r3)
            else (setMalformed p True, r2))
         else if data_type = tlv_micro_mesh_preferences_longitude then
           (if data_length = 4
            then let (v, r3) = read_int32 r2 in (p\<lparr>longitude_i := v\<rparr>, r3)
            else (setMalformed p True, r2))
         else if data_type = tlv_micro_mesh_preferences_altitude then
           (if data_length = 4
            then let (v, r3) = read_int32 r2 in (p\<lparr>altitude := v\<rparr>, r3)
            else (setMalformed p True, r2))
         else
           (case read_data (ucast data_length) r2 of
              (data, r3) \<Rightarrow>
                (case data of
                   None \<Rightarrow> (setMalformed p True, r3)
                 | Some data \<Rightarrow>
                     (if data_type = tlv_micro_mesh_preferences_key then (p\<lparr>key := data\<rparr>, r3)
                      else if data_type = tlv_micro_mesh_preferences_ssid
                           then (p\<lparr>ssid := data\<rparr>, r3)
                      else if data_type = tlv_micro_mesh_preferences_password
                           then (p\<lparr>password := data\<rparr>, r3)
                      else (p, r3)))))"

definition Preferences_read :: "u8 \<Rightarrow> binary_reader \<Rightarrow> (preferences \<times> binary_reader) option" where
  "Preferences_read version r =
     (let (p0, r1) = Base_read Preferences_blank type_micro_mesh_preferences version r;
          tail = read_remainder_len r1
      in case tlv_loop preferences_tlv_step malformed Preferences_getPayloadLength tail r1 p0 of
           None \<Rightarrow> None
         | Some (p1, r2) \<Rightarrow> Some (handleReaderRemainder p1 r2))"

subsection \<open>The loop ends and reads inside the buffer\<close>

interpretation pref_step: tlv_step preferences_tlv_step malformed
proof (unfold_locales, goal_cases)
  case (1 r p)
  show ?case
    unfolding preferences_tlv_step_def Let_def
    by (rule moves_weaken, (rule moves_rules)+) simp_all
next
  case (2 r p)
  then show ?case
    by (simp add: preferences_tlv_step_def reads_past_end setMalformed_def)
next
  case (3 r s p)
  then show ?case
    unfolding preferences_tlv_step_def Let_def
    by (intro agree_rules)
qed

subsection \<open>What the settings are on the wire\<close>

definition preferences_entries :: "preferences \<Rightarrow> (u8 \<times> bytes) list" where
  "preferences_entries p =
     (if key p \<noteq> [] then [(tlv_micro_mesh_preferences_key, take 255 (key p))] else []) @
     (if ssid p \<noteq> [] then [(tlv_micro_mesh_preferences_ssid, take 255 (ssid p))] else []) @
     (if password p \<noteq> []
      then [(tlv_micro_mesh_preferences_password, take 255 (password p))] else []) @
     (if latitude_i p \<noteq> 0
      then [(tlv_micro_mesh_preferences_latitude, write_int32 [] (latitude_i p))] else []) @
     (if longitude_i p \<noteq> 0
      then [(tlv_micro_mesh_preferences_longitude, write_int32 [] (longitude_i p))] else []) @
     (if altitude p \<noteq> 0
      then [(tlv_micro_mesh_preferences_altitude, write_int32 [] (altitude p))] else [])"

lemma Preferences_payload_entries:
  "Preferences_writePacketPayload v p = v @ tlvs_bytes (preferences_entries p)"
  unfolding Preferences_writePacketPayload_def preferences_entries_def wire if_append_else Let_def
  by simp

definition preferences_good :: "u8 \<times> bytes \<Rightarrow> bool" where
  "preferences_good e \<longleftrightarrow> length (snd e) \<le> 255 \<and>
     (fst e \<in> {tlv_micro_mesh_preferences_latitude, tlv_micro_mesh_preferences_longitude,
        tlv_micro_mesh_preferences_altitude} \<longrightarrow> length (snd e) = 4)"

definition preferences_put :: "u8 \<times> bytes \<Rightarrow> preferences \<Rightarrow> preferences" where
  "preferences_put e p =
     (case e of (t, v) \<Rightarrow>
        if t = tlv_micro_mesh_preferences_latitude then p\<lparr>latitude_i := be32 v\<rparr>
        else if t = tlv_micro_mesh_preferences_longitude then p\<lparr>longitude_i := be32 v\<rparr>
        else if t = tlv_micro_mesh_preferences_altitude then p\<lparr>altitude := be32 v\<rparr>
        else if t = tlv_micro_mesh_preferences_key then p\<lparr>key := v\<rparr>
        else if t = tlv_micro_mesh_preferences_ssid then p\<lparr>ssid := v\<rparr>
        else if t = tlv_micro_mesh_preferences_password then p\<lparr>password := v\<rparr>
        else p)"

interpretation pref_entries: tlv_entries preferences_tlv_step malformed
  Preferences_getPayloadLength payload_length preferences_good preferences_put
proof (unfold_locales, goal_cases)
  case (1 e r rest p)
  obtain t v where e: "e = (t, v)" by (cases e)
  have len: "length v \<le> 255" using 1(1) by (simp add: e preferences_good_def)
  note at = 1(2) [unfolded e]
  note head = entry_head(1,2) [OF at len] and data = entry_head(4) [OF at len]
  have four: "read_int32 (advance r 2) = (be32 v, advance r 6)" if "length v = 4"
    using be32_read [OF entry_head(3) [OF at len] that] by (simp add: advance_advance)
  show ?case
    using 1(1) head data four
    by (auto simp: e preferences_tlv_step_def preferences_put_def preferences_good_def)
next
  case (2 e p)
  then show ?case by (simp add: preferences_put_def split: prod.split)
next
  case (3 e p)
  then show ?case by (simp add: preferences_put_def split: prod.split)
next
  case (4 p)
  then show ?case by (simp add: Preferences_getPayloadLength_def word_gt_0)
qed

lemma preferences_entries_good: "\<forall>e \<in> set (preferences_entries p). preferences_good e"
  unfolding preferences_entries_def preferences_good_def
  by (auto split: if_splits)

lemma preferences_entries_length: "length (tlvs_bytes (preferences_entries p)) \<le> 1542"
proof -
  have "length (preferences_entries p) \<le> 6"
    by (simp add: preferences_entries_def)
  moreover have "length (tlvs_bytes (preferences_entries p)) \<le>
      257 * length (preferences_entries p)"
    using preferences_entries_good [of p]
    by (intro tlvs_bytes_le) (auto simp: preferences_good_def)
  ultimately show ?thesis by linarith
qed

lemma Preferences_length_entries:
  assumes "payload_length p = 0" and "packet_type p = type_micro_mesh_preferences"
  shows "Preferences_getPayloadLength p =
           (of_nat (length (tlvs_bytes (preferences_entries p))),
            p\<lparr>payload_length := of_nat (length (tlvs_bytes (preferences_entries p)))\<rparr>)"
proof -
  have var: "variableLength p ty n = of_nat (2 + min 255 n)" for ty n
    using assms(2) by (simp add: variableLength_of_nat)
  have "fst (Preferences_getPayloadLength p) =
      of_nat (length (tlvs_bytes (preferences_entries p)))"
    using assms(1)
    unfolding Preferences_getPayloadLength_def preferences_entries_def var if_add_else Let_def
    by (auto simp: of_nat_if if_distrib [of length] concat_map_if min.commute)
  then show ?thesis
    using assms(1) by (auto simp: Preferences_getPayloadLength_def Let_def setPayloadLength_def)
qed

subsection \<open>Round trip\<close>

definition preferences_on_wire :: "preferences \<Rightarrow> preferences" where
  "preferences_on_wire p =
     Preferences_blank\<lparr>packet_type := type_micro_mesh_preferences, packet_ttl := packet_ttl p,
       packet_timestamp_ms := packet_timestamp_ms p, packet_flags := packet_flags p,
       payload_length := payload_length p, packet_sender_id := packet_sender_id p,
       packet_recipient_id := (if hasPacketRecipient p then packet_recipient_id p else 0),
       key := take 255 (key p), ssid := take 255 (ssid p), password := take 255 (password p),
       latitude_i := latitude_i p, longitude_i := longitude_i p, altitude := altitude p\<rparr>"

lemma preferences_update_same:
  "key q = x \<Longrightarrow> q\<lparr>key := x\<rparr> = q"
  "ssid q = x \<Longrightarrow> q\<lparr>ssid := x\<rparr> = q"
  "password q = x \<Longrightarrow> q\<lparr>password := x\<rparr> = q"
  "latitude_i q = w \<Longrightarrow> q\<lparr>latitude_i := w\<rparr> = q"
  "longitude_i q = w \<Longrightarrow> q\<lparr>longitude_i := w\<rparr> = q"
  "altitude q = w \<Longrightarrow> q\<lparr>altitude := w\<rparr> = q"
  by auto

lemma preferences_put_pieces:
  fixes q :: preferences
  shows "key q = [] \<Longrightarrow>
      fold preferences_put (if key p \<noteq> []
        then [(tlv_micro_mesh_preferences_key, take 255 (key p))] else []) q =
      q\<lparr>key := take 255 (key p)\<rparr>"
    and "ssid q = [] \<Longrightarrow>
      fold preferences_put (if ssid p \<noteq> []
        then [(tlv_micro_mesh_preferences_ssid, take 255 (ssid p))] else []) q =
      q\<lparr>ssid := take 255 (ssid p)\<rparr>"
    and "password q = [] \<Longrightarrow>
      fold preferences_put (if password p \<noteq> []
        then [(tlv_micro_mesh_preferences_password, take 255 (password p))] else []) q =
      q\<lparr>password := take 255 (password p)\<rparr>"
    and "latitude_i q = 0 \<Longrightarrow>
      fold preferences_put (if latitude_i p \<noteq> 0
        then [(tlv_micro_mesh_preferences_latitude, write_int32 [] (latitude_i p))] else []) q =
      q\<lparr>latitude_i := latitude_i p\<rparr>"
    and "longitude_i q = 0 \<Longrightarrow>
      fold preferences_put (if longitude_i p \<noteq> 0
        then [(tlv_micro_mesh_preferences_longitude, write_int32 [] (longitude_i p))] else []) q =
      q\<lparr>longitude_i := longitude_i p\<rparr>"
    and "altitude q = 0 \<Longrightarrow>
      fold preferences_put (if altitude p \<noteq> 0
        then [(tlv_micro_mesh_preferences_altitude, write_int32 [] (altitude p))] else []) q =
      q\<lparr>altitude := altitude p\<rparr>"
  by (auto simp: preferences_put_def preferences_update_same)

lemma Preferences_read_class:
  "Preferences_read = packet_read Preferences_blank type_micro_mesh_preferences
     preferences_tlv_step Preferences_getPayloadLength"
  by (intro ext) (simp add: Preferences_read_def packet_read_def Let_def)

interpretation pref: packet_class preferences_tlv_step Preferences_getPayloadLength
  preferences_good preferences_put Preferences_blank type_micro_mesh_preferences
  Preferences_writePacketPayload preferences_entries "\<lambda>p. True"
proof (unfold_locales, goal_cases)
  case (1 e p)
  then show ?case by (simp add: preferences_put_def split: prod.split)
next
  case (2 v p)
  then show ?case by (rule Preferences_payload_entries)
next
  case (3 e p)
  then show ?case using preferences_entries_good [of p] by simp
next
  case (4 p)
  then show ?case using preferences_entries_length [of p] by simp
next
  case (5 p x)
  then show ?case by (simp add: preferences_entries_def)
next
  case (6 p)
  then show ?case by (intro Preferences_length_entries)
qed

lemma preferences_put_entries:
  assumes "q = p\<lparr>payload_length := x\<rparr>"
  shows "fold preferences_put (preferences_entries p)
      (header_on_wire Preferences_blank type_micro_mesh_preferences q) = preferences_on_wire q"
  using assms
  by (simp add: preferences_entries_def preferences_put_pieces header_on_wire_def
      Base_init_def Preferences_blank_def preferences_on_wire_def hasPacketRecipient_def)

lemma preferences_written_is_read:
  assumes "packet_version p = 1" and "packet_type p = type_micro_mesh_preferences"
    and "\<not> hasSignature p"
    and "payload_length p = 0 \<or>
         payload_length p = of_nat (length (Preferences_writePacketPayload [] p))"
    and "Preferences_writePacketPayload [] p \<noteq> []"
    and "Preferences_writePacket p = (packet, p')"
    and "length packet \<le> n" and "n \<le> length (packet @ behind)" and "n < 65536"
  shows "\<exists>r1 r2 r3. read_uint8 (packet_reader packet behind n) = (1, r1) \<and>
           read_uint8 r1 = (type_micro_mesh_preferences, r2) \<and>
           Preferences_read 1 r2 = Some (preferences_on_wire p', r3)"
proof -
  have entries: "preferences_entries p \<noteq> []"
    using assms(5) by (auto simp: Preferences_payload_entries)
  have len: "payload_length p = 0 \<or>
      payload_length p = of_nat (length (tlvs_bytes (preferences_entries p)))"
    using assms(4) by (simp add: Preferences_payload_entries)
  note read = pref.written_is_read [OF assms(1-3) len TrueI entries
      assms(6) [unfolded Preferences_writePacket_def] assms(7-9)]
  obtain x where "p' = p\<lparr>payload_length := x\<rparr>"
    using pref.written_bytes [OF assms(1-3) len TrueI] assms(6)
    unfolding Preferences_writePacket_def by auto
  from preferences_put_entries [OF this] read show ?thesis
    by (simp add: Preferences_read_class)
qed

lemma preferences_eq_on_wire:
  assumes "length (key p) \<le> 255" and "length (ssid p) \<le> 255" and "length (password p) \<le> 255"
  shows "preferences_eq (preferences_on_wire p) p"
  using assms by (simp add: preferences_eq_def preferences_on_wire_def)

end
