(* ===== verification/Connection_Tracker.thy ===== *)
theory Connection_Tracker
  imports Std_Map Peer_Connection Message_Packet Announce_Packet Preferences_Packet
    "HOL-Library.List_Lexorder"
begin

section \<open>BleConnectionTracker: the state of the mesh node\<close>

text \<open>
  A pointer is the place of the object it points to. The tracker's queues hold pointers to
  messages, announces and the node's own announce (\<open>packet_ref\<close>), to connections (the key in
  \<open>connections\<close>) and to peers (the key in \<open>peers\<close>); the elements of a \<open>std::map\<close> do not move.
  Reading through a pointer whose object is gone is undefined in C++: \<open>packet_base\<close> and
  \<open>connection_at\<close> are then \<open>None\<close>, and \<open>Tracker_Invariant\<close> shows that this does not happen.
\<close>

datatype packet_ref = MessageRef bytes | AnnounceRef nat | OwnAnnounceRef

text \<open>
  Calls to the Bluetooth stack and to flash, in the order they are made. A request to send
  registers one of two static callback records; their contexts, which the stack hands back to
  the handlers, are the fields \<open>notify_registration\<close> and \<open>write_registration\<close>.
\<close>

datatype bt_call =
    RequestNotification u16
  | RequestWrite u16
  | ServerNotify u16 u16 bytes
  | ClientWrite u16 u16 bytes
  | ListenForUpdates u16 u16
  | StopListening u16
  | ReadRssi u16
  | SleepMs u32
  | SaveFlash preferences

record tracker =
  peers :: "(u64 \<times> peer) list"
  messages :: "(bytes \<times> message) list"
  announces :: "(nat \<times> announce) list"
  own_announce :: announce
  prefs :: preferences
  connections :: "(u16 \<times> ble_connection) list"
  available_neighbours :: "(bytes \<times> ble_connection) list"
  raw_packet_to_notify :: "(u16 \<times> bytes) list"
  raw_packet_to_write :: "(u16 \<times> bytes) list"
  timestamp_offset_ms :: u64
  handle_peer_map :: "(u16 \<times> u64) list"
  packets_connections_sent_list :: "(packet_ref \<times> u16) list"
  packets_peers_sent_list :: "(packet_ref \<times> u64) list"
  broadcast_packets_to_send_list :: "packet_ref list"
  targeted_packets_to_send_list :: "(packet_ref \<times> u16) list"
  notify_registration :: u16
  write_registration :: u16
  bt_calls :: "bt_call list"

definition Tracker_init :: tracker where
  "Tracker_init =
     \<lparr>peers = [], messages = [], announces = [], own_announce = Announce_init,
      prefs = Preferences_init, connections = [], available_neighbours = [],
      raw_packet_to_notify = [], raw_packet_to_write = [], timestamp_offset_ms = 0,
      handle_peer_map = [], packets_connections_sent_list = [], packets_peers_sent_list = [],
      broadcast_packets_to_send_list = [], targeted_packets_to_send_list = [],
      notify_registration = 0, write_registration = 0, bt_calls = []\<rparr>"

text \<open>
  What the tracker takes from its surroundings: the clock (read once per operation), the
  board id, the addresses of the packets, \<open>std::hash<std::string>\<close>, the status the stack
  returns for a call, which may depend on everything called before, and whether \<open>assert\<close> is
  compiled in (it is unless the build defines \<open>NDEBUG\<close>; \<open>DEBUG_BUILD\<close> is always defined).
\<close>

record environment =
  env_time_us :: u64
  env_board_id :: u64
  env_address :: "packet_ref \<Rightarrow> nat"
  env_hash :: "bytes \<Rightarrow> nat"
  env_status :: "bt_call list \<Rightarrow> u8"
  env_asserts :: bool

text \<open>Whether the program goes on behind \<open>ASSERT_DEBUG(b)\<close>; otherwise it aborts there.\<close>

definition ASSERT_DEBUG :: "environment \<Rightarrow> bool \<Rightarrow> bool" where
  "ASSERT_DEBUG env b \<longleftrightarrow> (env_asserts env \<longrightarrow> b)"

definition bt_invoke :: "environment \<Rightarrow> bt_call \<Rightarrow> tracker \<Rightarrow> u8 \<times> tracker" where
  "bt_invoke env c t = (env_status env (bt_calls t @ [c]), t\<lparr>bt_calls := bt_calls t @ [c]\<rparr>)"

definition ten_minutes_in_ms :: u64 where "ten_minutes_in_ms = 1000 * 60 * 10"
definition build_time_ms :: u64 where "build_time_ms = 1781273465 * 1000"
definition MESSAGE_TIMEOUT :: u64 where "MESSAGE_TIMEOUT = 300000"

subsection \<open>Pointers\<close>

definition base_of :: "'a base_scheme \<Rightarrow> base" where
  "base_of p =
     \<lparr>malformed = malformed p, packet_version = packet_version p, packet_type = packet_type p,
      packet_ttl = packet_ttl p, packet_timestamp_ms = packet_timestamp_ms p,
      packet_flags = packet_flags p, sending_connection_handle = sending_connection_handle p,
      payload_length = payload_length p, packet_sender_id = packet_sender_id p,
      packet_recipient_id = packet_recipient_id p, sender_peer = sender_peer p,
      routeList = routeList p, signature = signature p\<rparr>"

definition packet_base :: "tracker \<Rightarrow> packet_ref \<Rightarrow> base option" where
  "packet_base t p =
     (case p of
        MessageRef i \<Rightarrow> map_option base_of (map_find i (messages t))
      | AnnounceRef h \<Rightarrow> map_option base_of (map_find h (announces t))
      | OwnAnnounceRef \<Rightarrow> Some (base_of (own_announce t)))"

definition connection_at :: "tracker \<Rightarrow> u16 \<Rightarrow> ble_connection option" where
  "connection_at t h = map_find h (connections t)"

text \<open>
  \<open>packet->writePacket(packet_data)\<close> through a \<open>Base *\<close>: the virtual methods are those of the
  class the packet has, and the packet keeps the length it computes.
\<close>

definition packet_write :: "packet_ref \<Rightarrow> tracker \<Rightarrow> bytes \<times> tracker" where
  "packet_write p t =
     (case p of
        MessageRef i \<Rightarrow>
          (case map_find i (messages t) of
             None \<Rightarrow> ([], t)
           | Some m \<Rightarrow> let (data, m') = Message_writePacket m
                       in (data, t\<lparr>messages := map_put i m' (messages t)\<rparr>))
      | AnnounceRef h \<Rightarrow>
          (case map_find h (announces t) of
             None \<Rightarrow> ([], t)
           | Some a \<Rightarrow> let (data, a') = Announce_writePacket a
                       in (data, t\<lparr>announces := map_put h a' (announces t)\<rparr>))
      | OwnAnnounceRef \<Rightarrow>
          let (data, a') = Announce_writePacket (own_announce t)
          in (data, t\<lparr>own_announce := a'\<rparr>))"

definition alter_connection :: "u16 \<Rightarrow> (ble_connection \<Rightarrow> ble_connection) \<Rightarrow> tracker \<Rightarrow> tracker" where
  "alter_connection h f t =
     t\<lparr>connections := map_alter BleConnection_blank h f (connections t)\<rparr>"

subsection \<open>Stores\<close>

text \<open>The returned pointer is the handle, which is now a key.\<close>

definition connectionForConnHandle :: "u16 \<Rightarrow> tracker \<Rightarrow> u16 \<times> tracker" where
  "connectionForConnHandle h t =
     (case map_find h (connections t) of
        Some _ \<Rightarrow> (h, t)
      | None \<Rightarrow> (h, alter_connection h (\<lambda>c. setConnectionHandle c h) t))"

definition storeMessageAndReturnIfNew :: "message \<Rightarrow> tracker \<Rightarrow> packet_ref option \<times> tracker" where
  "storeMessageAndReturnIfNew m t =
     (if malformed m then (None, t)
      else case map_find (message_id m) (messages t) of
             Some _ \<Rightarrow> (None, t)
           | None \<Rightarrow> (Some (MessageRef (message_id m)),
                      t\<lparr>messages := map_put (message_id m) m (messages t)\<rparr>))"

text \<open>
  \<open>found\<close> points into the map, so after \<open>announces[id] = ann\<close> it points to the new announce:
  the names compared are those of the new element and of \<open>ann\<close>.
\<close>

definition storeAnnounceAndReturnIfNew ::
  "environment \<Rightarrow> announce \<Rightarrow> tracker \<Rightarrow> packet_ref option \<times> tracker" where
  "storeAnnounceAndReturnIfNew env ann t =
     (if malformed ann then (None, t)
      else
        let i = getAnnounceHash (env_hash env) ann;
            found = map_find i (announces t)
        in if found = None \<or> packet_timestamp_ms (the found) < packet_timestamp_ms ann
           then let t1 = t\<lparr>announces := map_put i ann (announces t)\<rparr>;
                    found_now = map_find i (announces t1)
                in if found = None \<or> name (the found_now) \<noteq> name ann
                   then (Some (AnnounceRef i), t1)
                   else (None, t1)
           else (None, t))"

definition messageWithId :: "bytes \<Rightarrow> tracker \<Rightarrow> message option" where
  "messageWithId i t = map_find i (messages t)"

definition peerWithId :: "u64 \<Rightarrow> tracker \<Rightarrow> peer option" where
  "peerWithId i t = map_find i (peers t)"

definition checkSenderInPeers :: "u64 \<Rightarrow> tracker \<Rightarrow> u64 \<times> tracker" where
  "checkSenderInPeers sender t =
     (case map_find sender (peers t) of
        Some _ \<Rightarrow> (sender, t)
      | None \<Rightarrow> (sender,
           t\<lparr>peers := map_alter Peer_blank sender (\<lambda>p. setId p sender) (peers t)\<rparr>))"

subsection \<open>Queues\<close>

text \<open>\<open>to_connection\<close> is the connection object the caller passes, a copy or an element.\<close>

definition enqueueTargetedPacket ::
  "environment \<Rightarrow> packet_ref \<Rightarrow> ble_connection \<Rightarrow> tracker \<Rightarrow> tracker" where
  "enqueueTargetedPacket env p to_connection t =
     (case packet_base t p of
        None \<Rightarrow> t
      | Some b \<Rightarrow>
          if packet_ttl b > 0
          then let (con, t1) = connectionForConnHandle (connection_handle to_connection) t;
                   found = list_ex (\<lambda>e. snd e = con)
                             (mm_equal_range p (targeted_packets_to_send_list t1))
               in if \<not> found
                  then t1\<lparr>targeted_packets_to_send_list :=
                         mm_emplace (env_address env) p con (targeted_packets_to_send_list t1)\<rparr>
                  else t1
          else t)"

definition enqueueBroadcastPacket :: "packet_ref \<Rightarrow> tracker \<Rightarrow> tracker" where
  "enqueueBroadcastPacket p t =
     (case packet_base t p of
        None \<Rightarrow> t
      | Some b \<Rightarrow>
          if packet_ttl b > 0
          then t\<lparr>broadcast_packets_to_send_list := broadcast_packets_to_send_list t @ [p]\<rparr>
          else t)"

definition enqueueBroadcastPacket_from ::
  "environment \<Rightarrow> packet_ref \<Rightarrow> u64 \<Rightarrow> tracker \<Rightarrow> tracker" where
  "enqueueBroadcastPacket_from env p from_peer t =
     enqueueBroadcastPacket p
       (t\<lparr>packets_peers_sent_list :=
            mm_emplace (env_address env) p from_peer (packets_peers_sent_list t)\<rparr>)"

definition havePacketsToSend :: "tracker \<Rightarrow> bool" where
  "havePacketsToSend t \<longleftrightarrow>
     \<not> (broadcast_packets_to_send_list t = [] \<and> targeted_packets_to_send_list t = [])"

definition getSizeOfTargetedPacketsToSend :: "tracker \<Rightarrow> nat" where
  "getSizeOfTargetedPacketsToSend t = length (targeted_packets_to_send_list t)"

subsection \<open>Time\<close>

definition getTimeMs :: "environment \<Rightarrow> tracker \<Rightarrow> u64" where
  "getTimeMs env t = timestamp_offset_ms t + env_time_us env div 1000"

definition weHaveTheTime :: "tracker \<Rightarrow> bool" where
  "weHaveTheTime t \<longleftrightarrow> timestamp_offset_ms t \<ge> build_time_ms"

text \<open>
  The difference is a signed 64-bit number; \<open>llabs\<close> of it is compared as an unsigned one.
\<close>

definition possiblyUpdateTimeOffset :: "environment \<Rightarrow> u64 \<Rightarrow> tracker \<Rightarrow> tracker" where
  "possiblyUpdateTimeOffset env timestamp_ms t =
     (let our_now = getTimeMs env t;
          diff = timestamp_ms - our_now;
          diff_abs = (if sint diff < 0 then - diff else diff)
      in if diff_abs > MESSAGE_TIMEOUT \<or> timestamp_ms > our_now
         then t\<lparr>timestamp_offset_ms := timestamp_offset_ms t + diff\<rparr>
         else t)"

text \<open>The fields \<open>printTime\<close> prints, each cut to 16 bits.\<close>

definition printTime :: "environment \<Rightarrow> tracker \<Rightarrow> u16 \<times> u16 \<times> u16 \<times> u16" where
  "printTime env t =
     (let time_ms = getTimeMs env t;
          seconds = time_ms div 1000;
          minutes = seconds div 60;
          hours = minutes div 60;
          days = hours div 24
      in (ucast (hours - days * 24), ucast (minutes - hours * 60),
          ucast (seconds - minutes * 60), ucast (time_ms - seconds * 1000)))"

end
