(* ===== verification/Tracker_Links.thy ===== *)
theory Tracker_Links
  imports Connection_Tracker
begin

section \<open>The tracker's links: neighbours, connections, disconnections and clean-up\<close>

subsection \<open>Neighbours\<close>

definition updateRssiForActiveConnections :: "bytes \<Rightarrow> 8 word \<Rightarrow> tracker \<Rightarrow> tracker" where
  "updateRssiForActiveConnections address scan_rssi t =
     t\<lparr>connections := map (\<lambda>(h, c). (h, if bt_address c = take 6 address
                                        then setRssi c scan_rssi else c)) (connections t)\<rparr>"

text \<open>The two overloads of \<open>addAvailablePeer\<close> differ in the type of the address only.\<close>

definition addAvailablePeer :: "environment \<Rightarrow> bytes \<Rightarrow> u8 \<Rightarrow> service_uuid_check_status
    \<Rightarrow> 8 word \<Rightarrow> bool \<Rightarrow> tracker \<Rightarrow> tracker" where
  "addAvailablePeer env address address_type services scan_rssi use_coded t =
     (let a = take 6 address;
          f = (\<lambda>c. setUseCodedPhy (setTimestamp (setRssi (setServices
                 (setBleAddress c address address_type) services) scan_rssi) (env_time_us env))
                 use_coded)
      in updateRssiForActiveConnections address scan_rssi
           (t\<lparr>available_neighbours :=
                map_alter BleConnection_blank a f (available_neighbours t)\<rparr>))"

definition getConnectableNeighbours :: "tracker \<Rightarrow> bytes list" where
  "getConnectableNeighbours t =
     map fst (filter (\<lambda>(a, c). (weHaveTheTime t \<or> isRepeater c) \<and> \<not> connected c \<and>
                               \<not> isRandom c \<and> fail_reason c = 0)
                (available_neighbours t))"

definition setConnectionStarted :: "ble_connection \<Rightarrow> tracker \<Rightarrow> tracker" where
  "setConnectionStarted neighbour t =
     t\<lparr>available_neighbours := map_erase (bt_address neighbour) (available_neighbours t)\<rparr>"

definition reportConnectionFailure :: "bytes \<Rightarrow> int \<Rightarrow> tracker \<Rightarrow> tracker" where
  "reportConnectionFailure address reason t =
     (let a = take 6 address
      in case map_find a (available_neighbours t) of
           None \<Rightarrow> t
         | Some c \<Rightarrow> t\<lparr>available_neighbours :=
                          map_put a (setConnectFailure c reason) (available_neighbours t)\<rparr>)"

subsection \<open>Connections\<close>

definition reportConnection :: "environment \<Rightarrow> u16 \<Rightarrow> bytes \<Rightarrow> u8 \<Rightarrow> tracker \<Rightarrow> tracker" where
  "reportConnection env h address address_type t =
     (let a = take 6 address;
          t1 = (case map_find a (available_neighbours t) of
                  None \<Rightarrow> t
                | Some c \<Rightarrow> t\<lparr>connections := map_put h c (connections t),
                              available_neighbours := map_erase a (available_neighbours t)\<rparr>);
          t2 = alter_connection h
                 (\<lambda>c. setTimestamp (setBleAddress (setConnected (setConnectionHandle c h) True)
                        address address_type) (env_time_us env)) t1
      in t2\<lparr>available_neighbours := map_erase a (available_neighbours t2)\<rparr>)"

definition reportConnection_role ::
  "environment \<Rightarrow> u16 \<Rightarrow> bytes \<Rightarrow> u8 \<Rightarrow> u8 \<Rightarrow> tracker \<Rightarrow> tracker" where
  "reportConnection_role env h address address_type the_role t =
     (let t1 = alter_connection h (\<lambda>c. setRole c the_role)
                 (reportConnection env h address address_type t)
      in if the_role = HCI_ROLE_MASTER
         then snd (bt_invoke env (ListenForUpdates h
                (packet_characteristic_value_handle
                   (map_at BleConnection_blank h (connections t1)))) t1)
         else t1)"

text \<open>
  \<open>peers[handle]\<close> looks the handle up among the peer ids and inserts a peer when there is
  none. \<open>announced_to_peer\<close> captures a copy of that peer and compares its address with the
  stored pointers, which it never equals.
\<close>

definition announced_to_connection :: "tracker \<Rightarrow> u16 \<Rightarrow> packet_ref \<times> u16 \<Rightarrow> bool" where
  "announced_to_connection t h e =
     (case (packet_base t (fst e), connection_at t (snd e)) of
        (Some b, Some c) \<Rightarrow>
          packet_type b = type_announce \<and>
          packet_sender_id b = packet_sender_id (own_announce t) \<and> connection_handle c = h
      | _ \<Rightarrow> False)"

definition reportDisconnection :: "environment \<Rightarrow> u16 \<Rightarrow> tracker \<Rightarrow> tracker" where
  "reportDisconnection env h t =
     (let t1 = alter_connection h (\<lambda>c. setConnected (setNotificationEnabled c False) False) t;
          t2 = t1\<lparr>peers := map_touch Peer_blank (ucast h) (peers t1)\<rparr>;
          removed = map_at BleConnection_blank h (connections t2);
          t3 = (if role removed = HCI_ROLE_MASTER then snd (bt_invoke env (StopListening h) t2)
                else t2);
          t4 = t3\<lparr>handle_peer_map := map_erase h (handle_peer_map t3)\<rparr>
      in t4\<lparr>packets_connections_sent_list :=
              erase_if (announced_to_connection t4 h) (packets_connections_sent_list t4),
            targeted_packets_to_send_list :=
              erase_if (announced_to_connection t4 h) (targeted_packets_to_send_list t4),
            packets_peers_sent_list :=
              erase_if (\<lambda>_. False) (packets_peers_sent_list t4)\<rparr>)"

definition getActiveConnectionCount :: "tracker \<Rightarrow> nat" where
  "getActiveConnectionCount t = length (filter (\<lambda>(h, c). connected c) (connections t))"

definition getConnectionsCount :: "tracker \<Rightarrow> nat" where
  "getConnectionsCount t = length (connections t) + length (available_neighbours t)"

definition setConnectionHandleForPeer :: "u16 \<Rightarrow> u64 \<Rightarrow> tracker \<Rightarrow> tracker" where
  "setConnectionHandleForPeer h p t =
     t\<lparr>handle_peer_map := map_put h p (handle_peer_map t)\<rparr>"

definition peerWithConnectionHandle :: "u16 \<Rightarrow> tracker \<Rightarrow> u64 option" where
  "peerWithConnectionHandle h t = map_find h (handle_peer_map t)"

definition getConnectionForAddress :: "bytes \<Rightarrow> tracker \<Rightarrow> u16 option" where
  "getConnectionForAddress address t =
     map_option fst (List.find (\<lambda>(h, c). connected c \<and> bt_address c = take 6 address)
       (connections t))"

text \<open>
  The scan over \<open>handle_peer_map\<close> for two handles of one peer. \<open>reversed[peer]\<close> is 0 for a
  peer not seen; \<open>connections[...]\<close> inserts a blank connection for a handle that has none.
\<close>

fun duplicate_scan :: "(u16 \<times> u64) list \<Rightarrow> (u64 \<times> u16) list \<Rightarrow> tracker \<Rightarrow> u16 \<times> tracker" where
  "duplicate_scan [] reversed t = (0, t)"
| "duplicate_scan ((h, p) # rest) reversed t =
     (let other = map_at 0 p reversed
      in if other \<noteq> 0
         then let t1 = alter_connection h (\<lambda>c. c) (alter_connection other (\<lambda>c. c) t)
              in if last_seen_time (map_at BleConnection_blank other (connections t1)) <
                    last_seen_time (map_at BleConnection_blank h (connections t1))
                 then (other, t1) else (h, t1)
         else duplicate_scan rest (map_put p h reversed) t)"

definition getAnyDuplicateHandle :: "tracker \<Rightarrow> u16 \<times> tracker" where
  "getAnyDuplicateHandle t = duplicate_scan (handle_peer_map t) [] t"

subsection \<open>Preferences\<close>

definition getMySenderId :: "environment \<Rightarrow> u64" where
  "getMySenderId env = env_board_id env"

text \<open>
  \<open>savePreferencesToFlash\<close> is in \<^verbatim>\<open>main.cpp\<close> (theory \<open>Device_Flash\<close>); it writes the packet
  through its reference argument, which keeps the length computed.
\<close>

definition updatePreferences :: "environment \<Rightarrow> preferences \<Rightarrow> bool \<Rightarrow> tracker \<Rightarrow> tracker" where
  "updatePreferences env new_prefs save t =
     (if packet_recipient_id new_prefs \<noteq> getMySenderId env then t
      else if key (prefs t) \<noteq> [] \<and> key (prefs t) \<noteq> key new_prefs then t
      else if preferences_eq (prefs t) new_prefs \<and> save then t
      else let t1 = t\<lparr>prefs := new_prefs\<rparr>
           in if save
              then (snd (bt_invoke env (SaveFlash (prefs t1)) t1))
                     \<lparr>prefs := snd (Preferences_writePacket (prefs t1))\<rparr>
              else t1)"

subsection \<open>Clean-up\<close>

text \<open>
  The predicates of \<open>cleanupStaleItems\<close>. \<open>connection_stale\<close> compares the uptime at which the
  connection was last seen with the network time \<open>now\<close>.
\<close>

definition packet_stale :: "u64 \<Rightarrow> tracker \<Rightarrow> packet_ref \<Rightarrow> bool" where
  "packet_stale now t p =
     (case packet_base t p of
        None \<Rightarrow> False
      | Some b \<Rightarrow> packet_timestamp_ms b + ten_minutes_in_ms < now)"

definition connection_stale :: "u64 \<Rightarrow> ble_connection \<Rightarrow> bool" where
  "connection_stale now c \<longleftrightarrow> \<not> connected c \<and> getTimestampMs c + ten_minutes_in_ms < now"

definition packet_connection_stale :: "u64 \<Rightarrow> tracker \<Rightarrow> packet_ref \<times> u16 \<Rightarrow> bool" where
  "packet_connection_stale now t e \<longleftrightarrow>
     packet_stale now t (fst e) \<or>
     (case connection_at t (snd e) of None \<Rightarrow> False | Some c \<Rightarrow> connection_stale now c)"

definition cleanupStaleItems :: "environment \<Rightarrow> tracker \<Rightarrow> tracker" where
  "cleanupStaleItems env t =
     (let now = getTimeMs env t;
          t1 = t\<lparr>packets_connections_sent_list :=
                   erase_if (packet_connection_stale now t) (packets_connections_sent_list t)\<rparr>;
          t2 = t1\<lparr>packets_peers_sent_list :=
                   erase_if (\<lambda>e. packet_stale now t1 (fst e)) (packets_peers_sent_list t1)\<rparr>;
          t3 = t2\<lparr>broadcast_packets_to_send_list :=
                   erase_if (packet_stale now t2) (broadcast_packets_to_send_list t2)\<rparr>;
          t4 = t3\<lparr>targeted_packets_to_send_list :=
                   erase_if (packet_connection_stale now t3) (targeted_packets_to_send_list t3)\<rparr>;
          t5 = t4\<lparr>connections := erase_if (\<lambda>e. connection_stale now (snd e)) (connections t4)\<rparr>;
          t6 = t5\<lparr>available_neighbours :=
                   erase_if (\<lambda>e. connection_stale now (snd e)) (available_neighbours t5)\<rparr>;
          t7 = t6\<lparr>messages :=
                   erase_if (\<lambda>e. packet_timestamp_ms (snd e) + ten_minutes_in_ms < now)
                     (messages t6)\<rparr>
      in t7\<lparr>announces :=
              erase_if (\<lambda>e. packet_timestamp_ms (snd e) + ten_minutes_in_ms < now)
                (announces t7)\<rparr>)"

definition getAnyAnnounce :: "tracker \<Rightarrow> packet_ref option" where
  "getAnyAnnounce t = (case announces t of [] \<Rightarrow> None | e # _ \<Rightarrow> Some (AnnounceRef (fst e)))"

definition getAnyMessage :: "tracker \<Rightarrow> packet_ref option" where
  "getAnyMessage t = (case messages t of [] \<Rightarrow> None | e # _ \<Rightarrow> Some (MessageRef (fst e)))"

end
