(* ===== verification/Tracker_Send.thy ===== *)
theory Tracker_Send
  imports Tracker_Links
begin

section \<open>The tracker's sending: announcing, targeted and broadcast packets, raw packets\<close>

text \<open>This is the code under \<^verbatim>\<open>PICO_BOARD\<close>, the board of \<^verbatim>\<open>main.cpp\<close>.\<close>

definition available :: "ble_connection \<Rightarrow> bool" where
  "available c \<longleftrightarrow> connected c \<and>
     (packet_characteristic_value_handle c > 0 \<or> role c = HCI_ROLE_SLAVE)"

definition available_connections :: "tracker \<Rightarrow> (u16 \<times> ble_connection) list" where
  "available_connections t = filter (\<lambda>e. available (snd e)) (connections t)"

text \<open>The handle stored in the connection a pointer points to.\<close>

definition handle_of :: "tracker \<Rightarrow> u16 \<Rightarrow> u16 option" where
  "handle_of t h = map_option connection_handle (connection_at t h)"

subsection \<open>One packet to one connection\<close>

text \<open>
  The part under \<^verbatim>\<open>PICO_BOARD\<close>: the bytes are kept as a raw packet and the stack is asked to
  call back when it can send.
\<close>

definition queue_raw_packet ::
  "environment \<Rightarrow> u16 \<Rightarrow> ble_connection \<Rightarrow> bytes \<Rightarrow> tracker \<Rightarrow> bool \<times> tracker" where
  "queue_raw_packet env con c packet_data t =
     (let con_handle = connection_handle c;
          t1 = alter_connection con (\<lambda>c. setHasData c True) t;
          (status, t2) =
            (if role c = HCI_ROLE_SLAVE
             then bt_invoke env (RequestNotification con_handle)
                    (t1\<lparr>raw_packet_to_notify :=
                          mm_emplace (\<lambda>h. h) con_handle packet_data (raw_packet_to_notify t1),
                        notify_registration := con_handle\<rparr>)
             else bt_invoke env (RequestWrite con_handle)
                    (t1\<lparr>raw_packet_to_write :=
                          mm_emplace (\<lambda>h. h) con_handle packet_data (raw_packet_to_write t1),
                        write_registration := con_handle\<rparr>))
      in (status = 0, snd (bt_invoke env (SleepMs 20) t2)))"

definition SendPacketToConnection ::
  "environment \<Rightarrow> packet_ref \<Rightarrow> u16 \<Rightarrow> tracker \<Rightarrow> bool \<times> tracker" where
  "SendPacketToConnection env p con t =
     (case (packet_base t p, connection_at t con) of
        (Some b, Some c) \<Rightarrow>
          if sending_connection_handle b > 0 \<and> sending_connection_handle b = connection_handle c
          then (True, t)
          else
            let (packet_data, t1) = packet_write p t
            in if bt_mtu c \<noteq> 0 \<and> length packet_data > unat (bt_mtu c) then (False, t1)
               else queue_raw_packet env con c packet_data t1
      | _ \<Rightarrow> (False, t))"

subsection \<open>sendPackets\<close>

text \<open>
  The filter is evaluated as the list is walked, so it sees the entries added for the
  packets sent before. The walk collects the packets to remove.
\<close>

definition packet_needed :: "tracker \<Rightarrow> packet_ref \<times> u16 \<Rightarrow> bool" where
  "packet_needed t e \<longleftrightarrow>
     \<not> list_ex (\<lambda>sent. handle_of t (snd sent) = handle_of t (snd e))
         (mm_equal_range (fst e) (packets_connections_sent_list t))"

definition mark_sent :: "environment \<Rightarrow> packet_ref \<Rightarrow> u16 \<Rightarrow> tracker \<Rightarrow> tracker" where
  "mark_sent env p con t =
     t\<lparr>packets_connections_sent_list :=
         mm_emplace (env_address env) p con (packets_connections_sent_list t)\<rparr>"

fun send_targeted :: "environment \<Rightarrow> (packet_ref \<times> u16) list \<Rightarrow> tracker
    \<Rightarrow> packet_ref list \<times> tracker" where
  "send_targeted env [] t = ([], t)"
| "send_targeted env ((p, con) # rest) t =
     (if packet_needed t (p, con)
      then let (ok, t1) = SendPacketToConnection env p con t
           in if ok
              then let (removed, t2) = send_targeted env rest (mark_sent env p con t1)
                   in (p # removed, t2)
              else send_targeted env rest t1
      else send_targeted env rest t)"

text \<open>
  The inner loop of the broadcast starts at \<open>find(packet)\<close> and runs to the end of the
  list, over the entries of other packets too.
\<close>

definition broadcast_sendable :: "tracker \<Rightarrow> packet_ref \<Rightarrow> ble_connection \<Rightarrow> bool" where
  "broadcast_sendable t p c \<longleftrightarrow>
     \<not> list_ex (\<lambda>sent. handle_of t (snd sent) = Some (connection_handle c))
         (mm_find_on p (packets_connections_sent_list t))"

fun broadcast_to :: "environment \<Rightarrow> packet_ref \<Rightarrow> (u16 \<times> ble_connection) list \<Rightarrow> tracker
    \<Rightarrow> tracker" where
  "broadcast_to env p [] t = t"
| "broadcast_to env p ((con, c) # rest) t =
     broadcast_to env p rest
       (if broadcast_sendable t p c
        then mark_sent env p con (snd (SendPacketToConnection env p con t))
        else t)"

text \<open>
  The outer loop stops after the first packet for which a connection is available. No
  connection becomes available in between, so that is the first packet or none.
\<close>

fun send_broadcast :: "environment \<Rightarrow> packet_ref list \<Rightarrow> tracker \<Rightarrow> packet_ref option \<times> tracker"
  where
  "send_broadcast env [] t = (None, t)"
| "send_broadcast env (p # rest) t =
     (if available_connections t = [] then send_broadcast env rest t
      else (Some p, broadcast_to env p (available_connections t) t))"

definition sendPackets :: "environment \<Rightarrow> tracker \<Rightarrow> bool \<times> tracker" where
  "sendPackets env t =
     (if \<not> havePacketsToSend t then (False, t)
      else
        let (targeted_packets_to_remove, t1) =
              send_targeted env (targeted_packets_to_send_list t) t;
            t2 = t1\<lparr>targeted_packets_to_send_list :=
                   erase_if (\<lambda>e. fst e \<in> set targeted_packets_to_remove)
                     (targeted_packets_to_send_list t1)\<rparr>;
            (sent, t3) = send_broadcast env (broadcast_packets_to_send_list t2) t2
        in (True, t3\<lparr>broadcast_packets_to_send_list :=
                       erase_if (\<lambda>p. sent = Some p) (broadcast_packets_to_send_list t3)\<rparr>))"

subsection \<open>The node's own announce\<close>

definition setupAnnounceIfNeeded :: "environment \<Rightarrow> tracker \<Rightarrow> tracker" where
  "setupAnnounceIfNeeded env t =
     (let a1 = Announce_setAltitude (Announce_setLongitudeI (Announce_setLatitudeI
                 (own_announce t) (latitude_i (prefs t))) (longitude_i (prefs t)))
                 (altitude (prefs t))
      in if packet_ttl a1 = 3 then t\<lparr>own_announce := a1\<rparr>
         else
           let sender = getMySenderId env;
               a2 = setPacketSenderId (setPacketFlags (setPacketTtl a1 3) 0) sender;
               b1 = write_data [] ble_smoke_detector_service_name
                      (of_nat (length ble_smoke_detector_service_name));
               b2 = write_data b1 (ascii '':'') 1;
               b3 = write_uint8_hex16 b2 (ucast (drop_bit 48 sender));
               b4 = write_uint8_hex16 b3 (ucast (drop_bit 56 sender))
           in t\<lparr>own_announce := setName a2 b4\<rparr>)"

text \<open>
  The filter walks \<open>connections\<close> while \<open>enqueueTargetedPacket\<close> may insert into it; the
  connections visited have their own handles as keys (\<open>Tracker_Invariant\<close>), for which it
  inserts nothing. \<open>announced_to\<close> is the range as it was before the loop.
\<close>

definition announce_available :: "tracker \<Rightarrow> ble_connection \<Rightarrow> bool" where
  "announce_available t c \<longleftrightarrow> available c \<and> weHaveTheTime t"

definition not_announced_to :: "tracker \<Rightarrow> ble_connection \<Rightarrow> bool" where
  "not_announced_to t c \<longleftrightarrow>
     \<not> list_ex (\<lambda>sent. handle_of t (snd sent) = Some (connection_handle c))
         (mm_equal_range OwnAnnounceRef (packets_connections_sent_list t))"

definition announce_to :: "environment \<Rightarrow> ble_connection \<Rightarrow> tracker \<Rightarrow> tracker" where
  "announce_to env c t =
     enqueueTargetedPacket env OwnAnnounceRef c
       (t\<lparr>own_announce := setPacketTimestamp (own_announce t) (getTimeMs env t)\<rparr>)"

definition announceToConnections :: "environment \<Rightarrow> tracker \<Rightarrow> tracker" where
  "announceToConnections env t =
     (let t1 = setupAnnounceIfNeeded env t
      in fold (announce_to env)
           (filter (\<lambda>c. announce_available t1 c \<and> not_announced_to t1 c)
              (map snd (connections t1))) t1)"

subsection \<open>Raw packets\<close>

text \<open>
  The handlers the stack calls when it can take a notification or a write. The guards
  compare \<open>equal_range(con_handle).first\<close> with the end of the whole container. Before a packet is
  handed over, \<open>hasData\<close> of the connection is asserted; the result \<open>None\<close> is the abort. The
  \<open>setHasData(false)\<close> at the end acts on a copy of the connection.
\<close>

definition raw_done :: "u8 \<Rightarrow> bool" where
  "raw_done ret \<longleftrightarrow> ret = 0x00 \<or> ret = 0x02"

definition notifyRawPacket :: "environment \<Rightarrow> u16 \<Rightarrow> tracker \<Rightarrow> tracker option" where
  "notifyRawPacket env h t =
     (let handed =
        (case mm_lower_bound (\<lambda>h. h) h (raw_packet_to_notify t) of
           [] \<Rightarrow> Some t
         | e # _ \<Rightarrow>
             let u = alter_connection h (\<lambda>c. c) t;
                 c = map_at BleConnection_blank h (connections u)
             in if ASSERT_DEBUG env (has_data_to_send c)
                then
                  let (ret, v) = bt_invoke env
                        (ServerNotify h (packet_characteristic_value_handle c) (snd e)) u
                  in Some (if raw_done ret
                           then v\<lparr>raw_packet_to_notify :=
                                    mm_erase_first (\<lambda>h. h) h (raw_packet_to_notify v)\<rparr>
                           else v)
                else None)
      in map_option (\<lambda>t1.
           if mm_lower_bound (\<lambda>h. h) h (raw_packet_to_notify t1) = []
           then alter_connection h (\<lambda>c. c) t1
           else snd (bt_invoke env (RequestNotification h) (t1\<lparr>notify_registration := h\<rparr>))) handed)"

definition writeRawPacket :: "environment \<Rightarrow> u16 \<Rightarrow> tracker \<Rightarrow> tracker option" where
  "writeRawPacket env h t =
     (let handed =
        (case mm_lower_bound (\<lambda>h. h) h (raw_packet_to_write t) of
           [] \<Rightarrow> Some t
         | e # _ \<Rightarrow>
             let u = alter_connection h (\<lambda>c. c) t;
                 c = map_at BleConnection_blank h (connections u)
             in if ASSERT_DEBUG env (has_data_to_send c)
                then
                  let (ret, v) = bt_invoke env
                        (ClientWrite h (packet_characteristic_value_handle c) (snd e)) u
                  in Some (if raw_done ret
                           then v\<lparr>raw_packet_to_write :=
                                    mm_erase_first (\<lambda>h. h) h (raw_packet_to_write v)\<rparr>
                           else v)
                else None)
      in map_option (\<lambda>t1.
           if mm_lower_bound (\<lambda>h. h) h (raw_packet_to_write t1) = []
           then alter_connection h (\<lambda>c. c) t1
           else snd (bt_invoke env (RequestWrite h) (t1\<lparr>write_registration := h\<rparr>))) handed)"

text \<open>
  The callbacks take the handle from the registration they were called for. There is one
  registration for notifications and one for writes.
\<close>

definition packet_can_send_notification_handler :: "environment \<Rightarrow> tracker \<Rightarrow> tracker option" where
  "packet_can_send_notification_handler env t = notifyRawPacket env (notify_registration t) t"

definition packet_can_write_without_response_handler ::
  "environment \<Rightarrow> tracker \<Rightarrow> tracker option" where
  "packet_can_write_without_response_handler env t = writeRawPacket env (write_registration t) t"

subsection \<open>Signal strength\<close>

text \<open>
  The function's static iterator is an argument, \<open>None\<close> being \<open>end()\<close>. The result \<open>None\<close> is
  undefined behaviour: the iterator is \<open>end()\<close> of an empty map, or its element is gone.
\<close>

definition map_next :: "u16 \<Rightarrow> (u16 \<times> 'v) list \<Rightarrow> u16 option" where
  "map_next h m = (case dropWhile (\<lambda>e. fst e \<le> h) m of [] \<Rightarrow> None | e # _ \<Rightarrow> Some (fst e))"

definition requestNextRssi :: "environment \<Rightarrow> bool \<Rightarrow> u16 option \<Rightarrow> tracker
    \<Rightarrow> (bool \<times> u16 option \<times> tracker) option" where
  "requestNextRssi env restart iterator t =
     (let start = (case connections t of [] \<Rightarrow> None | e # _ \<Rightarrow> Some (fst e));
          i = (if iterator = None \<or> restart then start else iterator)
      in case i of
           None \<Rightarrow> None
         | Some h \<Rightarrow>
             if map_find h (connections t) = None then None
             else let j = map_next h (connections t)
                  in Some (j \<noteq> None, j, snd (bt_invoke env (ReadRssi h) t)))"

end
