(* ===== verification/Sending_Port.thy ===== *)
theory Sending_Port
  imports Tracker_Send
begin

section \<open>What the two ports of sendPackets share\<close>

text \<open>
  \<open>sendPackets\<close> exists twice, for the board of \<^verbatim>\<open>main.cpp\<close> and for the ESP32. Both walk the queues
  in the same way and differ in how one packet is transmitted, in the state that takes, and in
  which links can be used. The locale states the walks over such a \<open>transmit\<close>; \<open>trk\<close> and \<open>put\<close>
  read and write the tracker in the state of the port. What every transmission and every record
  keeps, the whole of \<open>sendPackets\<close> keeps.
\<close>

locale sending_port =
  fixes env :: environment
    and trk :: "'s \<Rightarrow> tracker"
    and put :: "tracker \<Rightarrow> 's \<Rightarrow> 's"
    and transmit :: "packet_ref \<Rightarrow> u16 \<Rightarrow> 's \<Rightarrow> bool \<times> 's"
    and usable :: "tracker \<Rightarrow> (u16 \<times> ble_connection) list"
    and targeted :: "(packet_ref \<times> u16) list \<Rightarrow> 's \<Rightarrow> packet_ref list \<times> 's"
    and to_all :: "packet_ref \<Rightarrow> (u16 \<times> ble_connection) list \<Rightarrow> 's \<Rightarrow> 's"
    and broadcast :: "packet_ref list \<Rightarrow> 's \<Rightarrow> packet_ref option \<times> 's"
    and send_round :: "'s \<Rightarrow> bool \<times> 's"
  assumes trk_put: "trk (put t s) = t"
    and targeted_Nil: "targeted [] s = ([], s)"
    and targeted_Cons: "targeted ((p, con) # rest) s =
      (if packet_needed (trk s) (p, con)
       then let (ok, s1) = transmit p con s
            in if ok
               then let (removed, s2) = targeted rest (put (mark_sent env p con (trk s1)) s1)
                    in (p # removed, s2)
               else targeted rest s1
       else targeted rest s)"
    and to_all_Nil: "to_all p [] s = s"
    and to_all_Cons: "to_all p ((con, c) # cs) s =
      to_all p cs
        (if broadcast_sendable (trk s) p c
         then let s1 = snd (transmit p con s) in put (mark_sent env p con (trk s1)) s1
         else s)"
    and broadcast_Nil: "broadcast [] s = (None, s)"
    and broadcast_Cons: "broadcast (p # ps) s =
      (if usable (trk s) = [] then broadcast ps s else (Some p, to_all p (usable (trk s)) s))"
    and send_round: "send_round s =
      (if \<not> havePacketsToSend (trk s) then (False, s)
       else
         let (removed, s1) = targeted (targeted_packets_to_send_list (trk s)) s;
             s2 = put ((trk s1)\<lparr>targeted_packets_to_send_list :=
                    erase_if (\<lambda>e. fst e \<in> set removed) (targeted_packets_to_send_list (trk s1))\<rparr>) s1;
             (sent, s3) = broadcast (broadcast_packets_to_send_list (trk s2)) s2
         in (True, put ((trk s3)\<lparr>broadcast_packets_to_send_list :=
                     erase_if (\<lambda>p. sent = Some p) (broadcast_packets_to_send_list (trk s3))\<rparr>) s3))"
begin

lemma targeted_preserves:
  assumes "\<And>p con s. Q s \<Longrightarrow> Q (snd (transmit p con s))"
    and "\<And>p con s. Q s \<Longrightarrow> Q (put (mark_sent env p con (trk s)) s)"
  shows "Q s \<Longrightarrow> Q (snd (targeted es s))"
proof (induction es arbitrary: s)
  case (Cons e es)
  obtain p con where e: "e = (p, con)" by (cases e)
  have sent: "Q (snd (transmit p con s))" using Cons.prems by (rule assms(1))
  show ?case
    using Cons.IH [OF Cons.prems] Cons.IH [OF sent] Cons.IH [OF assms(2) [OF sent]]
    by (simp add: e targeted_Cons split_def Let_def)
qed (simp add: targeted_Nil)

lemma to_all_preserves:
  assumes "\<And>p con s. Q s \<Longrightarrow> Q (snd (transmit p con s))"
    and "\<And>p con s. Q s \<Longrightarrow> Q (put (mark_sent env p con (trk s)) s)"
  shows "Q s \<Longrightarrow> Q (to_all p cs s)"
proof (induction cs arbitrary: s)
  case (Cons e cs)
  obtain con c where e: "e = (con, c)" by (cases e)
  have "Q (put (mark_sent env p con (trk (snd (transmit p con s)))) (snd (transmit p con s)))"
    by (intro assms Cons.prems)
  from Cons.IH [OF this] Cons.IH [OF Cons.prems] show ?case by (simp add: e to_all_Cons Let_def)
qed (simp add: to_all_Nil)

lemma broadcast_preserves:
  assumes "\<And>p con s. Q s \<Longrightarrow> Q (snd (transmit p con s))"
    and "\<And>p con s. Q s \<Longrightarrow> Q (put (mark_sent env p con (trk s)) s)"
  shows "Q s \<Longrightarrow> Q (snd (broadcast ps s))"
  using to_all_preserves [where Q = Q, OF assms]
  by (induction ps) (simp_all add: broadcast_Nil broadcast_Cons)

lemma round_preserves:
  assumes "\<And>p con s. Q s \<Longrightarrow> Q (snd (transmit p con s))"
    and "\<And>p con s. Q s \<Longrightarrow> Q (put (mark_sent env p con (trk s)) s)"
    and "\<And>es s. Q s \<Longrightarrow> Q (put ((trk s)\<lparr>targeted_packets_to_send_list := es\<rparr>) s)"
    and "\<And>ps s. Q s \<Longrightarrow> Q (put ((trk s)\<lparr>broadcast_packets_to_send_list := ps\<rparr>) s)"
    and "Q s"
  shows "Q (snd (send_round s))"
  using assms(3-5) targeted_preserves [where Q = Q, OF assms(1,2)]
    broadcast_preserves [where Q = Q, OF assms(1,2)]
  by (simp add: send_round split_def Let_def)

lemma broadcast_none: "usable (trk s) = [] \<Longrightarrow> broadcast ps s = (None, s)"
  by (induction ps) (simp_all add: broadcast_Nil broadcast_Cons)

end

text \<open>The board of \<^verbatim>\<open>main.cpp\<close>: its state is the tracker.\<close>

interpretation board: sending_port env "\<lambda>t. t" "\<lambda>t s. t" "SendPacketToConnection env"
  available_connections "send_targeted env" "broadcast_to env" "send_broadcast env" "sendPackets env"
  for env
  by unfold_locales (simp_all add: sendPackets_def Let_def split_def)

end
