(* ===== verification/Tracker_Invariant.thy ===== *)
theory Tracker_Invariant
  imports Sending_Port
begin

section \<open>No operation of the tracker leaves a dangling pointer\<close>

subsection \<open>The invariant\<close>

definition live_packet :: "tracker \<Rightarrow> packet_ref \<Rightarrow> bool" where
  "live_packet t p \<longleftrightarrow> packet_base t p \<noteq> None"

definition live_connection :: "tracker \<Rightarrow> u16 \<Rightarrow> bool" where
  "live_connection t h \<longleftrightarrow> connection_at t h \<noteq> None"

definition live_peer :: "tracker \<Rightarrow> u64 \<Rightarrow> bool" where
  "live_peer t i \<longleftrightarrow> map_find i (peers t) \<noteq> None"

definition refs_ok :: "tracker \<Rightarrow> bool" where
  "refs_ok t \<longleftrightarrow>
     (\<forall>e \<in> set (packets_connections_sent_list t).
        live_packet t (fst e) \<and> live_connection t (snd e)) \<and>
     (\<forall>e \<in> set (targeted_packets_to_send_list t).
        live_packet t (fst e) \<and> live_connection t (snd e)) \<and>
     (\<forall>e \<in> set (packets_peers_sent_list t). live_packet t (fst e) \<and> live_peer t (snd e)) \<and>
     (\<forall>p \<in> set (broadcast_packets_to_send_list t). live_packet t p) \<and>
     (\<forall>e \<in> set (handle_peer_map t). live_peer t (snd e))"

text \<open>
  The maps are ordered, stored messages are well-formed and filed under their ids, and no
  packet is queued twice for one connection or sent to it twice.
\<close>

definition stores_ok :: "tracker \<Rightarrow> bool" where
  "stores_ok t \<longleftrightarrow>
     map_sorted (peers t) \<and> map_sorted (messages t) \<and> map_sorted (announces t) \<and>
     map_sorted (connections t) \<and> map_sorted (available_neighbours t) \<and>
     map_sorted (handle_peer_map t) \<and>
     mm_sorted (\<lambda>h. h) (raw_packet_to_notify t) \<and> mm_sorted (\<lambda>h. h) (raw_packet_to_write t) \<and>
     (\<forall>e \<in> set (messages t). message_id (snd e) = fst e \<and> \<not> malformed (snd e)) \<and>
     (\<forall>e \<in> set (announces t). \<not> malformed (snd e)) \<and>
     distinct (targeted_packets_to_send_list t) \<and> distinct (packets_connections_sent_list t)"

definition tracker_ok :: "tracker \<Rightarrow> bool" where
  "tracker_ok t \<longleftrightarrow> stores_ok t \<and> refs_ok t"

subsection \<open>Growing stores\<close>

text \<open>
  \<open>grows t u\<close>: everything a pointer can point to in \<open>t\<close> is still there in \<open>u\<close>.
  \<open>queues_within t u\<close>: \<open>u\<close> holds no pointers that \<open>t\<close> does not hold.
\<close>

definition grows :: "tracker \<Rightarrow> tracker \<Rightarrow> bool" where
  "grows t u \<longleftrightarrow>
     (\<forall>i. map_find i (messages t) \<noteq> None \<longrightarrow> map_find i (messages u) \<noteq> None) \<and>
     (\<forall>i. map_find i (announces t) \<noteq> None \<longrightarrow> map_find i (announces u) \<noteq> None) \<and>
     (\<forall>i. map_find i (connections t) \<noteq> None \<longrightarrow> map_find i (connections u) \<noteq> None) \<and>
     (\<forall>i. map_find i (peers t) \<noteq> None \<longrightarrow> map_find i (peers u) \<noteq> None)"

definition queues_within :: "tracker \<Rightarrow> tracker \<Rightarrow> bool" where
  "queues_within t u \<longleftrightarrow>
     set (packets_connections_sent_list u) \<subseteq> set (packets_connections_sent_list t) \<and>
     set (targeted_packets_to_send_list u) \<subseteq> set (targeted_packets_to_send_list t) \<and>
     set (packets_peers_sent_list u) \<subseteq> set (packets_peers_sent_list t) \<and>
     set (broadcast_packets_to_send_list u) \<subseteq> set (broadcast_packets_to_send_list t) \<and>
     set (handle_peer_map u) \<subseteq> set (handle_peer_map t)"

lemma grows_refl [simp]: "grows t t" by (simp add: grows_def)

lemma grows_trans: "grows t u \<Longrightarrow> grows u v \<Longrightarrow> grows t v"
  by (auto simp: grows_def)

lemma queues_within_refl [simp]: "queues_within t t" by (simp add: queues_within_def)

lemma queues_within_trans: "queues_within t u \<Longrightarrow> queues_within u v \<Longrightarrow> queues_within t v"
  unfolding queues_within_def by blast

lemma live_mono:
  assumes "grows t u"
  shows "live_packet t p \<Longrightarrow> live_packet u p"
    and "live_connection t h \<Longrightarrow> live_connection u h"
    and "live_peer t i \<Longrightarrow> live_peer u i"
  using assms
  by (auto simp: grows_def live_packet_def packet_base_def live_connection_def connection_at_def
      live_peer_def split: packet_ref.splits)

lemma refs_ok_grows:
  assumes "refs_ok t" and "grows t u" and "queues_within t u"
  shows "refs_ok u"
  using assms(1,3) live_mono [OF assms(2)] unfolding refs_ok_def queues_within_def by blast

subsection \<open>Each operation keeps the stores\<close>

named_theorems op_grows
named_theorems op_within
named_theorems op_stores

lemma alter_connection_facts [simp, op_grows, op_within]:
  "grows t (alter_connection h f t)" "queues_within t (alter_connection h f t)"
  by (simp_all add: grows_def queues_within_def alter_connection_def)

lemma alter_connection_stores [op_stores]:
  "stores_ok t \<Longrightarrow> stores_ok (alter_connection h f t)"
  by (simp add: stores_ok_def alter_connection_def)

lemma bt_invoke_facts [simp, op_grows, op_within]:
  "grows t (snd (bt_invoke env c t))" "queues_within t (snd (bt_invoke env c t))"
  by (simp_all add: grows_def queues_within_def bt_invoke_def)

lemma bt_invoke_stores [op_stores]:
  "stores_ok t \<Longrightarrow> stores_ok (snd (bt_invoke env c t))"
  by (simp add: stores_ok_def bt_invoke_def)

lemma grows_step:
  "grows t u \<Longrightarrow> grows t (alter_connection h f u)"
  "grows t u \<Longrightarrow> grows t (snd (bt_invoke env c u))"
  "queues_within t u \<Longrightarrow> queues_within t (alter_connection h f u)"
  "queues_within t u \<Longrightarrow> queues_within t (snd (bt_invoke env c u))"
  by (auto intro: grows_trans queues_within_trans)

lemma connectionForConnHandle_facts [op_grows, op_within]:
  "grows t (snd (connectionForConnHandle h t))"
  "queues_within t (snd (connectionForConnHandle h t))"
  by (simp_all add: connectionForConnHandle_def split: option.split)

lemma connectionForConnHandle_stores [op_stores]:
  "stores_ok t \<Longrightarrow> stores_ok (snd (connectionForConnHandle h t))"
  by (simp add: connectionForConnHandle_def alter_connection_stores split: option.split)

lemma connectionForConnHandle_live:
  "fst (connectionForConnHandle h t) = h"
  "live_connection (snd (connectionForConnHandle h t)) h"
  by (simp_all add: connectionForConnHandle_def live_connection_def connection_at_def
      alter_connection_def split: option.split)

lemma set_map_put: "set (map_put k v m) \<subseteq> insert (k, v) (set m)"
  by (induction k v m rule: map_put.induct) auto

lemma storeMessage_facts [op_grows, op_within]:
  "grows t (snd (storeMessageAndReturnIfNew m t))"
  "queues_within t (snd (storeMessageAndReturnIfNew m t))"
  by (simp_all add: storeMessageAndReturnIfNew_def grows_def queues_within_def split: option.split)

lemma storeMessage_stores [op_stores]:
  "stores_ok t \<Longrightarrow> stores_ok (snd (storeMessageAndReturnIfNew m t))"
  using set_map_put [of "message_id m" m "messages t"]
  by (fastforce simp: storeMessageAndReturnIfNew_def stores_ok_def split: option.split)

lemma storeAnnounce_facts [op_grows, op_within]:
  "grows t (snd (storeAnnounceAndReturnIfNew env a t))"
  "queues_within t (snd (storeAnnounceAndReturnIfNew env a t))"
  by (simp_all add: storeAnnounceAndReturnIfNew_def Let_def grows_def queues_within_def)

lemma storeAnnounce_stores [op_stores]:
  "stores_ok t \<Longrightarrow> stores_ok (snd (storeAnnounceAndReturnIfNew env a t))"
  using set_map_put [of "getAnnounceHash (env_hash env) a" a "announces t"]
  by (fastforce simp: storeAnnounceAndReturnIfNew_def Let_def stores_ok_def)

lemma checkSender_facts [op_grows, op_within]:
  "grows t (snd (checkSenderInPeers s t))"
  "queues_within t (snd (checkSenderInPeers s t))"
  by (simp_all add: checkSenderInPeers_def grows_def queues_within_def split: option.split)

lemma checkSender_stores [op_stores]:
  "stores_ok t \<Longrightarrow> stores_ok (snd (checkSenderInPeers s t))"
  by (simp add: checkSenderInPeers_def stores_ok_def split: option.split)

lemma checkSender_live:
  "fst (checkSenderInPeers s t) = s" "live_peer (snd (checkSenderInPeers s t)) s"
  by (simp_all add: checkSenderInPeers_def live_peer_def split: option.split)

lemma map_find_map_snd:
  "map_find k (map (\<lambda>(h, c). (h, f h c)) m) = map_option (f k) (map_find k m)"
  by (induction m) (auto simp: map_find_def)

lemma addAvailablePeer_facts [op_grows, op_within]:
  "grows t (addAvailablePeer env a ty s r c t)"
  "queues_within t (addAvailablePeer env a ty s r c t)"
  by (simp_all add: addAvailablePeer_def Let_def updateRssiForActiveConnections_def grows_def
      queues_within_def map_find_map_snd)

lemma map_sorted_map_snd:
  assumes "map_sorted m"
  shows "map_sorted (map (\<lambda>(h, c). (h, f h c)) m)"
proof -
  have "map fst (map (\<lambda>(h, c). (h, f h c)) m) = map fst m" by (induction m) auto
  with assms show ?thesis unfolding map_sorted_def by (simp only:)
qed

lemma addAvailablePeer_stores [op_stores]:
  "stores_ok t \<Longrightarrow> stores_ok (addAvailablePeer env a ty s r c t)"
  by (simp add: addAvailablePeer_def Let_def updateRssiForActiveConnections_def stores_ok_def
      map_sorted_map_snd)

lemma setConnectionStarted_facts [op_grows, op_within]:
  "grows t (setConnectionStarted c t)" "queues_within t (setConnectionStarted c t)"
  by (simp_all add: setConnectionStarted_def grows_def queues_within_def)

lemma setConnectionStarted_stores [op_stores]:
  "stores_ok t \<Longrightarrow> stores_ok (setConnectionStarted c t)"
  by (simp add: setConnectionStarted_def stores_ok_def)

lemma reportConnectionFailure_facts [op_grows, op_within]:
  "grows t (reportConnectionFailure a r t)" "queues_within t (reportConnectionFailure a r t)"
  by (simp_all add: reportConnectionFailure_def Let_def grows_def queues_within_def
      split: option.split)

lemma reportConnectionFailure_stores [op_stores]:
  "stores_ok t \<Longrightarrow> stores_ok (reportConnectionFailure a r t)"
  by (simp add: reportConnectionFailure_def Let_def stores_ok_def split: option.split)

lemma reportConnection_facts [op_grows, op_within]:
  "grows t (reportConnection env h a ty t)" "queues_within t (reportConnection env h a ty t)"
  by (simp_all add: reportConnection_def Let_def grows_def queues_within_def alter_connection_def
      split: option.split)

lemma reportConnection_stores [op_stores]:
  "stores_ok t \<Longrightarrow> stores_ok (reportConnection env h a ty t)"
  by (simp add: reportConnection_def Let_def stores_ok_def alter_connection_def
      split: option.split)

lemma reportConnection_role_facts [op_grows, op_within]:
  "grows t (reportConnection_role env h a ty r t)"
  "queues_within t (reportConnection_role env h a ty r t)"
  unfolding reportConnection_role_def Let_def
  by (auto intro!: grows_step reportConnection_facts)

lemma reportConnection_role_stores [op_stores]:
  "stores_ok t \<Longrightarrow> stores_ok (reportConnection_role env h a ty r t)"
  unfolding reportConnection_role_def Let_def by (simp add: op_stores)

lemma updatePreferences_facts [op_grows, op_within]:
  "grows t (updatePreferences env p s t)" "queues_within t (updatePreferences env p s t)"
  by (simp_all add: updatePreferences_def Let_def grows_def queues_within_def bt_invoke_def)

lemma updatePreferences_stores [op_stores]:
  "stores_ok t \<Longrightarrow> stores_ok (updatePreferences env p s t)"
  by (simp add: updatePreferences_def Let_def stores_ok_def bt_invoke_def)

lemma possiblyUpdateTimeOffset_facts [op_grows, op_within]:
  "grows t (possiblyUpdateTimeOffset env ts t)" "queues_within t (possiblyUpdateTimeOffset env ts t)"
  by (simp_all add: possiblyUpdateTimeOffset_def Let_def grows_def queues_within_def)

lemma possiblyUpdateTimeOffset_stores [op_stores]:
  "stores_ok t \<Longrightarrow> stores_ok (possiblyUpdateTimeOffset env ts t)"
  by (simp add: possiblyUpdateTimeOffset_def Let_def stores_ok_def)

lemma duplicate_scan_facts:
  "grows t (snd (duplicate_scan m r t))" "queues_within t (snd (duplicate_scan m r t))"
  "stores_ok t \<Longrightarrow> stores_ok (snd (duplicate_scan m r t))"
  by (induction m r t rule: duplicate_scan.induct)
    (auto simp: Let_def op_stores intro!: grows_step)

lemma getAnyDuplicateHandle_facts [op_grows, op_within]:
  "grows t (snd (getAnyDuplicateHandle t))" "queues_within t (snd (getAnyDuplicateHandle t))"
  by (simp_all add: getAnyDuplicateHandle_def duplicate_scan_facts)

lemma getAnyDuplicateHandle_stores [op_stores]:
  "stores_ok t \<Longrightarrow> stores_ok (snd (getAnyDuplicateHandle t))"
  by (simp add: getAnyDuplicateHandle_def duplicate_scan_facts)

subsection \<open>Sending keeps the stores\<close>

lemma written_message:
  "message_id (snd (Message_writePacket m)) = message_id m"
  "malformed (snd (Message_writePacket m)) = malformed m"
  by (simp_all add: Message_writePacket_def writePacket_def Let_def Message_getPayloadLength_def
      setPayloadLength_def split: prod.split)

lemma written_announce: "malformed (snd (Announce_writePacket a)) = malformed a"
  by (simp add: Announce_writePacket_def writePacket_def Let_def Announce_getPayloadLength_def
      setPayloadLength_def split: prod.split)

lemma packet_write_facts [op_grows, op_within]:
  "grows t (snd (packet_write p t))" "queues_within t (snd (packet_write p t))"
  by (auto simp: packet_write_def grows_def queues_within_def Let_def split: packet_ref.split
      option.split prod.split)

lemma packet_write_stores [op_stores]:
  assumes "stores_ok t"
  shows "stores_ok (snd (packet_write p t))"
proof (cases p)
  case (MessageRef i)
  show ?thesis
  proof (cases "map_find i (messages t)")
    case (Some m)
    then have m: "message_id m = i" "\<not> malformed m"
      using assms by (auto simp: stores_ok_def map_find_Some_iff)
    define m' where "m' = snd (Message_writePacket m)"
    have m': "message_id m' = i" "\<not> malformed m'" using m by (simp_all add: m'_def written_message)
    have "snd (packet_write p t) = t\<lparr>messages := map_put i m' (messages t)\<rparr>"
      using Some by (simp add: MessageRef packet_write_def m'_def split: prod.split)
    then show ?thesis
      using assms m' set_map_put [of i m' "messages t"] by (auto simp: stores_ok_def)
  qed (use assms in \<open>simp add: MessageRef packet_write_def\<close>)
next
  case (AnnounceRef h)
  show ?thesis
  proof (cases "map_find h (announces t)")
    case (Some a)
    then have "\<not> malformed a" using assms by (auto simp: stores_ok_def map_find_Some_iff)
    define a' where "a' = snd (Announce_writePacket a)"
    have a': "\<not> malformed a'" using \<open>\<not> malformed a\<close> by (simp add: a'_def written_announce)
    have "snd (packet_write p t) = t\<lparr>announces := map_put h a' (announces t)\<rparr>"
      using Some by (simp add: AnnounceRef packet_write_def a'_def split: prod.split)
    then show ?thesis
      using assms a' set_map_put [of h a' "announces t"] by (auto simp: stores_ok_def)
  qed (use assms in \<open>simp add: AnnounceRef packet_write_def\<close>)
next
  case OwnAnnounceRef
  then show ?thesis
    using assms by (simp add: packet_write_def stores_ok_def split: prod.split)
qed

lemma queue_raw_packet_facts:
  "grows t (snd (queue_raw_packet env con c data t))"
  "queues_within t (snd (queue_raw_packet env con c data t))"
  by (simp_all add: queue_raw_packet_def Let_def bt_invoke_def alter_connection_def grows_def
      queues_within_def)

lemma queue_raw_packet_stores:
  "stores_ok t \<Longrightarrow> stores_ok (snd (queue_raw_packet env con c data t))"
  by (simp add: queue_raw_packet_def Let_def bt_invoke_def alter_connection_def stores_ok_def
      mm_sorted_emplace)

text \<open>The ways \<open>SendPacketToConnection\<close> can end.\<close>

lemma SendPacketToConnection_cases:
  obtains (none) "snd (SendPacketToConnection env p con t) = t"
    | (big) "snd (SendPacketToConnection env p con t) = snd (packet_write p t)"
    | (queued) c where "snd (SendPacketToConnection env p con t) =
        snd (queue_raw_packet env con c (fst (packet_write p t)) (snd (packet_write p t)))"
proof -
  have "snd (SendPacketToConnection env p con t) = t \<or>
      snd (SendPacketToConnection env p con t) = snd (packet_write p t) \<or>
      (\<exists>c. snd (SendPacketToConnection env p con t) =
        snd (queue_raw_packet env con c (fst (packet_write p t)) (snd (packet_write p t))))"
    by (auto simp: SendPacketToConnection_def split_def Let_def split: option.split)
  then show ?thesis using that by blast
qed

lemma SendPacketToConnection_facts [op_grows, op_within]:
  "grows t (snd (SendPacketToConnection env p con t))"
  "queues_within t (snd (SendPacketToConnection env p con t))"
  by (cases rule: SendPacketToConnection_cases [of env p con t];
      auto intro: grows_trans queues_within_trans packet_write_facts queue_raw_packet_facts)+

lemma SendPacketToConnection_stores [op_stores]:
  "stores_ok t \<Longrightarrow> stores_ok (snd (SendPacketToConnection env p con t))"
  by (cases rule: SendPacketToConnection_cases [of env p con t])
    (auto intro!: packet_write_stores queue_raw_packet_stores)

subsection \<open>Every operation keeps the invariant\<close>

named_theorems op_ok

lemma ok_grows:
  "tracker_ok t \<Longrightarrow> stores_ok u \<Longrightarrow> grows t u \<Longrightarrow> queues_within t u \<Longrightarrow> tracker_ok u"
  unfolding tracker_ok_def using refs_ok_grows by blast

lemma ok_stores: "tracker_ok t \<Longrightarrow> stores_ok t"
  by (simp add: tracker_ok_def)

lemma simple_op_ok [op_ok]:
  assumes "tracker_ok t"
  shows "tracker_ok (snd (connectionForConnHandle h t))"
    and "tracker_ok (snd (storeMessageAndReturnIfNew m t))"
    and "tracker_ok (snd (storeAnnounceAndReturnIfNew env a t))"
    and "tracker_ok (snd (checkSenderInPeers sender t))"
    and "tracker_ok (addAvailablePeer env addr ty sv rs cd t)"
    and "tracker_ok (setConnectionStarted c t)"
    and "tracker_ok (reportConnectionFailure addr r t)"
    and "tracker_ok (reportConnection env h addr ty t)"
    and "tracker_ok (reportConnection_role env h addr ty rl t)"
    and "tracker_ok (updatePreferences env p save t)"
    and "tracker_ok (possiblyUpdateTimeOffset env ts t)"
    and "tracker_ok (snd (getAnyDuplicateHandle t))"
    and "tracker_ok (snd (SendPacketToConnection env q con t))"
    and "tracker_ok (alter_connection h f t)"
    and "tracker_ok (snd (bt_invoke env call t))"
  by (rule ok_grows [OF assms];
      (rule op_stores [OF ok_stores [OF assms]] | rule op_grows | rule op_within))+

lemma setConnectionHandleForPeer_ok [op_ok]:
  assumes "tracker_ok t" and "live_peer t i"
  shows "tracker_ok (setConnectionHandleForPeer h i t)"
proof -
  let ?u = "setConnectionHandleForPeer h i t"
  have "set (handle_peer_map ?u) \<subseteq> insert (h, i) (set (handle_peer_map t))"
    using set_map_put by (simp add: setConnectionHandleForPeer_def)
  then have "\<forall>e \<in> set (handle_peer_map ?u). live_peer t (snd e)"
    using assms by (auto simp: tracker_ok_def refs_ok_def)
  then show ?thesis
    using assms
    by (simp add: tracker_ok_def stores_ok_def refs_ok_def setConnectionHandleForPeer_def
        live_packet_def packet_base_def live_connection_def connection_at_def live_peer_def
        cong: packet_ref.case_cong)
qed

lemma distinct_mm_emplace:
  "distinct m \<Longrightarrow> (k, v) \<notin> set m \<Longrightarrow> distinct (mm_emplace r k v m)"
  by (induction m) auto

lemma enqueueTargetedPacket_ok [op_ok]:
  assumes "tracker_ok t"
  shows "tracker_ok (enqueueTargetedPacket env p c t)"
proof -
  obtain con t1 where c1: "connectionForConnHandle (connection_handle c) t = (con, t1)"
    by (cases "connectionForConnHandle (connection_handle c) t")
  have t1: "tracker_ok t1" "grows t t1" "live_connection t1 con"
    using simple_op_ok(1) [OF assms, of "connection_handle c"]
      connectionForConnHandle_facts(1) [of t "connection_handle c"]
      connectionForConnHandle_live [of "connection_handle c" t]
    by (simp_all add: c1)
  have new: "tracker_ok (t1\<lparr>targeted_packets_to_send_list :=
      mm_emplace (env_address env) p con (targeted_packets_to_send_list t1)\<rparr>)"
    if "live_packet t1 p" and "(p, con) \<notin> set (targeted_packets_to_send_list t1)"
    using t1(1,3) that
    by (simp add: tracker_ok_def stores_ok_def refs_ok_def live_packet_def packet_base_def
        live_connection_def connection_at_def live_peer_def distinct_mm_emplace
        cong: packet_ref.case_cong)
  show ?thesis
  proof (cases "packet_base t p")
    case (Some b)
    then have "live_packet t1 p"
      using live_mono(1) [OF t1(2), of p] by (simp add: live_packet_def)
    then show ?thesis
      using Some assms t1(1) new
      by (auto simp: enqueueTargetedPacket_def c1 mm_equal_range_def list_ex_iff)
  qed (use assms in \<open>simp add: enqueueTargetedPacket_def\<close>)
qed

lemma enqueueBroadcastPacket_ok [op_ok]:
  "tracker_ok t \<Longrightarrow> tracker_ok (enqueueBroadcastPacket p t)"
  by (auto simp: enqueueBroadcastPacket_def tracker_ok_def stores_ok_def refs_ok_def
      live_packet_def packet_base_def live_connection_def connection_at_def live_peer_def
      split: option.split cong: packet_ref.case_cong)

lemma packets_peers_ok:
  "tracker_ok t \<Longrightarrow> live_packet t p \<Longrightarrow> live_peer t i \<Longrightarrow>
   tracker_ok (t\<lparr>packets_peers_sent_list := mm_emplace r p i (packets_peers_sent_list t)\<rparr>)"
  by (simp add: tracker_ok_def stores_ok_def refs_ok_def live_packet_def packet_base_def
      live_connection_def connection_at_def live_peer_def cong: packet_ref.case_cong)

lemma enqueueBroadcastPacket_from_ok [op_ok]:
  "tracker_ok t \<Longrightarrow> live_packet t p \<Longrightarrow> live_peer t i \<Longrightarrow>
   tracker_ok (enqueueBroadcastPacket_from env p i t)"
  unfolding enqueueBroadcastPacket_from_def
  by (intro enqueueBroadcastPacket_ok packets_peers_ok)

subsection \<open>Sending\<close>

lemma mark_sent_ok:
  "tracker_ok t \<Longrightarrow> live_packet t p \<Longrightarrow> live_connection t con \<Longrightarrow>
   (p, con) \<notin> set (packets_connections_sent_list t) \<Longrightarrow> tracker_ok (mark_sent env p con t)"
  by (simp add: mark_sent_def tracker_ok_def stores_ok_def refs_ok_def live_packet_def
      packet_base_def live_connection_def connection_at_def live_peer_def distinct_mm_emplace
      cong: packet_ref.case_cong)

lemma mark_sent_grows [simp]: "grows t (mark_sent env p con t)"
  by (simp add: mark_sent_def grows_def)

lemma SendPacketToConnection_sent_list [simp]:
  "packets_connections_sent_list (snd (SendPacketToConnection env p con t)) =
     packets_connections_sent_list t"
proof -
  have kept: "packets_connections_sent_list (snd (packet_write p t)) =
      packets_connections_sent_list t"
    by (auto simp: packet_write_def Let_def split: packet_ref.split option.split prod.split)
  show ?thesis
    by (cases rule: SendPacketToConnection_cases [of env p con t])
      (simp_all add: kept queue_raw_packet_def Let_def bt_invoke_def alter_connection_def)
qed

text \<open>Both filters of \<open>sendPackets\<close> keep a packet from going to a connection again.\<close>

lemma packet_needed_new:
  "packet_needed t (p, con) \<Longrightarrow> (p, con) \<notin> set (packets_connections_sent_list t)"
  by (auto simp: packet_needed_def mm_equal_range_def list_ex_iff)

lemma find_on_keeps: "(p, con) \<in> set m \<Longrightarrow> (p, con) \<in> set (mm_find_on p m)"
  by (induction m) (auto simp: mm_find_on_def)

lemma broadcast_sendable_new:
  assumes "broadcast_sendable t p c" and "handle_of t con = Some (connection_handle c)"
  shows "(p, con) \<notin> set (packets_connections_sent_list t)"
  using assms find_on_keeps [of p con] by (fastforce simp: broadcast_sendable_def list_ex_iff)

text \<open>Sending changes no handle.\<close>

lemma packet_write_connections [simp]:
  "connections (snd (packet_write p t)) = connections t"
  by (auto simp: packet_write_def Let_def split: packet_ref.split option.split prod.split)

lemma SendPacketToConnection_handle_of [simp]:
  "handle_of (snd (SendPacketToConnection env p con t)) h = handle_of t h"
proof (cases "connection_at t con")
  case (Some c)
  have "connections (snd (queue_raw_packet env con d data (snd (packet_write p t)))) =
      map_alter BleConnection_blank con (\<lambda>c. setHasData c True) (connections t)" for d data
    by (simp add: queue_raw_packet_def Let_def bt_invoke_def alter_connection_def)
  then have queued: "handle_of (snd (queue_raw_packet env con d data (snd (packet_write p t)))) h =
      handle_of t h" for d data
    using Some by (auto simp: handle_of_def connection_at_def setHasData_def)
  have same: "handle_of (snd (packet_write p t)) h = handle_of t h"
    by (simp add: handle_of_def connection_at_def)
  show ?thesis
    by (cases rule: SendPacketToConnection_cases [of env p con t]) (simp_all add: queued same)
qed (simp add: SendPacketToConnection_def split: option.split)

lemma mark_sent_handle_of [simp]: "handle_of (mark_sent env p con t) h = handle_of t h"
  by (simp add: handle_of_def connection_at_def mark_sent_def)

lemma available_connection_at:
  assumes "stores_ok t" and "(h, c) \<in> set (available_connections t)"
  shows "connection_at t h = Some c" and "available c"
  using assms map_find_Some_iff [of "connections t" h c]
  by (simp_all add: available_connections_def connection_at_def stores_ok_def)

lemma drop_queued_ok:
  assumes "tracker_ok t"
  shows "tracker_ok (t\<lparr>targeted_packets_to_send_list :=
           erase_if P (targeted_packets_to_send_list t)\<rparr>)"
    and "tracker_ok (t\<lparr>broadcast_packets_to_send_list :=
           erase_if Q (broadcast_packets_to_send_list t)\<rparr>)"
  by (rule ok_grows [OF assms];
      use assms in \<open>auto simp: tracker_ok_def stores_ok_def grows_def queues_within_def
        erase_if_def\<close>)+

lemma broadcast_list_live:
  "tracker_ok t \<Longrightarrow> p \<in> set (broadcast_packets_to_send_list t) \<Longrightarrow> live_packet t p"
  by (simp add: tracker_ok_def refs_ok_def)

subsection \<open>sendPackets\<close>

text \<open>
  What a port promises of a transmission: it keeps the invariant and every object a pointer can
  point to, changes no record of what was sent and no handle; a link that can be used is one of
  the tracker's. From this both walks and \<open>sendPackets\<close> keep the invariant.
\<close>

locale sound_port = sending_port +
  assumes transmit_ok: "tracker_ok (trk s) \<Longrightarrow> tracker_ok (trk (snd (transmit p con s)))"
    and transmit_grows: "grows (trk s) (trk (snd (transmit p con s)))"
    and transmit_sent_list: "packets_connections_sent_list (trk (snd (transmit p con s))) =
      packets_connections_sent_list (trk s)"
    and transmit_handle_of: "handle_of (trk (snd (transmit p con s))) h = handle_of (trk s) h"
    and usable_at: "stores_ok t \<Longrightarrow> (h, c) \<in> set (usable t) \<Longrightarrow> connection_at t h = Some c"
begin

text \<open>
  Sending a packet to a connection it has not been sent to and recording it, from a state
  that has both, keeps the invariant and everything the queues of the old state point to.
\<close>

lemma send_and_mark:
  assumes "tracker_ok (trk s)" and "live_packet (trk s) p" and "live_connection (trk s) con"
    and "(p, con) \<notin> set (packets_connections_sent_list (trk s))"
  shows "tracker_ok (mark_sent env p con (trk (snd (transmit p con s))))"
    and "grows (trk s) (mark_sent env p con (trk (snd (transmit p con s))))"
proof -
  let ?u = "trk (snd (transmit p con s))"
  show "grows (trk s) (mark_sent env p con ?u)"
    by (rule grows_trans [OF transmit_grows [of s p con]]) simp
  show "tracker_ok (mark_sent env p con ?u)"
    using live_mono [OF transmit_grows] assms
    by (intro mark_sent_ok transmit_ok) (auto simp: transmit_sent_list)
qed

lemma targeted_ok:
  assumes "tracker_ok (trk s)" and "\<forall>e \<in> set es. live_packet (trk s) (fst e) \<and> live_connection (trk s) (snd e)"
  shows "tracker_ok (trk (snd (targeted es s))) \<and> grows (trk s) (trk (snd (targeted es s)))"
  using assms
proof (induction es arbitrary: s)
  case (Cons e es)
  obtain p con where e: "e = (p, con)" by (cases e)
  obtain ok s1 where send: "transmit p con s = (ok, s1)" by (cases "transmit p con s")
  have s1: "tracker_ok (trk s1)" "grows (trk s) (trk s1)"
    using transmit_ok [OF Cons.prems(1), of p con] transmit_grows [of s p con] by (simp_all add: send)
  have live: "\<forall>e \<in> set es. live_packet u (fst e) \<and> live_connection u (snd e)" if "grows (trk s) u" for u
    using Cons.prems(2) live_mono [OF that] by auto
  show ?case
  proof (cases "packet_needed (trk s) (p, con)")
    case True
    let ?s2 = "put (mark_sent env p con (trk s1)) s1"
    have mark: "tracker_ok (trk ?s2)" "grows (trk s) (trk ?s2)"
      using send_and_mark [OF Cons.prems(1), of p con] Cons.prems(2) packet_needed_new [OF True]
      by (simp_all add: send trk_put e)
    from Cons.IH [OF s1(1) live [OF s1(2)]] Cons.IH [OF mark(1) live [OF mark(2)]] show ?thesis
      using True s1(2) mark(2)
      by (auto simp: e targeted_Cons send split_def Let_def intro: grows_trans)
  qed (use Cons in \<open>simp add: e targeted_Cons\<close>)
qed (simp add: targeted_Nil)

lemma to_all_ok:
  assumes "tracker_ok (trk s)" and "live_packet (trk s) p"
    and "\<forall>e \<in> set cs. handle_of (trk s) (fst e) = Some (connection_handle (snd e))"
  shows "tracker_ok (trk (to_all p cs s))"
  using assms
proof (induction cs arbitrary: s)
  case (Cons e cs)
  obtain con c where e: "e = (con, c)" by (cases e)
  let ?s1 = "snd (transmit p con s)"
  let ?u = "if broadcast_sendable (trk s) p c then put (mark_sent env p con (trk ?s1)) ?s1 else s"
  have con: "handle_of (trk s) con = Some (connection_handle c)" using Cons.prems(3) by (simp add: e)
  then have "live_connection (trk s) con" by (auto simp: handle_of_def live_connection_def)
  then have u: "tracker_ok (trk ?u)" "grows (trk s) (trk ?u)"
    using send_and_mark [of s p con] Cons.prems broadcast_sendable_new [OF _ con] by (auto simp: trk_put)
  have "handle_of (trk ?u) h = handle_of (trk s) h" for h by (simp add: trk_put transmit_handle_of)
  then have "live_packet (trk ?u) p"
    "\<forall>e \<in> set cs. handle_of (trk ?u) (fst e) = Some (connection_handle (snd e))"
    using Cons.prems(2,3) live_mono(1) [OF u(2)] by simp_all
  from Cons.IH [OF u(1) this] show ?case unfolding e to_all_Cons Let_def .
qed (simp add: to_all_Nil)

lemma usable_handle:
  "stores_ok t \<Longrightarrow> e \<in> set (usable t) \<Longrightarrow> handle_of t (fst e) = Some (connection_handle (snd e))"
  using usable_at [of t "fst e" "snd e"] by (simp add: handle_of_def)

lemma broadcast_ok:
  "tracker_ok (trk s) \<Longrightarrow> \<forall>p \<in> set ps. live_packet (trk s) p \<Longrightarrow> tracker_ok (trk (snd (broadcast ps s)))"
  by (induction ps) (auto simp: broadcast_Nil broadcast_Cons to_all_ok usable_handle ok_stores)

lemma round_ok:
  assumes "tracker_ok (trk s)"
  shows "tracker_ok (trk (snd (send_round s)))"
proof -
  obtain removed s1 where s1: "targeted (targeted_packets_to_send_list (trk s)) s = (removed, s1)"
    by (cases "targeted (targeted_packets_to_send_list (trk s)) s")
  define s2 where "s2 = put ((trk s1)\<lparr>targeted_packets_to_send_list :=
      erase_if (\<lambda>e. fst e \<in> set removed) (targeted_packets_to_send_list (trk s1))\<rparr>) s1"
  obtain sent s3 where s3: "broadcast (broadcast_packets_to_send_list (trk s1)) s2 = (sent, s3)"
    by (cases "broadcast (broadcast_packets_to_send_list (trk s1)) s2")
  have "tracker_ok (trk s1)"
    using targeted_ok [OF assms, of "targeted_packets_to_send_list (trk s)"] assms s1
    by (auto simp: tracker_ok_def refs_ok_def)
  then have s2: "tracker_ok (trk s2)" unfolding s2_def trk_put by (rule drop_queued_ok)
  then have "tracker_ok (trk s3)"
    using broadcast_ok [of s2 "broadcast_packets_to_send_list (trk s2)"] broadcast_list_live
    by (auto simp: s2_def trk_put s3 [unfolded s2_def])
  then show ?thesis
    using assms drop_queued_ok(2) by (simp add: send_round s1 s2_def [symmetric] s3 trk_put)
qed

end

interpretation board: sound_port env "\<lambda>t. t" "\<lambda>t s. t" "SendPacketToConnection env"
  available_connections "send_targeted env" "broadcast_to env" "send_broadcast env" "sendPackets env"
  for env
  by unfold_locales
    (simp_all add: simple_op_ok(13) SendPacketToConnection_facts available_connection_at)

lemmas send_and_mark = board.send_and_mark
lemmas send_targeted_ok = board.targeted_ok
lemmas available_connections_handle = board.usable_handle

lemma sendPackets_ok [op_ok]: "tracker_ok t \<Longrightarrow> tracker_ok (snd (sendPackets env t))"
  by (rule board.round_ok)

subsection \<open>Announcing, raw packets, disconnection and clean-up\<close>

lemma own_announce_ok: "tracker_ok t \<Longrightarrow> tracker_ok (t\<lparr>own_announce := a\<rparr>)"
  by (rule ok_grows) (auto simp: tracker_ok_def stores_ok_def grows_def queues_within_def)

lemma setupAnnounceIfNeeded_ok [op_ok]:
  "tracker_ok t \<Longrightarrow> tracker_ok (setupAnnounceIfNeeded env t)"
  by (simp add: setupAnnounceIfNeeded_def Let_def own_announce_ok)

lemma announceToConnections_ok [op_ok]:
  "tracker_ok t \<Longrightarrow> tracker_ok (announceToConnections env t)"
  unfolding announceToConnections_def Let_def
  by (rule fold_invariant)
    (simp_all add: setupAnnounceIfNeeded_ok announce_to_def enqueueTargetedPacket_ok own_announce_ok)

lemma raw_registration_ok:
  "tracker_ok t \<Longrightarrow> tracker_ok (t\<lparr>notify_registration := h\<rparr>)"
  "tracker_ok t \<Longrightarrow> tracker_ok (t\<lparr>write_registration := h\<rparr>)"
  by (rule ok_grows; auto simp: tracker_ok_def stores_ok_def grows_def queues_within_def)+

lemma mm_sorted_erase_first:
  assumes "mm_sorted r m"
  shows "mm_sorted r (mm_erase_first r k m)"
proof (cases "mm_lower_bound r k m")
  case Nil
  then have "takeWhile (\<lambda>e. r (fst e) < r k) m = m"
    using takeWhile_dropWhile_id [of "\<lambda>e. r (fst e) < r k" m]
    by (simp only: mm_lower_bound_def append_Nil2)
  with assms show ?thesis
    unfolding mm_erase_first_def Nil list.sel append_Nil2 by (simp only:)
next
  case (Cons e rest)
  then have "m = takeWhile (\<lambda>e. r (fst e) < r k) m @ e # rest"
    using takeWhile_dropWhile_id [of "\<lambda>e. r (fst e) < r k" m]
    by (simp add: mm_lower_bound_def)
  with assms have "mm_sorted r (takeWhile (\<lambda>e. r (fst e) < r k) m @ rest)"
    by (metis mm_sorted_remove)
  then show ?thesis by (simp add: mm_erase_first_def Cons)
qed

lemma raw_erase_ok:
  assumes "tracker_ok t"
  shows "tracker_ok (t\<lparr>raw_packet_to_notify := mm_erase_first (\<lambda>h. h) h (raw_packet_to_notify t)\<rparr>)"
    and "tracker_ok (t\<lparr>raw_packet_to_write := mm_erase_first (\<lambda>h. h) h (raw_packet_to_write t)\<rparr>)"
  by (rule ok_grows [OF assms]; use assms in \<open>simp add: tracker_ok_def stores_ok_def grows_def
      queues_within_def mm_sorted_erase_first\<close>)+

lemma notifyRawPacket_ok:
  "tracker_ok t \<Longrightarrow> notifyRawPacket env h t = Some u \<Longrightarrow> tracker_ok u"
  unfolding notifyRawPacket_def Let_def split_def
  by (auto intro!: simple_op_ok(14,15) raw_registration_ok raw_erase_ok
      split: list.splits if_split_asm)

lemma writeRawPacket_ok:
  "tracker_ok t \<Longrightarrow> writeRawPacket env h t = Some u \<Longrightarrow> tracker_ok u"
  unfolding writeRawPacket_def Let_def split_def
  by (auto intro!: simple_op_ok(14,15) raw_registration_ok raw_erase_ok
      split: list.splits if_split_asm)

lemma touch_peer_ok:
  assumes "tracker_ok t"
  shows "tracker_ok (t\<lparr>peers := map_touch Peer_blank i (peers t)\<rparr>)"
  by (rule ok_grows [OF assms]) (use assms in \<open>simp_all add: tracker_ok_def stores_ok_def
      grows_def queues_within_def\<close>)

lemma reportDisconnection_ok [op_ok]:
  assumes "tracker_ok t"
  shows "tracker_ok (reportDisconnection env h t)"
proof -
  have drop: "tracker_ok (u\<lparr>handle_peer_map := map_erase h (handle_peer_map u),
        packets_connections_sent_list := erase_if P (packets_connections_sent_list u),
        targeted_packets_to_send_list := erase_if P (targeted_packets_to_send_list u),
        packets_peers_sent_list := erase_if Q (packets_peers_sent_list u)\<rparr>)"
    if "tracker_ok u" for u P Q
    by (rule ok_grows [OF that]) (use that in \<open>auto simp: tracker_ok_def stores_ok_def grows_def
        queues_within_def erase_if_def map_erase_def\<close>)
  have "tracker_ok (if c then snd (bt_invoke env call u) else u)" if "tracker_ok u" for c call u
    using simple_op_ok(15) [OF that] that by simp
  from drop [OF this [OF touch_peer_ok [OF simple_op_ok(14) [OF assms]]]]
  show ?thesis by (simp add: reportDisconnection_def Let_def)
qed

text \<open>
  \<open>cleanupStaleItems\<close> empties the queues of everything stale before it drops the stale
  connections, messages and announces, by the same predicates.
\<close>

lemma cleanup_packet_kept:
  assumes "tracker_ok t" and "live_packet t p" and "\<not> packet_stale (getTimeMs env t) t p"
  shows "live_packet (cleanupStaleItems env t) p"
proof (cases p)
  case (MessageRef i)
  then obtain m where "map_find i (messages t) = Some m"
    using assms(2) by (auto simp: live_packet_def packet_base_def)
  then show ?thesis
    using assms(1,3) MessageRef
    by (simp add: live_packet_def packet_base_def packet_stale_def cleanupStaleItems_def Let_def
        base_of_def tracker_ok_def stores_ok_def)
next
  case (AnnounceRef h)
  then obtain a where "map_find h (announces t) = Some a"
    using assms(2) by (auto simp: live_packet_def packet_base_def)
  then show ?thesis
    using assms(1,3) AnnounceRef
    by (simp add: live_packet_def packet_base_def packet_stale_def cleanupStaleItems_def Let_def
        base_of_def tracker_ok_def stores_ok_def)
next
  case OwnAnnounceRef
  then show ?thesis by (simp add: live_packet_def packet_base_def)
qed

lemma cleanup_connection_kept:
  assumes "tracker_ok t" and "connection_at t h = Some c"
    and "\<not> connection_stale (getTimeMs env t) c"
  shows "connection_at (cleanupStaleItems env t) h = Some c"
  using assms by (simp add: connection_at_def cleanupStaleItems_def Let_def tracker_ok_def
      stores_ok_def)

text \<open>The queues after the clean-up; a change of a queue does not change what a pointer sees.\<close>

lemma packet_base_update [simp]:
  "packet_base (t\<lparr>packets_connections_sent_list := a\<rparr>) = packet_base t"
  "packet_base (t\<lparr>packets_peers_sent_list := b\<rparr>) = packet_base t"
  "packet_base (t\<lparr>broadcast_packets_to_send_list := c\<rparr>) = packet_base t"
  "packet_base (t\<lparr>targeted_packets_to_send_list := d\<rparr>) = packet_base t"
  by (simp_all add: packet_base_def fun_eq_iff cong: packet_ref.case_cong)

lemma connection_at_update [simp]:
  "connection_at (t\<lparr>packets_connections_sent_list := a\<rparr>) = connection_at t"
  "connection_at (t\<lparr>packets_peers_sent_list := b\<rparr>) = connection_at t"
  "connection_at (t\<lparr>broadcast_packets_to_send_list := c\<rparr>) = connection_at t"
  "connection_at (t\<lparr>targeted_packets_to_send_list := d\<rparr>) = connection_at t"
  by (simp_all add: connection_at_def fun_eq_iff)

lemma cleanup_queues:
  fixes env t
  defines "u \<equiv> cleanupStaleItems env t" and "now \<equiv> getTimeMs env t"
  shows "packets_connections_sent_list u =
      erase_if (packet_connection_stale now t) (packets_connections_sent_list t)"
    and "targeted_packets_to_send_list u =
      erase_if (packet_connection_stale now t) (targeted_packets_to_send_list t)"
    and "packets_peers_sent_list u =
      erase_if (\<lambda>e. packet_stale now t (fst e)) (packets_peers_sent_list t)"
    and "broadcast_packets_to_send_list u =
      erase_if (packet_stale now t) (broadcast_packets_to_send_list t)"
    and "handle_peer_map u = handle_peer_map t" and "peers u = peers t"
  by (simp_all add: u_def now_def cleanupStaleItems_def Let_def packet_stale_def [abs_def]
      packet_connection_stale_def [abs_def])

lemma cleanupStaleItems_ok [op_ok]:
  assumes "tracker_ok t"
  shows "tracker_ok (cleanupStaleItems env t)"
proof -
  let ?u = "cleanupStaleItems env t" and ?now = "getTimeMs env t"
  have pk: "live_packet ?u p" if "live_packet t p" "\<not> packet_stale ?now t p" for p
    using that by (rule cleanup_packet_kept [OF assms])
  have con: "live_packet ?u (fst e) \<and> live_connection ?u (snd e)"
    if live: "live_packet t (fst e) \<and> live_connection t (snd e)"
      and fresh: "\<not> packet_connection_stale ?now t e" for e
  proof -
    obtain c where c: "connection_at t (snd e) = Some c"
      using live by (auto simp: live_connection_def)
    then have "\<not> packet_stale ?now t (fst e)" "\<not> connection_stale ?now c"
      using fresh by (auto simp: packet_connection_stale_def)
    then show ?thesis
      using pk live cleanup_connection_kept [OF assms c] by (simp add: live_connection_def)
  qed
  have peer: "live_peer ?u = live_peer t"
    by (intro ext) (simp add: live_peer_def cleanup_queues)
  have r: "refs_ok t" using assms by (simp add: tracker_ok_def)
  have "\<forall>e \<in> set (packets_connections_sent_list ?u).
      live_packet ?u (fst e) \<and> live_connection ?u (snd e)"
    unfolding cleanup_queues set_erase_if using con r by (simp add: refs_ok_def)
  moreover have "\<forall>e \<in> set (targeted_packets_to_send_list ?u).
      live_packet ?u (fst e) \<and> live_connection ?u (snd e)"
    unfolding cleanup_queues set_erase_if using con r by (simp add: refs_ok_def)
  moreover have "\<forall>e \<in> set (packets_peers_sent_list ?u).
      live_packet ?u (fst e) \<and> live_peer ?u (snd e)"
    unfolding cleanup_queues set_erase_if peer using pk r by (simp add: refs_ok_def)
  moreover have "\<forall>p \<in> set (broadcast_packets_to_send_list ?u). live_packet ?u p"
    unfolding cleanup_queues set_erase_if using pk r by (simp add: refs_ok_def)
  moreover have "\<forall>e \<in> set (handle_peer_map ?u). live_peer ?u (snd e)"
    unfolding cleanup_queues peer using r by (simp add: refs_ok_def)
  ultimately have "refs_ok ?u" unfolding refs_ok_def by blast
  moreover have "stores_ok ?u"
    using assms unfolding tracker_ok_def stores_ok_def
    by (simp add: cleanupStaleItems_def Let_def) (simp add: erase_if_def)
  ultimately show ?thesis by (simp add: tracker_ok_def)
qed

lemma Tracker_init_ok: "tracker_ok Tracker_init"
  by (simp add: tracker_ok_def stores_ok_def refs_ok_def Tracker_init_def mm_sorted_def)

end
