(* ===== verification/Protocol_Processor.thy ===== *)
theory Protocol_Processor
  imports Tracker_Invariant
begin

section \<open>ProtocolProcessor: what a received packet does\<close>

definition stringForType :: "u8 \<Rightarrow> bytes" where
  "stringForType ty =
     (if ty = type_announce then ascii ''Announce''
      else if ty = type_message then ascii ''Message''
      else if ty = type_micro_mesh_preferences then ascii ''MicroMesh Preferences''
      else ascii ''UnknownType'')"

definition alter_peer :: "u64 \<Rightarrow> (peer \<Rightarrow> peer) \<Rightarrow> tracker \<Rightarrow> tracker" where
  "alter_peer i f t = t\<lparr>peers := map_alter Peer_blank i f (peers t)\<rparr>"

text \<open>The caller's \<open>connection\<close> is read for its handle only.\<close>

definition updateOrStorePeerNameFromAnnouncement ::
  "announce \<Rightarrow> ble_connection \<Rightarrow> tracker \<Rightarrow> tracker" where
  "updateOrStorePeerNameFromAnnouncement a con t =
     (let (i, t1) = checkSenderInPeers (packet_sender_id a) t;
          t2 = alter_peer i (\<lambda>p. updateName
                 (Peer_setConnectionHandle p (connection_handle con)) (name a)) t1
      in if packet_ttl a \<ge> peer_max_ttl (map_at Peer_blank i (peers t2))
         then setConnectionHandleForPeer (connection_handle con) i
                (alter_peer i (\<lambda>p. setAnnounceTtl p (packet_ttl a)) t2)
         else t2)"

text \<open>\<open>setPacketTtl\<close> through the pointer that a store operation returned.\<close>

definition packet_set_ttl :: "packet_ref \<Rightarrow> u8 \<Rightarrow> tracker \<Rightarrow> tracker" where
  "packet_set_ttl p ttl t =
     (case p of
        MessageRef i \<Rightarrow>
          (case map_find i (messages t) of
             None \<Rightarrow> t
           | Some m \<Rightarrow> t\<lparr>messages := map_put i (setPacketTtl m ttl) (messages t)\<rparr>)
      | AnnounceRef h \<Rightarrow>
          (case map_find h (announces t) of
             None \<Rightarrow> t
           | Some a \<Rightarrow> t\<lparr>announces := map_put h (setPacketTtl a ttl) (announces t)\<rparr>)
      | OwnAnnounceRef \<Rightarrow> t\<lparr>own_announce := setPacketTtl (own_announce t) ttl\<rparr>)"

text \<open>
  What \<open>processWrite\<close> does with a packet that has been stored as new; the difference
  \<open>getPacketTtl() - 1\<close> is an \<open>int\<close>.
\<close>

definition relay_stored :: "environment \<Rightarrow> packet_ref \<Rightarrow> tracker \<Rightarrow> tracker" where
  "relay_stored env p t =
     (case packet_base t p of
        None \<Rightarrow> t
      | Some b \<Rightarrow>
          let newTtl = int (unat (packet_ttl b)) - 1
          in if newTtl > 0
             then let t1 = packet_set_ttl p (word_of_int newTtl) t;
                      (i, t2) = checkSenderInPeers (packet_sender_id b) t1
                  in enqueueBroadcastPacket_from env p i t2
             else t)"

text \<open>
  \<open>None\<close> is a packet constructor that never returns. Preferences go to \<open>updatePreferences\<close>
  whether or not they are malformed, and an announce reaches the peer store and the clock
  before it is checked.
\<close>

text \<open>
  \<open>updatePreferences\<close> calls the board's \<open>savePreferencesToFlash\<close>, so it is an argument of the
  function that all boards share.
\<close>

definition processWrite_with :: "(preferences \<Rightarrow> bool \<Rightarrow> tracker \<Rightarrow> tracker) \<Rightarrow> environment \<Rightarrow>
    ble_connection \<Rightarrow> u16 \<Rightarrow> bytes \<Rightarrow> u16 \<Rightarrow> tracker \<Rightarrow> tracker option" where
  "processWrite_with update_preferences env con offset buffer buffer_size t =
     (let reader = BinaryReader offset buffer buffer_size;
          (version, r1) = read_uint8 reader
      in if version < 1 \<or> version > 2 then Some t
         else
           let (ty, r2) = read_uint8 r1
           in if ty = type_announce then
                (case Announce_read version r2 of
                   None \<Rightarrow> None
                 | Some (a, _) \<Rightarrow>
                     let a1 = setSendingConnectionHandle a (connection_handle con);
                         t1 = updateOrStorePeerNameFromAnnouncement a1 con t;
                         t2 = possiblyUpdateTimeOffset env (packet_timestamp_ms a1) t1;
                         (stored, t3) = storeAnnounceAndReturnIfNew env a1 t2
                     in Some (case stored of None \<Rightarrow> t3 | Some p \<Rightarrow> relay_stored env p t3))
              else if ty = type_message then
                (case Message_read version r2 of
                   None \<Rightarrow> None
                 | Some (m, _) \<Rightarrow>
                     let m1 = setSendingConnectionHandle m (connection_handle con);
                         (stored, t1) = storeMessageAndReturnIfNew m1 t
                     in Some (case stored of None \<Rightarrow> t1 | Some p \<Rightarrow> relay_stored env p t1))
              else if ty = type_micro_mesh_preferences then
                (case Preferences_read version r2 of
                   None \<Rightarrow> None
                 | Some (p, _) \<Rightarrow> Some (update_preferences p True t))
              else Some t)"

definition processWrite ::
  "environment \<Rightarrow> ble_connection \<Rightarrow> u16 \<Rightarrow> bytes \<Rightarrow> u16 \<Rightarrow> tracker \<Rightarrow> tracker option" where
  "processWrite env con offset buffer buffer_size t =
     processWrite_with (updatePreferences env) env con offset buffer buffer_size t"

lemmas processWrite_unfold = processWrite_def [unfolded processWrite_with_def]

subsection \<open>The invariant\<close>

lemma alter_peer_facts:
  "grows t (alter_peer i f t)" "queues_within t (alter_peer i f t)"
  "stores_ok t \<Longrightarrow> stores_ok (alter_peer i f t)"
  by (simp_all add: alter_peer_def grows_def queues_within_def stores_ok_def)

lemma alter_peer_ok [op_ok]: "tracker_ok t \<Longrightarrow> tracker_ok (alter_peer i f t)"
  by (blast intro: ok_grows alter_peer_facts ok_stores)

lemma live_peer_alter [simp]: "live_peer (alter_peer i f t) i"
  by (simp add: live_peer_def alter_peer_def)

lemma updateOrStorePeerName_ok [op_ok]:
  assumes "tracker_ok t"
  shows "tracker_ok (updateOrStorePeerNameFromAnnouncement a con t)"
  using simple_op_ok(4) [OF assms, of "packet_sender_id a"]
  by (auto simp: updateOrStorePeerNameFromAnnouncement_def Let_def split_def
      intro!: setConnectionHandleForPeer_ok alter_peer_ok)

lemma packet_set_ttl_facts:
  "grows t (packet_set_ttl p ttl t)" "queues_within t (packet_set_ttl p ttl t)"
  by (auto simp: packet_set_ttl_def grows_def queues_within_def split: packet_ref.split
      option.split)

lemma packet_set_ttl_stores:
  assumes "stores_ok t"
  shows "stores_ok (packet_set_ttl p ttl t)"
proof (cases p)
  case (MessageRef i)
  show ?thesis
  proof (cases "map_find i (messages t)")
    case (Some m)
    then have m: "message_id m = i" "\<not> malformed m"
      using assms by (auto simp: stores_ok_def map_find_Some_iff)
    show ?thesis
      using assms m Some set_map_put [of i "setPacketTtl m ttl" "messages t"]
      by (auto simp: MessageRef packet_set_ttl_def stores_ok_def setPacketTtl_def)
  qed (use assms in \<open>simp add: MessageRef packet_set_ttl_def\<close>)
next
  case (AnnounceRef h)
  show ?thesis
  proof (cases "map_find h (announces t)")
    case (Some a)
    then have "\<not> malformed a" using assms by (auto simp: stores_ok_def map_find_Some_iff)
    then show ?thesis
      using assms Some set_map_put [of h "setPacketTtl a ttl" "announces t"]
      by (auto simp: AnnounceRef packet_set_ttl_def stores_ok_def setPacketTtl_def)
  qed (use assms in \<open>simp add: AnnounceRef packet_set_ttl_def\<close>)
next
  case OwnAnnounceRef
  then show ?thesis using assms by (simp add: packet_set_ttl_def stores_ok_def)
qed

lemma packet_set_ttl_ok [op_ok]: "tracker_ok t \<Longrightarrow> tracker_ok (packet_set_ttl p ttl t)"
  by (blast intro: ok_grows packet_set_ttl_facts packet_set_ttl_stores ok_stores)

lemma relay_stored_ok [op_ok]:
  assumes "tracker_ok t"
  shows "tracker_ok (relay_stored env p t)"
proof (cases "packet_base t p")
  case (Some b)
  define t1 where "t1 = packet_set_ttl p (word_of_int (int (unat (packet_ttl b)) - 1)) t"
  define t2 where "t2 = snd (checkSenderInPeers (packet_sender_id b) t1)"
  have "grows t t2"
    unfolding t1_def t2_def by (rule grows_trans [OF packet_set_ttl_facts(1) checkSender_facts(1)])
  then have live: "live_packet t2 p" "live_peer t2 (packet_sender_id b)"
    using live_mono(1) Some checkSender_live(2) by (auto simp: live_packet_def t2_def)
  have "tracker_ok t2"
    unfolding t1_def t2_def by (intro simple_op_ok packet_set_ttl_ok assms)
  from enqueueBroadcastPacket_from_ok [OF this live] show ?thesis
    using assms Some checkSender_live(1) [of "packet_sender_id b" t1]
    by (simp add: relay_stored_def Let_def split_def t1_def t2_def)
qed (use assms in \<open>simp add: relay_stored_def\<close>)

lemma processWrite_ok:
  assumes "tracker_ok t" and "processWrite env con offset buffer buffer_size t = Some u"
  shows "tracker_ok u"
  using assms
  by (auto simp: processWrite_unfold Let_def split_def split: if_splits option.splits prod.splits
      intro!: relay_stored_ok simple_op_ok updateOrStorePeerName_ok)

end
