(* ===== verification/Device_Main.thy ===== *)
theory Device_Main
  imports Protocol_Processor
begin

section \<open>main.cpp: the device around the tracker\<close>

text \<open>
  The globals of \<^verbatim>\<open>main.cpp\<close>. \<open>gpio_callback\<close> runs in an interrupt and sets the flags
  that \<open>generateMessageIfNeeded\<close> consumes in the main loop.
\<close>

record device =
  keep_running :: bool
  fresh_boot :: bool
  smoke_seen :: bool
  life_check :: bool
  global_activity :: u16
  conn_count :: u8
  scanning :: bool
  connection_in_progress :: bool
  discover_primary_services :: bool
  discover_characteristics_for_service :: bool
  connection_tracker :: tracker

definition Device_init :: device where
  "Device_init =
     \<lparr>keep_running = True, fresh_boot = True, smoke_seen = False, life_check = False,
      global_activity = 0, conn_count = 0, scanning = False, connection_in_progress = False,
      discover_primary_services = False, discover_characteristics_for_service = False,
      connection_tracker = Tracker_init\<rparr>"

definition bump_activity :: "device \<Rightarrow> device" where
  "bump_activity d = d\<lparr>global_activity := global_activity d + 1\<rparr>"

definition on_tracker :: "(tracker \<Rightarrow> tracker) \<Rightarrow> device \<Rightarrow> device" where
  "on_tracker f d = d\<lparr>connection_tracker := f (connection_tracker d)\<rparr>"

subsection \<open>Events on the pins\<close>

abbreviation (input) EXIT_GPIO_PIN :: u32 where "EXIT_GPIO_PIN \<equiv> 28"
abbreviation (input) SMOKE_SEEN_PIN :: u32 where "SMOKE_SEEN_PIN \<equiv> 17"
abbreviation (input) LIFE_CHECK_PIN :: u32 where "LIFE_CHECK_PIN \<equiv> 18"

text \<open>\<open>GPIO_IRQ_EDGE_FALL\<close> is a bit of the SDK, the first argument.\<close>

definition gpio_callback :: "u32 \<Rightarrow> u32 \<Rightarrow> u32 \<Rightarrow> device \<Rightarrow> device" where
  "gpio_callback edge_fall gpio events d =
     (let d1 = bump_activity d;
          d2 = (if gpio = EXIT_GPIO_PIN \<and> events AND edge_fall \<noteq> 0
                then d1\<lparr>keep_running := False\<rparr> else d1);
          d3 = (if gpio = SMOKE_SEEN_PIN \<and> events AND edge_fall \<noteq> 0
                then d2\<lparr>smoke_seen := True\<rparr> else d2)
      in if gpio = LIFE_CHECK_PIN \<and> events AND edge_fall \<noteq> 0
         then d3\<lparr>life_check := True\<rparr> else d3)"

subsection \<open>generateMessageIfNeeded\<close>

text \<open>The message \<open>generateMessageIfNeeded\<close> composes from the flags.\<close>

definition event_content :: "bool \<Rightarrow> bool \<Rightarrow> bool \<Rightarrow> bytes" where
  "event_content boot smoke life =
     (let b1 = (if boot then write_data [] (ascii ''Booted'') 6 else []);
          b2 = (if boot \<and> (life \<or> smoke) then write_uint8 b1 (of_char CHR ''+'') else b1);
          b3 = (if life then write_data b2 (ascii ''Still alive'') 11 else b2)
      in if smoke
         then write_data (if life then write_uint8 b3 (of_char CHR ''+'') else b3)
                (ascii ''Smoke seen'') 10
         else b3)"

definition event_marker :: "bool \<Rightarrow> bool \<Rightarrow> bool \<Rightarrow> u8" where
  "event_marker boot smoke life =
     (if boot \<and> smoke \<and> life then of_char CHR ''*''
      else if boot \<and> smoke then of_char CHR ''+''
      else if smoke then of_char CHR ''!''
      else if life then of_char CHR ''-''
      else of_char CHR ''?'')"

definition whole_minute :: "u64 \<Rightarrow> u64" where
  "whole_minute timestamp_ms =
     (let seconds = timestamp_ms div 1000;
          minutes = seconds div 60
      in minutes * 60 * 1000)"

definition sender_nickname_bytes :: "u64 \<Rightarrow> bytes" where
  "sender_nickname_bytes sender =
     (let b1 = write_data [] ble_smoke_detector_service_name
                 (of_nat (length ble_smoke_detector_service_name));
          b2 = write_data b1 (ascii '':'') 1;
          b3 = write_uint8_hex16 b2 (ucast (drop_bit 48 sender))
      in write_uint8_hex16 b3 (ucast (drop_bit 56 sender)))"

definition event_message :: "environment \<Rightarrow> bool \<Rightarrow> bool \<Rightarrow> bool \<Rightarrow> tracker \<Rightarrow> message" where
  "event_message env boot smoke life t =
     (let sender = env_board_id env;
          timestamp_ms = whole_minute (getTimeMs env t);
          m1 = setContent (Message_init5 3 timestamp_ms 0 sender 0) (event_content boot smoke life);
          i1 = write_uint64 [] timestamp_ms;
          i2 = write_uint8 i1 (event_marker boot smoke life);
          i3 = write_uint64 i2 sender;
          m2 = setChannel (setMessageId m1 i3) (ascii ''#smoke'');
          m3 = Message_setLatitudeI m2 (latitude_i (prefs t));
          m4 = Message_setLongitudeI m3 (longitude_i (prefs t));
          m5 = Message_setAltitude m4 (altitude (prefs t))
      in setSenderNickname m5 (sender_nickname_bytes sender))"

text \<open>
  The flags are copied first; the ones that are reported are cleared before it is known
  whether the message is new.
\<close>

definition generateMessageIfNeeded :: "environment \<Rightarrow> device \<Rightarrow> device" where
  "generateMessageIfNeeded env d =
     (let copy_fresh_boot = fresh_boot d;
          copy_smoke_seen = smoke_seen d;
          copy_life_check = life_check d;
          t = connection_tracker d
      in if weHaveTheTime t \<and> (copy_fresh_boot \<or> copy_smoke_seen \<or> copy_life_check)
         then
           let d1 = (if copy_fresh_boot then d\<lparr>fresh_boot := False\<rparr> else d);
               d2 = (if copy_life_check then d1\<lparr>life_check := False\<rparr> else d1);
               d3 = (if copy_smoke_seen then d2\<lparr>smoke_seen := False\<rparr> else d2);
               m = event_message env copy_fresh_boot copy_smoke_seen copy_life_check t;
               (stored, t1) = storeMessageAndReturnIfNew m t
           in case stored of
                None \<Rightarrow> d3\<lparr>connection_tracker := t1\<rparr>
              | Some p \<Rightarrow>
                  (bump_activity (d3\<lparr>connection_tracker := enqueueBroadcastPacket p t1\<rparr>))
                    \<lparr>fresh_boot := False\<rparr>
         else d)"

subsection \<open>Advertising\<close>

abbreviation (input) BLE_ADVERTISING_MAX_LENGTH :: nat where "BLE_ADVERTISING_MAX_LENGTH \<equiv> 31"

text \<open>
  Both buffers are written from the front; \<open>populate_advertising_data\<close> runs once, on zeroed
  buffers and lengths 0, so a buffer is the bytes written. The type bytes are Bluetooth
  assigned numbers. The scan response copies \<open>fitable_name_len\<close> bytes of the service data.
\<close>

record ad_type_bytes =
  ad_flags :: u8
  ad_incomplete_128 :: u8
  ad_short_name :: u8
  ad_complete_name :: u8
  ad_service_data_128 :: u8

definition populate_advertising_data :: "ad_type_bytes \<Rightarrow> u64 \<Rightarrow> bytes \<times> bytes" where
  "populate_advertising_data ad sender =
     (let a1 = [0x2, ad_flags ad, 0x06];
          a2 = a1 @ [17, ad_incomplete_128 ad] @ packet_service_uuid_reversed;
          name_len = length ble_smoke_detector_service_name;
          fitable_name_len = min (BLE_ADVERTISING_MAX_LENGTH - length a2 - 2) name_len;
          a3 = a2 @ [of_nat fitable_name_len + 1,
                     if fitable_name_len = name_len then ad_complete_name ad
                     else ad_short_name ad]
                  @ take fitable_name_len ble_smoke_detector_service_name;
          serviceData = write_uint64 [] sender;
          sender_id_len = min (BLE_ADVERTISING_MAX_LENGTH - 18 - 2) (length serviceData);
          s1 = [17 + of_nat sender_id_len, ad_service_data_128 ad] @ packet_service_uuid_reversed
      in (a3, s1 @ take fitable_name_len serviceData))"

text \<open>
  \<open>check_for_uuid\<close> walks the fields of a report with the stack's iterator; the fields it
  yields, a type and the memory from the field's data on, are the argument. \<open>memcmp\<close> compares
  as many bytes as the expected value has, beyond the end of a shorter field.
\<close>

definition check_for_uuid :: "ad_type_bytes \<Rightarrow> u8 \<Rightarrow> u8 \<Rightarrow> (u8 \<times> bytes) list
    \<Rightarrow> service_uuid_check_status" where
  "check_for_uuid ad ad_complete_128 ad_solicitation_128 ad_entries =
     (let (found_uuid, found_name) =
        fold (\<lambda>(data_type, data) (u, n).
          if data_type \<in> {ad_incomplete_128 ad, ad_complete_128, ad_solicitation_128}
          then (take 16 data = packet_service_uuid_reversed, n)
          else if data_type \<in> {ad_short_name ad, ad_complete_name ad}
          then (u, take (length packet_service_name) data = packet_service_name)
          else (u, n)) ad_entries (False, False)
      in if found_uuid then (if found_name then ServiceUUIDAndNameFound else ServiceUUIDFound)
         else ServiceUUIDNotFound)"

subsection \<open>Connecting\<close>

text \<open>\<open>gap_connect\<close>'s result is the argument \<open>err\<close>; the pause after an error is left out.\<close>

definition connect_to_first_neighbour :: "u8 \<Rightarrow> device \<Rightarrow> bool \<times> device" where
  "connect_to_first_neighbour err d =
     (let t = connection_tracker d
      in case getConnectableNeighbours t of
           [] \<Rightarrow> (False, d)
         | a # _ \<Rightarrow>
             let neighbour = map_at BleConnection_blank a (available_neighbours t)
             in if getConnectionForAddress (bt_address neighbour) t \<noteq> None then (False, d)
                else if err = 0
                then (True, (on_tracker (setConnectionStarted neighbour) d)
                        \<lparr>connection_in_progress := True\<rparr>)
                else (False, d))"

end
