(* ===== verification/Device_Handlers.thy ===== *)
theory Device_Handlers
  imports Device_Main
begin

section \<open>The callbacks main.cpp registers with the Bluetooth stack\<close>

text \<open>
  The stack hands the callbacks an event packet that they take apart with its accessor
  functions. An event is a datatype here whose constructor carries what the accessors
  return; \<open>None\<close> as a result is a packet constructor that does not return. The pointers
  into the tracker that \<open>connectionForConnHandle\<close> returns are keys.
\<close>

subsection \<open>Attribute server\<close>

text \<open>The attribute handles are generated from \<^verbatim>\<open>smoke_detector.gatt\<close>.\<close>

record att_profile =
  client_configuration_handle :: u16
  packet_value_handle :: u16

text \<open>
  \<open>att_read_callback\<close> fills the buffer from \<open>offset\<close> with zeros for the two handles it knows. An
  offset behind the buffer makes the size of \<open>memset\<close> negative, which it takes for a huge one: the
  result \<open>None\<close>.
\<close>

definition att_read_callback :: "att_profile \<Rightarrow> u16 \<Rightarrow> u16 \<Rightarrow> bytes \<Rightarrow> device
    \<Rightarrow> (u16 \<times> bytes \<times> device) option" where
  "att_read_callback profile att_handle offset buffer d =
     (let zeroed = (if unat offset \<le> length buffer
                    then Some (take (unat offset) buffer @ replicate (length buffer - unat offset) 0)
                    else None)
      in if att_handle = client_configuration_handle profile
         then map_option (\<lambda>b. (2, b, bump_activity d)) zeroed
         else if att_handle = packet_value_handle profile
         then map_option (\<lambda>b. (0, b, bump_activity d)) zeroed
         else Some (0, buffer, bump_activity d))"

text \<open>
  \<open>little_endian_read_16\<close> of the stack and its constant for enabled notifications are the
  arguments \<open>read_le16\<close> and \<open>notification_value\<close>.
\<close>

definition att_write_callback :: "environment \<Rightarrow> att_profile \<Rightarrow> (bytes \<Rightarrow> u16) \<Rightarrow> u16 \<Rightarrow> u16
    \<Rightarrow> u16 \<Rightarrow> u16 \<Rightarrow> u16 \<Rightarrow> bytes \<Rightarrow> u16 \<Rightarrow> device \<Rightarrow> device option" where
  "att_write_callback env profile read_le16 notification_value con_handle att_handle
     transaction_mode offset buffer buffer_size d =
     (let d1 = bump_activity d
      in if transaction_mode \<noteq> 0 then Some d1
         else
           let (context, t1) = connectionForConnHandle con_handle (connection_tracker d1)
           in if att_handle = client_configuration_handle profile then
                let t2 = alter_connection context
                       (\<lambda>c. setNotificationEnabled c (read_le16 buffer = notification_value)) t1;
                    t3 = (if getNotificationEnabled
                               (map_at BleConnection_blank context (connections t2))
                          then alter_connection context
                                 (\<lambda>c. setPacketCharacteristicValueHandle c
                                        (uint (packet_value_handle profile))) t2
                          else t2)
                in Some (d1\<lparr>connection_tracker := t3\<rparr>)
              else if att_handle = packet_value_handle profile then
                map_option (\<lambda>t2. d1\<lparr>connection_tracker := t2\<rparr>)
                  (processWrite env (map_at BleConnection_blank context (connections t1))
                     offset buffer buffer_size t1)
              else Some (d1\<lparr>connection_tracker := t1\<rparr>))"

subsection \<open>GATT client\<close>

datatype gatt_event =
    GattMtu u16 u16
  | ServiceQueryResult u16 gatt_service
  | CharacteristicQueryResult u16 u16 gatt_characteristic
  | QueryComplete u16
  | OtherGattEvent

text \<open>
  The result says which characteristics query, if any, is started: the handle and the
  service it is restricted to.
\<close>

definition handle_gatt_client_event ::
  "gatt_event \<Rightarrow> device \<Rightarrow> (u16 \<times> gatt_service) option \<times> device" where
  "handle_gatt_client_event e d =
     (let d1 = bump_activity d
      in case e of
           GattMtu h mtu \<Rightarrow>
             (None, on_tracker (\<lambda>t. alter_connection h (\<lambda>c. setMtu c mtu)
                      (snd (connectionForConnHandle h t))) d1)
         | ServiceQueryResult h service \<Rightarrow>
             (None, on_tracker (\<lambda>t.
                let t1 = snd (connectionForConnHandle h t)
                in if uuid16 service = 0
                   then alter_connection h (\<lambda>c. storeHandlesIfServiceMatches c service) t1
                   else t1) d1)
         | CharacteristicQueryResult h short_uuid characteristic \<Rightarrow>
             (None, on_tracker (\<lambda>t.
                let t1 = snd (connectionForConnHandle h t)
                in if short_uuid = 0
                   then alter_connection h
                          (\<lambda>c. storeHandlesIfCharacteristicMatches c characteristic) t1
                   else t1) d1)
         | QueryComplete h \<Rightarrow>
             let d2 = (on_tracker (\<lambda>t. snd (connectionForConnHandle h t)) d1)
                        \<lparr>discover_primary_services := False,
                         discover_characteristics_for_service := False\<rparr>;
                 c = map_at BleConnection_blank h (connections (connection_tracker d2));
                 (need, service) = canAndNeedToDiscoverPacketCharacteristicsQuery c
                   \<lparr>start_group_handle = 0, end_group_handle = 0, uuid16 = 0, uuid128 = []\<rparr>
             in if need
                then (Some (h, service), d2\<lparr>discover_characteristics_for_service := True\<rparr>)
                else (None, d2)
         | OtherGattEvent \<Rightarrow> (None, d1))"

datatype value_update_event =
    Notification u16 bytes u16
  | Indication u16 bytes u16
  | OtherValueUpdate

definition handle_gatt_client_value_update_event ::
  "environment \<Rightarrow> value_update_event \<Rightarrow> device \<Rightarrow> device option" where
  "handle_gatt_client_value_update_event env e d =
     (let d1 = bump_activity d
      in case e of
           Notification h data data_length \<Rightarrow>
             let (con, t1) = connectionForConnHandle h (connection_tracker d1)
             in map_option (\<lambda>t2. d1\<lparr>connection_tracker := t2\<rparr>)
                  (processWrite env (map_at BleConnection_blank con (connections t1)) 0 data
                     data_length t1)
         | Indication _ _ _ \<Rightarrow> Some d1
         | OtherValueUpdate \<Rightarrow> Some d1)"

subsection \<open>HCI and attribute protocol events\<close>

text \<open>
  The events that change the state; every other event of \<open>hci_packet_handler\<close> is printed.
  \<open>StackState\<close> carries whether the stack is working, \<open>AdvertisingReport\<close> the result of
  \<open>check_for_uuid\<close> on its data.
\<close>

datatype hci_event =
    StackState bool
  | DisconnectionComplete u16
  | RssiMeasurement u16 "8 word"
  | NrConnectionsChanged u8
  | LeConnectionComplete u16 bytes u8 u8
  | AdvertisingReport bytes u8 "8 word" service_uuid_check_status
  | GapConnectionComplete u16 bytes u8 u8
  | OtherHciEvent

definition start_scanning_for_local_nodes :: "device \<Rightarrow> device" where
  "start_scanning_for_local_nodes d = d\<lparr>scanning := True\<rparr>"

definition setup_scanning :: "device \<Rightarrow> device" where
  "setup_scanning d = start_scanning_for_local_nodes d"

text \<open>\<open>services & ServiceUUIDFound\<close> holds for both statuses that found the service.\<close>

definition hci_packet_handler :: "environment \<Rightarrow> hci_event \<Rightarrow> device \<Rightarrow> device" where
  "hci_packet_handler env e d =
     (let d1 = bump_activity d
      in case e of
           StackState working \<Rightarrow> if \<not> working then d1 else setup_scanning d1
         | DisconnectionComplete h \<Rightarrow>
             bump_activity (on_tracker (reportDisconnection env h) d1)
         | RssiMeasurement h r \<Rightarrow>
             on_tracker (\<lambda>t. alter_connection h (\<lambda>c. setRssi c r)
                               (snd (connectionForConnHandle h t))) d1
         | NrConnectionsChanged n \<Rightarrow> d1\<lparr>conn_count := n\<rparr>
         | LeConnectionComplete h address address_type the_role \<Rightarrow>
             bump_activity (on_tracker
               (reportConnection_role env h address address_type the_role) d1)
         | AdvertisingReport address address_type r services \<Rightarrow>
             if services \<noteq> ServiceUUIDNotFound
             then on_tracker (addAvailablePeer env address address_type services r False) d1
             else d1
         | GapConnectionComplete h address address_type the_role \<Rightarrow>
             bump_activity ((on_tracker
               (reportConnection_role env h address address_type the_role) d1)
                 \<lparr>connection_in_progress := False, discover_primary_services := True\<rparr>)
         | OtherHciEvent \<Rightarrow> d1)"

datatype att_event =
    AttConnected u16 bytes u8
  | AttDisconnected u16
  | OtherAttEvent

definition att_packet_handler :: "environment \<Rightarrow> att_event \<Rightarrow> device \<Rightarrow> device" where
  "att_packet_handler env e d =
     (let d1 = bump_activity d
      in case e of
           AttConnected h address address_type \<Rightarrow>
             bump_activity (on_tracker (reportConnection env h address address_type) d1)
         | AttDisconnected h \<Rightarrow> bump_activity (on_tracker (reportDisconnection env h) d1)
         | OtherAttEvent \<Rightarrow> d1)"

definition sm_packet_handler :: "device \<Rightarrow> device" where
  "sm_packet_handler d = bump_activity d"

definition stop_scan_handler :: "device \<Rightarrow> device" where
  "stop_scan_handler d = (bump_activity d)\<lparr>scanning := False\<rparr>"

end
