(* ===== verification/Device_Flash.thy ===== *)
theory Device_Flash
  imports Device_Main
begin

section \<open>Preferences in flash\<close>

text \<open>
  The sector in front of the storage of the stack. The sizes of a page and of the sector are
  those of the flash chip, the results of \<open>flash_safe_execute\<close> (true for \<open>PICO_OK\<close>) those
  of the SDK. Erasing sets every byte to \<open>0xFF\<close>; a page is programmed from memory, which goes
  on behind the packet.
\<close>

record flash_device =
  flash_page_size :: nat
  flash_sector_size :: nat
  memory_behind :: bytes
  erase_ok :: bool
  program_ok :: bool

definition call_flash_sector_erase :: "flash_device \<Rightarrow> bytes" where
  "call_flash_sector_erase fl = replicate (flash_sector_size fl) 0xFF"

definition call_flash_page_program :: "flash_device \<Rightarrow> bytes \<Rightarrow> bytes \<Rightarrow> bytes" where
  "call_flash_page_program fl data sector =
     take (flash_page_size fl) data @ drop (flash_page_size fl) sector"

text \<open>The reference argument keeps the length that \<open>writePacket\<close> computes.\<close>

definition savePreferencesToFlash ::
  "flash_device \<Rightarrow> preferences \<Rightarrow> bytes \<Rightarrow> preferences \<times> bytes" where
  "savePreferencesToFlash fl p sector =
     (let (prefs_data, p') = Preferences_writePacket p
      in if length prefs_data < flash_page_size fl
         then (p', if erase_ok fl
                   then let erased = call_flash_sector_erase fl
                        in if program_ok fl
                           then call_flash_page_program fl (prefs_data @ memory_behind fl) erased
                           else erased
                   else sector)
         else (p', sector))"

text \<open>What \<open>main\<close> does with the sector when the device starts.\<close>

definition boot_preferences ::
  "environment \<Rightarrow> flash_device \<Rightarrow> bytes \<Rightarrow> tracker \<Rightarrow> tracker option" where
  "boot_preferences env fl sector t =
     (let reader = BinaryReader 0 sector (of_nat (flash_sector_size fl));
          (version, r1) = read_uint8 reader;
          (prefs_type, r2) = read_uint8 r1
      in if version = 1 \<and> prefs_type = type_micro_mesh_preferences
         then (case Preferences_read version r2 of
                 None \<Rightarrow> None
               | Some (p, _) \<Rightarrow>
                   Some (if \<not> malformed p then updatePreferences env p False t else t))
         else Some t)"

end
