(* ===== verification/Device_Loop.thy ===== *)
theory Device_Loop
  imports Device_Handlers Device_Flash
begin

section \<open>The main loop\<close>

text \<open>
  The locals of \<open>main\<close> that the loop keeps, with the device and the pull of the keep-alive
  pin. The clock moves while the loop runs: \<open>clock p\<close> is what \<open>time_us_64()\<close> returns at the
  point \<open>p\<close>. Blinking the LED, printing the log and waiting for an event change nothing here.
\<close>

datatype clock_point =
    LoopStart | AtGenerate | AtAnnounce | AfterAnnounce | AtConnect | AfterConnect
  | LoopAfterConnect | SendAfterConnect | AtSend | AfterSend | AfterFlash | AfterTryOff
  | AfterScan | LoopAfterScan | SendAfterScan | AtCleanup | AfterCleanup | AtActivity

record main_state =
  dev :: device
  lastCleanup :: u64
  lastSleepOrActivity :: u64
  boot_time :: u64
  last_try_to_off :: u64
  lastAnnounce :: u64
  lastSendPackets :: u64
  lastConnection :: u64
  lastFlash :: u64
  lastScan :: u64
  last_activity :: u16
  keep_alive_pulled :: bool

definition one_second_in_us :: u64 where "one_second_in_us = 1000 * 1000 * 1"
definition two_seconds_in_us :: u64 where "two_seconds_in_us = 1000 * 1000 * 2"
definition three_seconds_in_us :: u64 where "three_seconds_in_us = 1000 * 1000 * 3"
definition five_seconds_in_us :: u64 where "five_seconds_in_us = 1000 * 1000 * 5"
definition twenty_seconds_in_us :: u64 where "twenty_seconds_in_us = 1000 * 1000 * 20"
definition thirty_seconds_in_us :: u64 where "thirty_seconds_in_us = 1000 * 1000 * 30"
definition five_minutes_in_us :: u64 where "five_minutes_in_us = 1000 * 1000 * 60 * 5"
definition ten_minutes_in_us :: u64 where "ten_minutes_in_us = 1000 * 1000 * 60 * 10"

text \<open>The timers as \<open>main\<close> sets them before the loop, all read at time \<open>now\<close>.\<close>

definition main_init :: "u64 \<Rightarrow> device \<Rightarrow> main_state" where
  "main_init now d =
     \<lparr>dev = d, lastCleanup = now + five_minutes_in_us, lastSleepOrActivity = now,
      boot_time = now, last_try_to_off = now, lastAnnounce = now, lastSendPackets = now,
      lastConnection = now, lastFlash = 0, lastScan = now,
      last_activity = global_activity d, keep_alive_pulled = True\<rparr>"

text \<open>
  One run of the loop body. \<open>poll\<close> is \<open>cyw43_arch_poll\<close>, which runs callbacks (\<open>None\<close> when
  one of them does not return); \<open>err\<close> is the result of \<open>gap_connect\<close>.
\<close>

definition announce_part :: "environment \<Rightarrow> (clock_point \<Rightarrow> u64) \<Rightarrow> u64 \<Rightarrow> main_state \<Rightarrow> main_state"
  where
  "announce_part env clock loopStart s =
     (if \<not> scanning (dev s) \<and> weHaveTheTime (connection_tracker (dev s)) \<and>
         loopStart - lastAnnounce s > two_seconds_in_us
      then s\<lparr>dev := on_tracker (announceToConnections (env\<lparr>env_time_us := clock AtAnnounce\<rparr>))
                      (dev s),
             lastAnnounce := clock AfterAnnounce\<rparr>
      else s)"

definition connect_part :: "(clock_point \<Rightarrow> u64) \<Rightarrow> u8 \<Rightarrow> u64 \<Rightarrow> main_state \<Rightarrow> u64 \<times> main_state"
  where
  "connect_part clock err loopStart s =
     (if \<not> scanning (dev s) \<and> \<not> connection_in_progress (dev s) \<and>
         loopStart - lastConnection s > three_seconds_in_us \<and>
         \<not> discover_primary_services (dev s) \<and> \<not> discover_characteristics_for_service (dev s)
      then let (connecting, d) = connect_to_first_neighbour err (dev s);
               s1 = s\<lparr>dev := d, lastConnection := clock AtConnect\<rparr>;
               s2 = (if connecting then s1\<lparr>lastAnnounce := clock AfterConnect\<rparr> else s1)
           in (clock LoopAfterConnect, s2\<lparr>lastSendPackets := clock SendAfterConnect\<rparr>)
      else (loopStart, s))"

definition send_part :: "environment \<Rightarrow> (clock_point \<Rightarrow> u64) \<Rightarrow> u64 \<Rightarrow> main_state \<Rightarrow> main_state"
  where
  "send_part env clock loopStart s =
     (if \<not> scanning (dev s) \<and> \<not> connection_in_progress (dev s) \<and>
         loopStart - lastSendPackets s > one_second_in_us
      then let (active, t) = sendPackets (env\<lparr>env_time_us := clock AtSend\<rparr>)
                               (connection_tracker (dev s));
               d = (dev s)\<lparr>connection_tracker := t\<rparr>
           in s\<lparr>dev := if active then bump_activity d else d,
                lastSendPackets := clock AfterSend\<rparr>
      else s)"

definition power_part :: "(clock_point \<Rightarrow> u64) \<Rightarrow> u64 \<Rightarrow> main_state \<Rightarrow> main_state" where
  "power_part clock loopStart s =
     (let s1 = (if loopStart - lastFlash s >
                     (if conn_count (dev s) > 0 then one_second_in_us else three_seconds_in_us)
                then s\<lparr>lastFlash := clock AfterFlash\<rparr> else s)
      in if loopStart - last_try_to_off s1 > twenty_seconds_in_us
         then if \<not> havePacketsToSend (connection_tracker (dev s1)) \<or>
                 loopStart - boot_time s1 > five_minutes_in_us
              then s1\<lparr>keep_alive_pulled := False\<rparr>
              else s1\<lparr>last_try_to_off := clock AfterTryOff\<rparr>
         else s1)"

definition scan_part :: "(clock_point \<Rightarrow> u64) \<Rightarrow> u64 \<Rightarrow> main_state \<Rightarrow> u64 \<times> main_state" where
  "scan_part clock loopStart s =
     (if \<not> scanning (dev s) \<and> \<not> connection_in_progress (dev s) \<and>
         loopStart - lastScan s >
           (if conn_count (dev s) = 0 then five_seconds_in_us else thirty_seconds_in_us)
      then (clock LoopAfterScan,
            s\<lparr>dev := start_scanning_for_local_nodes (dev s), lastScan := clock AfterScan,
              lastSendPackets := clock SendAfterScan\<rparr>)
      else (loopStart, s))"

definition cleanup_part :: "environment \<Rightarrow> (clock_point \<Rightarrow> u64) \<Rightarrow> u64 \<Rightarrow> main_state \<Rightarrow> main_state"
  where
  "cleanup_part env clock loopStart s =
     (if loopStart - lastCleanup s > ten_minutes_in_us
      then s\<lparr>dev := on_tracker (cleanupStaleItems (env\<lparr>env_time_us := clock AtCleanup\<rparr>)) (dev s),
             lastCleanup := clock AfterCleanup\<rparr>
      else s)"

definition main_iteration :: "environment \<Rightarrow> (device \<Rightarrow> device option) \<Rightarrow> (clock_point \<Rightarrow> u64) \<Rightarrow> u8
    \<Rightarrow> main_state \<Rightarrow> main_state option" where
  "main_iteration env poll clock err s =
     (case poll (dev s) of
        None \<Rightarrow> None
      | Some d \<Rightarrow>
          let s1 = s\<lparr>dev := generateMessageIfNeeded (env\<lparr>env_time_us := clock AtGenerate\<rparr>) d\<rparr>;
              s2 = announce_part env clock (clock LoopStart) s1;
              (loopStart1, s3) = connect_part clock err (clock LoopStart) s2;
              s4 = send_part env clock loopStart1 s3;
              s5 = power_part clock loopStart1 s4;
              (loopStart2, s6) = scan_part clock loopStart1 s5;
              s7 = cleanup_part env clock loopStart2 s6
          in Some (if last_activity s7 \<noteq> global_activity (dev s7)
                   then s7\<lparr>lastSleepOrActivity := clock AtActivity,
                           last_activity := global_activity (dev s7)\<rparr>
                   else s7))"

text \<open>The loop runs while \<open>keep_running\<close> is set; \<open>inputs\<close> are the surroundings of each run.\<close>

fun main_loop :: "(environment \<times> (device \<Rightarrow> device option) \<times> (clock_point \<Rightarrow> u64) \<times> u8) list
    \<Rightarrow> main_state \<Rightarrow> main_state option" where
  "main_loop [] s = Some s"
| "main_loop ((env, poll, clock, err) # inputs) s =
     (if keep_running (dev s)
      then (case main_iteration env poll clock err s of
              None \<Rightarrow> None
            | Some u \<Rightarrow> main_loop inputs u)
      else Some s)"

end
