(* ===== verification/Device_Reachable.thy ===== *)
theory Device_Reachable
  imports Device_Loop
begin

section \<open>The states the device can reach\<close>

text \<open>
  One step is one callback of the Bluetooth stack or of a pin, one action of the main loop,
  or one call of a tracker operation that is offered to other users of the library. Every
  step may have its own surroundings, so time, addresses and results vary freely. A callback
  that aborts or leaves defined behaviour (\<open>None\<close>) is no step: the run ends there.
\<close>

inductive device_step :: "device \<Rightarrow> device \<Rightarrow> bool" where
  boot: "boot_preferences env fl sector (connection_tracker d) = Some t \<Longrightarrow>
    device_step d (d\<lparr>connection_tracker := t\<rparr>)"
| gpio: "device_step d (gpio_callback edge_fall pin events d)"
| att_read: "att_read_callback profile h offset buffer d = Some (n, buffer', u) \<Longrightarrow> device_step d u"
| att_write: "att_write_callback env profile le16 nv con h mode offset buffer n d = Some u \<Longrightarrow>
    device_step d u"
| gatt_client: "device_step d (snd (handle_gatt_client_event e d))"
| value_update: "handle_gatt_client_value_update_event env ve d = Some u \<Longrightarrow> device_step d u"
| hci: "device_step d (hci_packet_handler env he d)"
| att: "device_step d (att_packet_handler env ae d)"
| sm: "device_step d (sm_packet_handler d)"
| stop_scan: "device_step d (stop_scan_handler d)"
| can_notify: "packet_can_send_notification_handler env (connection_tracker d) = Some t \<Longrightarrow>
    device_step d (d\<lparr>connection_tracker := t\<rparr>)"
| can_write: "packet_can_write_without_response_handler env (connection_tracker d) = Some t \<Longrightarrow>
    device_step d (d\<lparr>connection_tracker := t\<rparr>)"
| generate: "device_step d (generateMessageIfNeeded env d)"
| announce: "device_step d (on_tracker (announceToConnections env) d)"
| connect: "device_step d (snd (connect_to_first_neighbour err d))"
| send: "device_step d (on_tracker (\<lambda>t. snd (sendPackets env t)) d)"
| active: "device_step d (bump_activity d)"
| scan: "device_step d (start_scanning_for_local_nodes d)"
| cleanup: "device_step d (on_tracker (cleanupStaleItems env) d)"
| failure: "device_step d (on_tracker (reportConnectionFailure address reason) d)"
| duplicates: "device_step d (on_tracker (\<lambda>t. snd (getAnyDuplicateHandle t)) d)"
| rssi: "requestNextRssi env restart it (connection_tracker d) = Some (go_on, it', t) \<Longrightarrow>
    device_step d (d\<lparr>connection_tracker := t\<rparr>)"

inductive device_reachable :: "device \<Rightarrow> bool" where
  init: "device_reachable Device_init"
| step: "device_reachable d \<Longrightarrow> device_step d u \<Longrightarrow> device_reachable u"

subsection \<open>The tracker's invariant in every reachable state\<close>

lemma tracker_of [simp]:
  "connection_tracker (bump_activity d) = connection_tracker d"
  "connection_tracker (on_tracker f d) = f (connection_tracker d)"
  "connection_tracker (gpio_callback ef pin ev d) = connection_tracker d"
  "connection_tracker (start_scanning_for_local_nodes d) = connection_tracker d"
  "connection_tracker (setup_scanning d) = connection_tracker d"
  "connection_tracker (stop_scan_handler d) = connection_tracker d"
  "connection_tracker (sm_packet_handler d) = connection_tracker d"
  by (simp_all add: bump_activity_def on_tracker_def gpio_callback_def Let_def
      start_scanning_for_local_nodes_def setup_scanning_def stop_scan_handler_def
      sm_packet_handler_def)

lemma att_write_ok:
  assumes "tracker_ok (connection_tracker d)"
    and "att_write_callback env profile le16 nv con h mode offset buffer n d = Some u"
  shows "tracker_ok (connection_tracker u)"
  using assms simple_op_ok(1) [OF assms(1), of con]
  by (auto simp: att_write_callback_def Let_def split_def split: if_splits
      intro!: simple_op_ok(14) intro: processWrite_ok)

lemma gatt_client_ok:
  assumes "tracker_ok (connection_tracker d)"
  shows "tracker_ok (connection_tracker (snd (handle_gatt_client_event e d)))"
  using assms
  by (auto simp: handle_gatt_client_event_def Let_def split_def split: gatt_event.split
      intro!: simple_op_ok)

lemma value_update_ok:
  assumes "tracker_ok (connection_tracker d)"
    and "handle_gatt_client_value_update_event env e d = Some u"
  shows "tracker_ok (connection_tracker u)"
  using assms
  by (auto simp: handle_gatt_client_value_update_event_def Let_def split_def
      split: value_update_event.splits intro: processWrite_ok simple_op_ok(1))

lemma hci_ok:
  "tracker_ok (connection_tracker d) \<Longrightarrow>
   tracker_ok (connection_tracker (hci_packet_handler env e d))"
  by (auto simp: hci_packet_handler_def Let_def split: hci_event.split
      intro!: simple_op_ok reportDisconnection_ok)

lemma att_ok:
  "tracker_ok (connection_tracker d) \<Longrightarrow>
   tracker_ok (connection_tracker (att_packet_handler env e d))"
  by (auto simp: att_packet_handler_def Let_def split: att_event.split
      intro!: simple_op_ok reportDisconnection_ok)

lemma generate_ok:
  assumes "tracker_ok (connection_tracker d)"
  shows "tracker_ok (connection_tracker (generateMessageIfNeeded env d))"
  using assms simple_op_ok(2) [OF assms]
  by (auto simp: generateMessageIfNeeded_def Let_def split_def split: option.split
      intro!: enqueueBroadcastPacket_ok)

lemma connect_ok:
  "tracker_ok (connection_tracker d) \<Longrightarrow>
   tracker_ok (connection_tracker (snd (connect_to_first_neighbour err d)))"
  by (auto simp: connect_to_first_neighbour_def Let_def split: list.split intro!: simple_op_ok)

lemma boot_ok:
  assumes "tracker_ok t" and "boot_preferences env fl sector t = Some u"
  shows "tracker_ok u"
  using assms
  by (auto simp: boot_preferences_def Let_def split_def split: if_splits option.splits
      intro: simple_op_ok)

lemma rssi_ok:
  assumes "tracker_ok t" and "requestNextRssi env restart it t = Some (go_on, it', u)"
  shows "tracker_ok u"
  using assms
  by (auto simp: requestNextRssi_def Let_def split: option.splits if_splits intro!: simple_op_ok)

lemma device_step_ok:
  assumes "device_step d u" and "tracker_ok (connection_tracker d)"
  shows "tracker_ok (connection_tracker u)"
  using assms
proof (induction rule: device_step.induct)
  case (att_read profile h offset buffer d n buffer' u)
  then show ?case by (auto simp: att_read_callback_def Let_def split: if_splits)
next
  case (can_notify env d t)
  then show ?case
    by (auto simp: packet_can_send_notification_handler_def intro: notifyRawPacket_ok)
next
  case (can_write env d t)
  then show ?case
    by (auto simp: packet_can_write_without_response_handler_def intro: writeRawPacket_ok)
qed (auto intro: att_write_ok gatt_client_ok value_update_ok hci_ok att_ok generate_ok connect_ok
      boot_ok rssi_ok op_ok)

lemma reachable_ok: "device_reachable d \<Longrightarrow> tracker_ok (connection_tracker d)"
proof (induction rule: device_reachable.induct)
  case init
  then show ?case by (simp add: Device_init_def Tracker_init_ok)
next
  case (step d u)
  then show ?case using device_step_ok by blast
qed

subsection \<open>The main loop stays in the reachable states\<close>

lemmas reach = device_reachable.step

lemma generate_reach:
  "device_reachable d \<Longrightarrow> device_reachable (generateMessageIfNeeded env d)"
  by (rule reach [OF _ device_step.generate])

lemma announce_reach:
  "device_reachable (dev s) \<Longrightarrow> device_reachable (dev (announce_part env clock ls s))"
  by (auto simp: announce_part_def intro: reach device_step.announce)

lemma connect_reach:
  "device_reachable (dev s) \<Longrightarrow> device_reachable (dev (snd (connect_part clock err ls s)))"
  using device_step.connect [of "dev s" err]
  by (auto simp: connect_part_def Let_def split_def intro: reach)

lemma send_reach:
  assumes "device_reachable (dev s)"
  shows "device_reachable (dev (send_part env clock ls s))"
proof -
  have "device_reachable ((dev s)\<lparr>connection_tracker := snd (sendPackets e (connection_tracker (dev s)))\<rparr>)"
    for e
    using reach [OF assms device_step.send [of "dev s" e]] by (simp add: on_tracker_def)
  then show ?thesis
    using assms device_step.active by (auto simp: send_part_def Let_def split_def intro: reach)
qed

lemma power_same [simp]: "dev (power_part clock ls s) = dev s"
  by (simp add: power_part_def Let_def)

lemma scan_reach:
  "device_reachable (dev s) \<Longrightarrow> device_reachable (dev (snd (scan_part clock ls s)))"
  by (auto simp: scan_part_def intro: reach device_step.scan)

lemma cleanup_reach:
  "device_reachable (dev s) \<Longrightarrow> device_reachable (dev (cleanup_part env clock ls s))"
  by (auto simp: cleanup_part_def intro: reach device_step.cleanup)

lemma main_iteration_reach:
  assumes "device_reachable (dev s)"
    and "\<And>d u. poll d = Some u \<Longrightarrow> device_reachable d \<Longrightarrow> device_reachable u"
    and "main_iteration env poll clock err s = Some s'"
  shows "device_reachable (dev s')"
proof -
  obtain d where d: "poll (dev s) = Some d"
    using assms(3) by (auto simp: main_iteration_def split: option.splits)
  have "device_reachable d" using assms(2) [OF d assms(1)] .
  then show ?thesis
    using assms(3)
    by (auto simp: main_iteration_def d Let_def split_def
        intro!: cleanup_reach scan_reach send_reach connect_reach announce_reach generate_reach)
qed

lemma main_loop_reach:
  "main_loop inputs s = Some s' \<Longrightarrow> device_reachable (dev s) \<Longrightarrow>
   (\<And>env poll clock err d u. (env, poll, clock, err) \<in> set inputs \<Longrightarrow> poll d = Some u \<Longrightarrow>
      device_reachable d \<Longrightarrow> device_reachable u) \<Longrightarrow>
   device_reachable (dev s')"
proof (induction inputs s rule: main_loop.induct)
  case (2 env poll clock err inputs s)
  show ?case
  proof (cases "keep_running (dev s)")
    case True
    then obtain u where u: "main_iteration env poll clock err s = Some u"
      using "2.prems"(1) by (auto split: option.splits)
    have first: "device_reachable (dev u)"
      using main_iteration_reach [OF "2.prems"(2) _ u] "2.prems"(3) by (meson list.set_intros(1))
    have rest: "main_loop inputs u = Some s'" using "2.prems"(1) True u by simp
    show ?thesis
      by (rule "2.IH" [OF True u rest first]) (meson "2.prems"(3) list.set_intros(2))
  qed (use "2.prems" in simp)
qed simp

end
