(* ===== verification/Processor_Properties.thy ===== *)
theory Processor_Properties
  imports Protocol_Processor
begin

section \<open>Properties of packet processing\<close>

subsection \<open>Samples for the witnesses\<close>

definition sample_env :: environment where
  "sample_env =
     \<lparr>env_time_us = 5000000, env_board_id = 0x0102030405060708,
      env_address = (\<lambda>p. case p of MessageRef i \<Rightarrow> 2 * length i | AnnounceRef h \<Rightarrow> 2 * h + 1
                           | OwnAnnounceRef \<Rightarrow> 1000),
      env_hash = length, env_status = (\<lambda>_. 0), env_asserts = True\<rparr>"

definition sample_connection :: ble_connection where
  "sample_connection =
     BleConnection_blank\<lparr>connection_handle := 0x40, connected := True, role := HCI_ROLE_SLAVE\<rparr>"

definition sample_packet :: bytes where
  "sample_packet = fst (Message_writePacket sample_message)"

subsection \<open>Every write is processed, and from the received bytes only\<close>

lemma read_uint8_view:
  assumes "same_view r s"
  shows "fst (read_uint8 r) = fst (read_uint8 s)"
    and "same_view (snd (read_uint8 r)) (snd (read_uint8 s))"
    and "snd (read_uint8 r) = advance r (Suc 0)"
  using u8c.get_agree [OF assms] u8c.get_advance [of r] by (simp_all add: agree_def)

lemma packet_sized_after_two:
  assumes "unat offset + 2 \<le> 60000" and "unat buffer_size \<le> 60000"
  shows "packet_sized (snd (read_uint8 (snd (read_uint8 (BinaryReader offset buffer buffer_size)))))"
proof -
  have "unat (offset + of_nat 2) = unat offset + 2"
    using assms(1) by (intro unat_add_u16_small) simp
  then show ?thesis
    using assms
    by (simp add: u8c.get_advance packet_sized_def BinaryReader_def advance_def add.commute)
qed

lemma processWrite_with_total_and_local:
  assumes "unat offset + 2 \<le> 60000" and "unat buffer_size \<le> 60000"
    and "take (unat buffer_size) buffer = take (unat buffer_size) buffer'"
  shows "\<exists>u. processWrite_with upd env con offset buffer buffer_size t = Some u \<and>
             processWrite_with upd env con offset buffer' buffer_size t = Some u"
proof -
  let ?r = "BinaryReader offset buffer buffer_size"
  let ?s = "BinaryReader offset buffer' buffer_size"
  have view0: "same_view ?r ?s" using assms(3) by (simp add: same_view_def BinaryReader_def)
  note view1 = read_uint8_view [OF view0]
  note view2 = read_uint8_view [OF view1(2)]
  obtain v r1 s1 where one: "read_uint8 ?r = (v, r1)" "read_uint8 ?s = (v, s1)"
    using view1(1) by (metis prod.collapse)
  obtain ty r2 s2 where two: "read_uint8 r1 = (ty, r2)" "read_uint8 s1 = (ty, s2)"
    using view2(1) one by (metis prod.collapse snd_conv)
  have sized: "packet_sized r2" and view: "same_view r2 s2"
    using packet_sized_after_two [OF assms(1,2), of buffer] view2(2) by (simp_all add: one two)
  obtain a x y where a: "Announce_read v r2 = Some (a, x)" "Announce_read v s2 = Some (a, y)"
    using ann.read_total_and_local [OF sized view] unfolding Announce_read_class by blast
  obtain m x' y' where m: "Message_read v r2 = Some (m, x')" "Message_read v s2 = Some (m, y')"
    using msg.read_total_and_local [OF sized view] unfolding Message_read_class by blast
  obtain p x'' y'' where p: "Preferences_read v r2 = Some (p, x'')"
    "Preferences_read v s2 = Some (p, y'')"
    using pref.read_total_and_local [OF sized view] unfolding Preferences_read_class by blast
  show ?thesis
    by (simp add: processWrite_with_def one two a m p Let_def split: prod.split)
qed

text \<open>
  C3: Processing a received write always returns (no packet constructor loops for ever), and
  what it does depends on the \<open>buffer_size\<close> bytes that were received only, not on the memory
  behind them, for every packet type and every content. The bounds on the offset and the
  size keep the 16-bit cursor from wrapping; an attribute value has at most 512 bytes.
\<close>

theorem processWrite_total_and_local:
  assumes "unat offset + 2 \<le> 60000" and "unat buffer_size \<le> 60000"
    and "take (unat buffer_size) buffer = take (unat buffer_size) buffer'"
  shows "\<exists>u. processWrite env con offset buffer buffer_size t = Some u \<and>
             processWrite env con offset buffer' buffer_size t = Some u"
  unfolding processWrite_def by (rule processWrite_with_total_and_local [OF assms])

theorem processWrite_total_and_local_witness:
  "\<exists>u. processWrite sample_env sample_connection 0 [1, 2, 3] 3 Tracker_init = Some u \<and>
       processWrite sample_env sample_connection 0 [1, 2, 3, 99] 3 Tracker_init = Some u"
  by (rule processWrite_total_and_local) simp_all

subsection \<open>A message travels\<close>

lemma message_on_wire_simps [simp]:
  "malformed (message_on_wire m) = False"
  "message_id (message_on_wire m) = take 255 (message_id m)"
  "packet_ttl (message_on_wire m) = packet_ttl m"
  "packet_sender_id (message_on_wire m) = packet_sender_id m"
  "content (message_on_wire m) = take 255 (content m)"
  by (simp_all add: message_on_wire_def Message_blank_def)

lemma message_packet_short:
  assumes "packet_version m = 1" and "packet_type m = type_message" and "\<not> hasSignature m"
    and "payload_length m = 0 \<or>
         payload_length m = of_nat (length (Message_writePacketPayload [] m))"
    and "channel m = [] \<or> content m \<noteq> []"
  shows "length (fst (Message_writePacket m)) < 60000"
proof -
  have len: "payload_length m = 0 \<or>
      payload_length m = of_nat (length (tlvs_bytes (message_entries m)))"
    using assms(4) by (simp add: Message_payload_entries)
  show ?thesis
    using msg.written_bytes [OF assms(1-3) len assms(5)] message_entries_length [of m]
    unfolding Message_writePacket_def by (simp add: header_bytes_def)
qed

text \<open>
  What reaches the store and the queue when a new message has been read: the sender becomes
  a known peer, and a message that may travel on is queued once with its time to live
  decremented.
\<close>

lemma relay_new_message:
  fixes m :: message and t :: tracker and env :: environment
  defines "i \<equiv> message_id m"
  assumes "map_find i (messages t) = None"
  defines "u \<equiv> relay_stored env (MessageRef i) (t\<lparr>messages := map_put i m (messages t)\<rparr>)"
  shows "map_find i (messages u) =
      Some (if packet_ttl m > 1 then setPacketTtl m (packet_ttl m - 1) else m)"
    and "broadcast_packets_to_send_list u = broadcast_packets_to_send_list t @
      (if packet_ttl m > 1 then [MessageRef i] else [])"
proof -
  have more: "1 < uint (packet_ttl m) \<longleftrightarrow> packet_ttl m > 1"
    by (simp add: word_less_def)
  have less: "word_of_int (int (unat (packet_ttl m)) - 1) = packet_ttl m - 1"
    by simp
  have pos: "packet_ttl m - 1 > 0" if "packet_ttl m > 1"
    using that by (simp add: word_less_nat_alt unat_sub word_le_nat_alt)
  show "map_find i (messages u) =
      Some (if packet_ttl m > 1 then setPacketTtl m (packet_ttl m - 1) else m)"
    "broadcast_packets_to_send_list u = broadcast_packets_to_send_list t @
      (if packet_ttl m > 1 then [MessageRef i] else [])"
    using pos
    by (auto simp: u_def relay_stored_def packet_base_def base_of_def Let_def split_def more less
        packet_set_ttl_def checkSenderInPeers_def enqueueBroadcastPacket_from_def
        enqueueBroadcastPacket_def setPacketTtl_def split: option.split)
qed

lemma processWrite_message:
  assumes "packet_version m = 1" and "packet_type m = type_message" and "\<not> hasSignature m"
    and "payload_length m = 0 \<or>
         payload_length m = of_nat (length (Message_writePacketPayload [] m))"
    and "channel m = [] \<or> content m \<noteq> []"
    and "Message_writePacketPayload [] m \<noteq> []"
    and "Message_writePacket m = (packet, m')"
  shows "processWrite env con 0 packet (of_nat (length packet)) t =
    (let m1 = setSendingConnectionHandle (message_on_wire m') (connection_handle con);
         (stored, t1) = storeMessageAndReturnIfNew m1 t
     in Some (case stored of None \<Rightarrow> t1 | Some p \<Rightarrow> relay_stored env p t1))"
proof -
  have "length packet < 65536"
    using message_packet_short [OF assms(1-5)] assms(7) by simp
  from message_round_trip_lemma [OF assms, of "length packet" "[]"] this obtain r1 r2 r3 where
    "read_uint8 (BinaryReader 0 packet (of_nat (length packet))) = (1, r1)"
    "read_uint8 r1 = (type_message, r2)"
    "Message_read 1 r2 = Some (message_on_wire m', r3)"
    by (auto simp: packet_reader_def)
  then show ?thesis by (simp add: processWrite_unfold Let_def)
qed

lemma processWrite_announce:
  assumes "packet_version a = 1" and "packet_type a = type_announce" and "\<not> hasSignature a"
    and "payload_length a = 0 \<or>
         payload_length a = of_nat (length (Announce_writePacketPayload [] a))"
    and "length (direct_neighbors a) \<le> 31"
    and "Announce_writePacketPayload [] a \<noteq> []"
    and "Announce_writePacket a = (packet, a')" and "length packet < 65536"
  shows "processWrite env con 0 packet (of_nat (length packet)) t =
    (let a1 = setSendingConnectionHandle (announce_on_wire a') (connection_handle con);
         t1 = updateOrStorePeerNameFromAnnouncement a1 con t;
         t2 = possiblyUpdateTimeOffset env (packet_timestamp_ms a1) t1;
         (stored, t3) = storeAnnounceAndReturnIfNew env a1 t2
     in Some (case stored of None \<Rightarrow> t3 | Some p \<Rightarrow> relay_stored env p t3))"
proof -
  from announce_round_trip_lemma [OF assms(1-7), of "length packet" "[]"] assms(8) obtain r1 r2 r3 where
    "read_uint8 (BinaryReader 0 packet (of_nat (length packet))) = (1, r1)"
    "read_uint8 r1 = (type_announce, r2)"
    "Announce_read 1 r2 = Some (announce_on_wire a', r3)"
    by (auto simp: packet_reader_def)
  then show ?thesis by (simp add: processWrite_unfold Let_def)
qed

lemma message_travels_lemma:
  assumes "packet_version m = 1" and "packet_type m = type_message" and "\<not> hasSignature m"
    and "payload_length m = 0 \<or>
         payload_length m = of_nat (length (Message_writePacketPayload [] m))"
    and "channel m = [] \<or> content m \<noteq> []"
    and "Message_writePacketPayload [] m \<noteq> []"
    and "Message_writePacket m = (packet, m')"
    and "map_find (take 255 (message_id m)) (messages t) = None"
  shows "\<exists>u. processWrite env con 0 packet (of_nat (length packet)) t = Some u \<and>
     map_find (take 255 (message_id m)) (messages u) =
       Some ((message_on_wire m')\<lparr>sending_connection_handle := connection_handle con,
              packet_ttl := packet_ttl m - (if packet_ttl m > 1 then 1 else 0)\<rparr>) \<and>
     broadcast_packets_to_send_list u = broadcast_packets_to_send_list t @
       (if packet_ttl m > 1 then [MessageRef (take 255 (message_id m))] else [])"
proof -
  define m1 where
    "m1 = setSendingConnectionHandle (message_on_wire m') (connection_handle con)"
  have len: "payload_length m = 0 \<or>
      payload_length m = of_nat (length (tlvs_bytes (message_entries m)))"
    using assms(4) by (simp add: Message_payload_entries)
  obtain x where m': "m' = m\<lparr>payload_length := x\<rparr>"
    using msg.written_bytes [OF assms(1-3) len assms(5)] assms(7)
    unfolding Message_writePacket_def by auto
  have m1: "message_id m1 = take 255 (message_id m)" "\<not> malformed m1"
    "packet_ttl m1 = packet_ttl m"
    by (simp_all add: m1_def setSendingConnectionHandle_def m')
  have stored: "storeMessageAndReturnIfNew m1 t = (Some (MessageRef (message_id m1)),
      t\<lparr>messages := map_put (message_id m1) m1 (messages t)\<rparr>)"
    using assms(8) m1 by (simp add: storeMessageAndReturnIfNew_def)
  have new: "map_find (message_id m1) (messages t) = None"
    using assms(8) m1(1) by simp
  show ?thesis
    using relay_new_message [OF new, of env] m1
    by (simp add: processWrite_message [OF assms(1-7)] m1_def [symmetric] stored)
      (simp add: m1_def setSendingConnectionHandle_def setPacketTtl_def)
qed

text \<open>
  C6: A message that one node writes and another receives for the first time arrives: it is
  stored under its id with the fields it was written with and the handle it came in on, its
  time to live goes down by one, and it is queued for broadcast exactly once, behind what was
  queued before. A message that had only one hop left is stored and goes no further.
\<close>

theorem message_travels:
  assumes "packet_version m = 1" and "packet_type m = type_message" and "\<not> hasSignature m"
    and "payload_length m = 0 \<or>
         payload_length m = of_nat (length (Message_writePacketPayload [] m))"
    and "channel m = [] \<or> content m \<noteq> []"
    and "Message_writePacketPayload [] m \<noteq> []"
    and "Message_writePacket m = (packet, m')"
    and "map_find (take 255 (message_id m)) (messages t) = None"
  shows "\<exists>u. processWrite env con 0 packet (of_nat (length packet)) t = Some u \<and>
     map_find (take 255 (message_id m)) (messages u) =
       Some ((message_on_wire m')\<lparr>sending_connection_handle := connection_handle con,
              packet_ttl := packet_ttl m - (if packet_ttl m > 1 then 1 else 0)\<rparr>) \<and>
     broadcast_packets_to_send_list u = broadcast_packets_to_send_list t @
       (if packet_ttl m > 1 then [MessageRef (take 255 (message_id m))] else [])"
  using message_travels_lemma [OF assms] .

lemma sample_message_valid:
  "packet_version sample_message = 1" "packet_type sample_message = type_message"
  "\<not> hasSignature sample_message" "payload_length sample_message = 0"
  "channel sample_message = []" "Message_writePacketPayload [] sample_message \<noteq> []"
  "packet_ttl sample_message = 3" "message_id sample_message = ascii ''X1''"
  by code_simp+

lemma sample_message_written:
  "Message_writePacket sample_message = (sample_packet, snd (Message_writePacket sample_message))"
  by (simp add: sample_packet_def)

theorem message_travels_witness:
  "\<exists>u. processWrite sample_env sample_connection 0 sample_packet
         (of_nat (length sample_packet)) Tracker_init = Some u \<and>
     map_find (ascii ''X1'') (messages u) =
       Some ((message_on_wire (snd (Message_writePacket sample_message)))
         \<lparr>sending_connection_handle := 0x40, packet_ttl := 2\<rparr>) \<and>
     broadcast_packets_to_send_list u = [MessageRef (ascii ''X1'')]"
proof -
  have "take 255 (ascii ''X1'') = ascii ''X1''" by simp
  then show ?thesis
    using message_travels [OF sample_message_valid(1-3) disjI1 [OF sample_message_valid(4)]
        disjI1 [OF sample_message_valid(5)] sample_message_valid(6) sample_message_written,
        of Tracker_init sample_env sample_connection]
    by (simp add: sample_message_valid Tracker_init_def sample_connection_def)
qed

text \<open>
  C13: A message that comes in a second time, from whichever neighbour and whatever its time
  to live by then, changes nothing at all: it is not stored again, not queued again and no
  peer is touched, so a message cannot circle in the mesh.
\<close>

theorem known_message_ignored:
  assumes "packet_version m = 1" and "packet_type m = type_message" and "\<not> hasSignature m"
    and "payload_length m = 0 \<or>
         payload_length m = of_nat (length (Message_writePacketPayload [] m))"
    and "channel m = [] \<or> content m \<noteq> []"
    and "Message_writePacketPayload [] m \<noteq> []"
    and "map_find (take 255 (message_id m)) (messages t) = Some known"
  shows "processWrite env con 0 (fst (Message_writePacket m))
           (of_nat (length (fst (Message_writePacket m)))) t = Some t"
proof -
  obtain packet m' where written: "Message_writePacket m = (packet, m')"
    by (cases "Message_writePacket m")
  have len: "payload_length m = 0 \<or>
      payload_length m = of_nat (length (tlvs_bytes (message_entries m)))"
    using assms(4) by (simp add: Message_payload_entries)
  obtain x where m': "m' = m\<lparr>payload_length := x\<rparr>"
    using msg.written_bytes [OF assms(1-3) len assms(5)] written
    unfolding Message_writePacket_def by auto
  show ?thesis
    using processWrite_message [OF assms(1-6) written, of env con t] assms(7)
    by (simp add: written storeMessageAndReturnIfNew_def setSendingConnectionHandle_def m')
qed

theorem known_message_ignored_witness:
  "processWrite sample_env sample_connection 0 (fst (Message_writePacket sample_message))
     (of_nat (length (fst (Message_writePacket sample_message))))
     (Tracker_init\<lparr>messages := [(ascii ''X1'', sample_message)]\<rparr>) =
   Some (Tracker_init\<lparr>messages := [(ascii ''X1'', sample_message)]\<rparr>)"
proof (rule known_message_ignored [OF sample_message_valid(1-3)
      disjI1 [OF sample_message_valid(4)] disjI1 [OF sample_message_valid(5)]
      sample_message_valid(6)])
  show "map_find (take 255 (message_id sample_message))
      (messages (Tracker_init\<lparr>messages := [(ascii ''X1'', sample_message)]\<rparr>)) =
    Some sample_message"
    by (simp add: sample_message_valid map_find_def)
qed

end
