(* ===== verification/Device_Ownership.thy ===== *)
theory Device_Ownership
  imports Device_Reachable Processor_Properties
begin

section \<open>Who may change the preferences\<close>

text \<open>
  Only \<open>updatePreferences\<close> touches the preferences. Every other operation of the tracker is
  shown to leave them alone, and so does every step of the device but the two that call it.
\<close>

named_theorems same_prefs

lemma prefs_simple [simp, same_prefs]:
  "prefs (alter_connection h f t) = prefs t"
  "prefs (snd (bt_invoke env c t)) = prefs t"
  "prefs (snd (connectionForConnHandle h t)) = prefs t"
  "prefs (snd (storeMessageAndReturnIfNew m t)) = prefs t"
  "prefs (snd (storeAnnounceAndReturnIfNew env a t)) = prefs t"
  "prefs (snd (checkSenderInPeers i t)) = prefs t"
  "prefs (addAvailablePeer env addr ty sv rs cd t) = prefs t"
  "prefs (setConnectionStarted n t) = prefs t"
  "prefs (reportConnectionFailure addr r t) = prefs t"
  "prefs (setConnectionHandleForPeer h i t) = prefs t"
  "prefs (possiblyUpdateTimeOffset env ts t) = prefs t"
  "prefs (alter_peer i g t) = prefs t"
  "prefs (enqueueBroadcastPacket p t) = prefs t"
  "prefs (mark_sent env p con t) = prefs t"
  "prefs (setupAnnounceIfNeeded env t) = prefs t"
  "prefs (cleanupStaleItems env t) = prefs t"
  by (simp_all add: alter_connection_def bt_invoke_def connectionForConnHandle_def
      storeMessageAndReturnIfNew_def storeAnnounceAndReturnIfNew_def Let_def checkSenderInPeers_def
      addAvailablePeer_def updateRssiForActiveConnections_def setConnectionStarted_def
      reportConnectionFailure_def setConnectionHandleForPeer_def possiblyUpdateTimeOffset_def
      alter_peer_def enqueueBroadcastPacket_def mark_sent_def setupAnnounceIfNeeded_def
      cleanupStaleItems_def split: option.split)

lemma prefs_sending [simp, same_prefs]:
  "prefs (enqueueBroadcastPacket_from env p i t) = prefs t"
  "prefs (enqueueTargetedPacket env p c t) = prefs t"
  "prefs (snd (packet_write p t)) = prefs t"
  "prefs (packet_set_ttl p ttl t) = prefs t"
  "prefs (snd (queue_raw_packet env con c data t)) = prefs t"
  by (simp_all add: enqueueBroadcastPacket_from_def enqueueTargetedPacket_def packet_write_def
      packet_set_ttl_def queue_raw_packet_def bt_invoke_def Let_def split_def split: option.split
      packet_ref.split)

lemma prefs_sendPackets [simp, same_prefs]:
  "prefs (snd (SendPacketToConnection env p con t)) = prefs t"
  "prefs (snd (sendPackets env t)) = prefs t"
proof -
  show "prefs (snd (SendPacketToConnection env p con t)) = prefs t" for p con t
    by (cases rule: SendPacketToConnection_cases [of env p con t]) simp_all
  then show "prefs (snd (sendPackets env t)) = prefs t"
    by (intro board.round_preserves [where Q = "\<lambda>u. prefs u = prefs t"]) simp_all
qed

lemma prefs_raw:
  "notifyRawPacket env h t = Some u \<Longrightarrow> prefs u = prefs t"
  "writeRawPacket env h t = Some u \<Longrightarrow> prefs u = prefs t"
  by (auto simp: notifyRawPacket_def writeRawPacket_def Let_def split_def
      split: list.splits if_split_asm)

lemma prefs_links [simp, same_prefs]:
  "prefs (announceToConnections env t) = prefs t"
  "prefs (reportConnection env h addr ty t) = prefs t"
  "prefs (reportConnection_role env h addr ty rl t) = prefs t"
  "prefs (reportDisconnection env h t) = prefs t"
  "prefs (snd (duplicate_scan m r t)) = prefs t"
  "prefs (relay_stored env p t) = prefs t"
  "prefs (updateOrStorePeerNameFromAnnouncement a con t) = prefs t"
proof -
  have "prefs (fold (announce_to env) cs t) = prefs t" for cs t
    by (induction cs arbitrary: t) (simp_all add: announce_to_def)
  then show "prefs (announceToConnections env t) = prefs t"
    by (simp add: announceToConnections_def Let_def)
  show rep: "prefs (reportConnection env h addr ty t) = prefs t"
    by (simp add: reportConnection_def Let_def split: option.split)
  show "prefs (reportConnection_role env h addr ty rl t) = prefs t"
    by (simp add: reportConnection_role_def Let_def rep)
  show "prefs (reportDisconnection env h t) = prefs t"
    by (simp add: reportDisconnection_def Let_def)
  show "prefs (snd (duplicate_scan m r t)) = prefs t"
    by (induction m r t rule: duplicate_scan.induct) (simp_all add: Let_def)
  show "prefs (relay_stored env p t) = prefs t"
    by (simp add: relay_stored_def Let_def split_def split: option.split)
  show "prefs (updateOrStorePeerNameFromAnnouncement a con t) = prefs t"
    by (simp add: updateOrStorePeerNameFromAnnouncement_def Let_def split_def)
qed

lemma prefs_rssi: "requestNextRssi env restart it t = Some (go_on, it', u) \<Longrightarrow> prefs u = prefs t"
  by (auto simp: requestNextRssi_def Let_def split: option.splits if_splits)

subsection \<open>The key\<close>

definition keeps_key :: "tracker \<Rightarrow> tracker \<Rightarrow> bool" where
  "keeps_key t u \<longleftrightarrow> key (prefs t) \<noteq> [] \<longrightarrow> key (prefs u) = key (prefs t)"

lemma keeps_key_same: "prefs u = prefs t \<Longrightarrow> keeps_key t u"
  by (simp add: keeps_key_def)

lemma keeps_key_trans: "keeps_key t u \<Longrightarrow> keeps_key u v \<Longrightarrow> keeps_key t v"
  by (auto simp: keeps_key_def)

lemma written_key [simp]: "key (snd (Preferences_writePacket p)) = key p"
  by (simp add: Preferences_writePacket_def writePacket_def Let_def
      Preferences_getPayloadLength_def setPayloadLength_def split: prod.split)

subsection \<open>A preferences packet arrives\<close>

lemma preferences_packet_short:
  assumes "packet_version p = 1" and "packet_type p = type_micro_mesh_preferences"
    and "\<not> hasSignature p"
    and "payload_length p = 0 \<or>
         payload_length p = of_nat (length (Preferences_writePacketPayload [] p))"
  shows "length (fst (Preferences_writePacket p)) < 60000"
proof -
  have len: "payload_length p = 0 \<or>
      payload_length p = of_nat (length (tlvs_bytes (preferences_entries p)))"
    using assms(4) by (simp add: Preferences_payload_entries)
  show ?thesis
    using pref.written_bytes [OF assms(1-3) len TrueI] preferences_entries_length [of p]
    unfolding Preferences_writePacket_def by (simp add: header_bytes_def)
qed

lemma processWrite_preferences:
  assumes "packet_version p = 1" and "packet_type p = type_micro_mesh_preferences"
    and "\<not> hasSignature p"
    and "payload_length p = 0 \<or>
         payload_length p = of_nat (length (Preferences_writePacketPayload [] p))"
    and "Preferences_writePacketPayload [] p \<noteq> []"
    and "Preferences_writePacket p = (packet, p')"
  shows "processWrite env con 0 packet (of_nat (length packet)) t =
    Some (updatePreferences env (preferences_on_wire p') True t)"
proof -
  have "length packet < 65536"
    using preferences_packet_short [OF assms(1-4)] assms(6) by simp
  from preferences_written_is_read [OF assms, of "length packet" "[]"] this obtain r1 r2 r3 where
    "read_uint8 (BinaryReader 0 packet (of_nat (length packet))) = (1, r1)"
    "read_uint8 r1 = (type_micro_mesh_preferences, r2)"
    "Preferences_read 1 r2 = Some (preferences_on_wire p', r3)"
    by (auto simp: packet_reader_def)
  then show ?thesis by (simp add: processWrite_unfold Let_def)
qed

lemma preferences_on_wire_simps [simp]:
  "key (preferences_on_wire p) = take 255 (key p)"
  "packet_recipient_id (preferences_on_wire p) =
     (if hasPacketRecipient p then packet_recipient_id p else 0)"
  "malformed (preferences_on_wire p) = False"
  by (simp_all add: preferences_on_wire_def Preferences_blank_def)

lemma preferences_eq_written [simp]:
  "preferences_eq (snd (Preferences_writePacket p)) q = preferences_eq p q"
  "hasPacketRecipient (snd (Preferences_writePacket p)) = hasPacketRecipient p"
  "packet_recipient_id (snd (Preferences_writePacket p)) = packet_recipient_id p"
  by (simp_all add: Preferences_writePacket_def writePacket_def Let_def preferences_eq_def
      Preferences_getPayloadLength_def setPayloadLength_def hasPacketRecipient_def split: prod.split)

lemma preferences_eq_refl [simp]: "preferences_eq p p"
  by (simp add: preferences_eq_def)

text \<open>
  C24: Preferences that the owner of the board sends take effect: a well-formed preferences
  packet addressed to the board, with the key it has or as its first key, replaces the
  preferences by what was sent, and it is saved to flash once, or not at all when it equals
  what the board has.
\<close>

theorem owner_sets_preferences:
  assumes "packet_version p = 1" and "packet_type p = type_micro_mesh_preferences"
    and "\<not> hasSignature p"
    and "payload_length p = 0 \<or>
         payload_length p = of_nat (length (Preferences_writePacketPayload [] p))"
    and "Preferences_writePacketPayload [] p \<noteq> []"
    and "Preferences_writePacket p = (packet, p')"
    and "hasPacketRecipient p" and "packet_recipient_id p = env_board_id env"
    and "key (prefs t) = [] \<or> key (prefs t) = take 255 (key p)"
  shows "\<exists>u. processWrite env con 0 packet (of_nat (length packet)) t = Some u \<and>
     preferences_eq (prefs u) (preferences_on_wire p') \<and>
     bt_calls u = bt_calls t @
       (if preferences_eq (prefs t) (preferences_on_wire p') then []
        else [SaveFlash (preferences_on_wire p')])"
proof -
  have p': "p' = snd (Preferences_writePacket p)" using assms(6) by simp
  have k: "key p' = key p" unfolding p' by simp
  have r: "packet_recipient_id (preferences_on_wire p') = env_board_id env"
    unfolding preferences_on_wire_simps p' using assms(7,8) by simp
  show ?thesis
    unfolding processWrite_preferences [OF assms(1-6)]
    using assms(9) k r
    by (auto simp: updatePreferences_def getMySenderId_def Let_def bt_invoke_def)
qed

definition sample_preferences :: preferences where
  "sample_preferences =
     setSsid (setKey (Preferences_init\<lparr>packet_flags := packet_flag_has_recipient,
       packet_recipient_id := 0x0102030405060708\<rparr>) (ascii ''K'')) (ascii ''home'')"

lemma sample_preferences_valid:
  "packet_version sample_preferences = 1"
  "packet_type sample_preferences = type_micro_mesh_preferences"
  "\<not> hasSignature sample_preferences" "payload_length sample_preferences = 0"
  "Preferences_writePacketPayload [] sample_preferences \<noteq> []"
  "hasPacketRecipient sample_preferences"
  "packet_recipient_id sample_preferences = env_board_id sample_env"
  by code_simp+

lemma sample_preferences_written:
  "Preferences_writePacket sample_preferences =
     (fst (Preferences_writePacket sample_preferences), snd (Preferences_writePacket sample_preferences))"
  by simp

theorem owner_sets_preferences_witness:
  "\<exists>u. processWrite sample_env sample_connection 0 (fst (Preferences_writePacket sample_preferences))
         (of_nat (length (fst (Preferences_writePacket sample_preferences)))) Tracker_init = Some u \<and>
     preferences_eq (prefs u) (preferences_on_wire (snd (Preferences_writePacket sample_preferences)))"
proof -
  have "key (prefs Tracker_init) = []" by code_simp
  then show ?thesis
    using owner_sets_preferences [OF sample_preferences_valid(1-3)
        disjI1 [OF sample_preferences_valid(4)] sample_preferences_valid(5)
        sample_preferences_written sample_preferences_valid(6,7), of Tracker_init sample_connection]
    by blast
qed

subsection \<open>No step changes the key\<close>

lemma updatePreferences_key: "keeps_key t (updatePreferences env p save t)"
  by (auto simp: updatePreferences_def Let_def keeps_key_def)

lemma processWrite_key:
  assumes "processWrite env con offset buffer n t = Some u"
  shows "keeps_key t u"
  using assms
  by (auto simp: processWrite_unfold Let_def split_def keeps_key_same updatePreferences_key
      split: if_splits option.splits)

lemma prefs_handlers [simp, same_prefs]:
  "prefs (connection_tracker (snd (handle_gatt_client_event e d))) = prefs (connection_tracker d)"
  "prefs (connection_tracker (hci_packet_handler env he d)) = prefs (connection_tracker d)"
  "prefs (connection_tracker (att_packet_handler env ae d)) = prefs (connection_tracker d)"
  "prefs (connection_tracker (generateMessageIfNeeded env d)) = prefs (connection_tracker d)"
  "prefs (connection_tracker (snd (connect_to_first_neighbour err d))) = prefs (connection_tracker d)"
  by (simp add: handle_gatt_client_event_def Let_def split_def split: gatt_event.split,
      simp add: hci_packet_handler_def Let_def split: hci_event.split,
      simp add: att_packet_handler_def Let_def split: att_event.split,
      simp add: generateMessageIfNeeded_def Let_def split_def split: option.split,
      simp add: connect_to_first_neighbour_def Let_def split: list.split)

lemma device_step_key:
  "device_step d u \<Longrightarrow> keeps_key (connection_tracker d) (connection_tracker u)"
proof (induction rule: device_step.induct)
  case (boot env fl sector d t)
  then show ?case
    by (auto simp: boot_preferences_def Let_def split_def keeps_key_same updatePreferences_key
        split: if_splits option.splits)
next
  case (att_read profile h offset buffer d n buffer' u)
  then show ?case
    by (auto simp: att_read_callback_def Let_def keeps_key_same split: if_splits)
next
  case (att_write env profile le16 nv con h mode offset buffer n d u)
  let ?t = "snd (connectionForConnHandle con (connection_tracker d))"
  have first: "keeps_key (connection_tracker d) ?t" by (simp add: keeps_key_same)
  show ?case
    using att_write
    by (auto simp: att_write_callback_def Let_def split_def keeps_key_same split: if_splits
        dest!: processWrite_key intro: keeps_key_trans [OF first])
next
  case (value_update env ve d u)
  then show ?case
    by (auto simp: handle_gatt_client_value_update_event_def Let_def split_def keeps_key_same
        split: value_update_event.splits
        dest!: processWrite_key intro: keeps_key_trans [OF keeps_key_same [OF prefs_simple(3)]])
qed (simp_all add: keeps_key_same prefs_rssi getAnyDuplicateHandle_def prefs_raw
    packet_can_send_notification_handler_def packet_can_write_without_response_handler_def)

text \<open>
  C15: Once the preferences have a key, no run of the device changes it: whatever packets
  arrive, from whomever, and whatever else happens. So a device that has been given a key
  keeps answering to that key only.
\<close>

theorem key_never_changes:
  assumes "rtranclp device_step d u" and "key (prefs (connection_tracker d)) \<noteq> []"
  shows "key (prefs (connection_tracker u)) = key (prefs (connection_tracker d))"
  using assms(1)
proof (induction rule: rtranclp_induct)
  case (step v w)
  then show ?case using device_step_key [OF step.hyps(2)] assms(2) by (simp add: keeps_key_def)
qed simp

theorem key_never_changes_witness:
  "let d = Device_init\<lparr>connection_tracker := Tracker_init\<lparr>prefs := sample_preferences\<rparr>\<rparr>;
       u = on_tracker (cleanupStaleItems sample_env) (hci_packet_handler sample_env
             (LeConnectionComplete 0x40 [1, 2, 3, 4, 5, 6] 0 HCI_ROLE_SLAVE) d)
   in key (prefs (connection_tracker u)) = ascii ''K''"
proof -
  let ?d = "Device_init\<lparr>connection_tracker := Tracker_init\<lparr>prefs := sample_preferences\<rparr>\<rparr>"
  let ?e = "LeConnectionComplete 0x40 [1, 2, 3, 4, 5, 6] 0 HCI_ROLE_SLAVE"
  have "device_step ?d (hci_packet_handler sample_env ?e ?d)" by (rule device_step.hci)
  from rtranclp.rtrancl_into_rtrancl [OF r_into_rtranclp [of device_step, OF this] device_step.cleanup]
  have "rtranclp device_step ?d
      (on_tracker (cleanupStaleItems sample_env) (hci_packet_handler sample_env ?e ?d))" .
  moreover have "key sample_preferences = ascii ''K''" by code_simp
  ultimately show ?thesis
    using key_never_changes [of ?d] by (simp add: Let_def ascii_def)
qed

text \<open>
  C25: A packet changes the preferences only if it says it is a preferences packet, is
  addressed to this board, and carries the key the preferences have, when they have one.
\<close>

theorem only_owner_changes_preferences:
  assumes "processWrite env con offset buffer n t = Some u" and "prefs u \<noteq> prefs t"
  shows "\<exists>version r p r'.
     read_uint8 (snd (read_uint8 (BinaryReader offset buffer n))) = (type_micro_mesh_preferences, r) \<and>
     Preferences_read version r = Some (p, r') \<and>
     packet_recipient_id p = env_board_id env \<and>
     (key (prefs t) = [] \<or> key p = key (prefs t)) \<and>
     prefs u = snd (Preferences_writePacket p)"
proof -
  let ?two = "read_uint8 (snd (read_uint8 (BinaryReader offset buffer n)))"
  have "\<exists>version p r'. fst ?two = type_micro_mesh_preferences \<and>
      Preferences_read version (snd ?two) = Some (p, r') \<and> u = updatePreferences env p True t"
    using assms
    by (auto simp: processWrite_unfold Let_def split_def split: if_splits option.splits) blast
  then obtain version p r' where "fst ?two = type_micro_mesh_preferences"
    "Preferences_read version (snd ?two) = Some (p, r')" "u = updatePreferences env p True t"
    by blast
  then show ?thesis
    using assms(2)
    by (intro exI [of _ version] exI [of _ "snd ?two"] exI [of _ p] exI [of _ r'])
      (auto simp: updatePreferences_def Let_def getMySenderId_def bt_invoke_def prod_eq_iff
        split: if_splits)
qed

theorem only_owner_changes_preferences_witness:
  "\<exists>version r p r'.
     read_uint8 (snd (read_uint8 (BinaryReader 0 (fst (Preferences_writePacket sample_preferences))
       (of_nat (length (fst (Preferences_writePacket sample_preferences))))))) =
         (type_micro_mesh_preferences, r) \<and>
     Preferences_read version r = Some (p, r') \<and> packet_recipient_id p = env_board_id sample_env"
proof -
  let ?p = "preferences_on_wire (snd (Preferences_writePacket sample_preferences))"
  note arrival = processWrite_preferences [OF sample_preferences_valid(1-3)
      disjI1 [OF sample_preferences_valid(4)] sample_preferences_valid(5)
      sample_preferences_written, of sample_env sample_connection Tracker_init]
  have r: "packet_recipient_id ?p = getMySenderId sample_env"
    using sample_preferences_valid(6,7) by (simp add: getMySenderId_def)
  have k: "key (prefs Tracker_init) = []" "key sample_preferences = ascii ''K''" by code_simp+
  then have kp: "key ?p = ascii ''K''" by simp
  then have ne: "\<not> preferences_eq (prefs Tracker_init) ?p"
    using k(1) by (simp add: preferences_eq_def ascii_def)
  have "prefs (updatePreferences sample_env ?p True Tracker_init) =
      snd (Preferences_writePacket ?p)"
    using r k(1) ne by (simp del: preferences_on_wire_simps add: updatePreferences_def Let_def)
  then have "key (prefs (updatePreferences sample_env ?p True Tracker_init)) = ascii ''K''"
    by (simp only: written_key kp)
  then have "prefs (updatePreferences sample_env ?p True Tracker_init) \<noteq> prefs Tracker_init"
    using k(1) by (auto simp: ascii_def)
  from only_owner_changes_preferences [OF arrival this] show ?thesis by blast
qed

end
