(* ===== verification/Tracker_Properties.thy ===== *)
theory Tracker_Properties
  imports Processor_Properties
begin

section \<open>Properties of the tracker\<close>

subsection \<open>Storing announces\<close>

text \<open>
  \<open>storeAnnounceAndReturnIfNew\<close> hands an announce back for relaying exactly when it is
  well-formed and no announce with its hash (type, flags, sender, recipient, location) was
  stored, and it stores every well-formed announce that is newer than the one it has. An
  announce with a changed name is stored but not handed back: the comparison with the old
  name looks at the element after it has been overwritten.
\<close>

theorem announce_stored_and_new:
  "storeAnnounceAndReturnIfNew env a t =
     (let h = getAnnounceHash (env_hash env) a;
          old = map_find h (announces t);
          newer = (case old of None \<Rightarrow> True
                   | Some b \<Rightarrow> packet_timestamp_ms b < packet_timestamp_ms a)
      in (if \<not> malformed a \<and> old = None then Some (AnnounceRef h) else None,
          if \<not> malformed a \<and> newer then t\<lparr>announces := map_put h a (announces t)\<rparr> else t))"
  by (auto simp: storeAnnounceAndReturnIfNew_def Let_def split: option.split)

subsection \<open>The clock\<close>

lemma sint_negative_u64: "sint (x :: u64) < 0 \<longleftrightarrow> 2 ^ 63 \<le> uint x"
proof -
  have lt: "uint x < 2 ^ 64" using uint_bounded [of x] by simp
  have "sint x < 0 \<longleftrightarrow> odd (uint x div 2 ^ 63)"
    by (simp add: sint_uint signed_take_bit_negative_iff bit_iff_odd)
  also have "\<dots> \<longleftrightarrow> 2 ^ 63 \<le> uint x"
  proof (cases "2 ^ 63 \<le> uint x")
    case True
    then have "uint x div 2 ^ 63 = 1"
      using lt by (intro int_div_pos_eq [where r = "uint x - 2 ^ 63"]) auto
    then show ?thesis using True by simp
  next
    case False
    then have "uint x div 2 ^ 63 = 0" by (simp add: zdiv_eq_0_iff)
    then show ?thesis using False by simp
  qed
  finally show ?thesis .
qed

text \<open>\<open>llabs\<close> of the difference to an earlier time, for times below \<open>2 ^ 63\<close>.\<close>

lemma abs_difference_u64:
  fixes a b :: u64
  assumes "b \<le> a" and "a < 0x8000000000000000"
  shows "(if sint (b - a) < 0 then - (b - a) else b - a) = a - b"
proof (cases "a = b")
  case False
  have bounds: "uint b < uint a" "uint a < 9223372036854775808"
    using assms False by (auto simp: word_le_def word_less_def word_uint_eq_iff)
  have "uint (b - a) = (uint b - uint a) mod 18446744073709551616"
    by (simp add: uint_word_ariths)
  also have "\<dots> = (uint b - uint a + 18446744073709551616) mod 18446744073709551616"
    by (simp only: mod_add_self2)
  also have "\<dots> = uint b - uint a + 18446744073709551616"
    using bounds uint_ge_0 [of b] by (intro mod_pos_pos_trivial) linarith+
  finally have "9223372036854775808 \<le> uint (b - a)"
    using bounds uint_ge_0 [of b] by linarith
  then show ?thesis by (simp add: sint_negative_u64)
qed simp

text \<open>
  C30: After \<open>possiblyUpdateTimeOffset\<close> the clock shows exactly the timestamp received when
  that lies ahead of the clock or more than five minutes behind it, and is untouched
  otherwise. So the clock jumps to any later time it is told, and back only by more than five
  minutes.
\<close>

theorem clock_follows_timestamp:
  assumes "getTimeMs env t < 0x8000000000000000"
  shows "getTimeMs env (possiblyUpdateTimeOffset env ts t) =
    (if ts > getTimeMs env t \<or> getTimeMs env t - ts > 300000 then ts else getTimeMs env t)"
proof -
  let ?now = "getTimeMs env t"
  have moved: "getTimeMs env (t\<lparr>timestamp_offset_ms := timestamp_offset_ms t + (ts - ?now)\<rparr>) = ts"
    by (simp add: getTimeMs_def)
  show ?thesis
  proof (cases "ts > ?now")
    case True
    then show ?thesis
      using moved by (simp add: possiblyUpdateTimeOffset_def Let_def)
  next
    case False
    then show ?thesis
      using moved abs_difference_u64 [of ts ?now] assms
      by (auto simp: possiblyUpdateTimeOffset_def Let_def MESSAGE_TIMEOUT_def not_less
          simp del: minus_diff_eq)
  qed
qed

theorem clock_follows_timestamp_witness:
  "getTimeMs sample_env (possiblyUpdateTimeOffset sample_env 1781273466000 Tracker_init) =
     1781273466000"
  by (subst clock_follows_timestamp)
    (simp_all add: getTimeMs_def sample_env_def Tracker_init_def)

subsection \<open>Queueing for one connection\<close>

lemma packet_base_connections [simp]:
  "packet_base (alter_connection h f t) p = packet_base t p"
  by (simp add: packet_base_def alter_connection_def split: packet_ref.split)

text \<open>
  Queueing a packet for a connection twice is queueing it once, and a packet whose time
  to live has run out is not queued.
\<close>

theorem enqueue_targeted_once:
  "enqueueTargetedPacket env p c (enqueueTargetedPacket env' p c t) =
     enqueueTargetedPacket env' p c t \<and>
   (if (case packet_base t p of None \<Rightarrow> True | Some b \<Rightarrow> packet_ttl b = 0)
    then enqueueTargetedPacket env' p c t else t) = t"
proof -
  let ?h = "connection_handle c"
  obtain t1 where con: "connectionForConnHandle ?h t = (?h, t1)"
    using connectionForConnHandle_live(1) [of ?h t] by (metis prod.collapse)
  have base: "packet_base t1 p = packet_base t p"
    using con by (auto simp: connectionForConnHandle_def split: option.splits)
  have live: "map_find ?h (connections t1) \<noteq> None"
    using connectionForConnHandle_live(2) [of ?h t] con
    by (simp add: live_connection_def connection_at_def)
  then have again: "connectionForConnHandle ?h t1 = (?h, t1)"
    "connectionForConnHandle ?h (t1\<lparr>targeted_packets_to_send_list := l\<rparr>) =
       (?h, t1\<lparr>targeted_packets_to_send_list := l\<rparr>)" for l
    by (auto simp: connectionForConnHandle_def)
  show ?thesis
    using base again
    by (auto simp: enqueueTargetedPacket_def con mm_equal_range_def list_ex_iff
        split: option.split)
qed

subsection \<open>Clean-up\<close>

text \<open>
  The stores after a clean-up, with the ten minutes written out, and what a pointer sees there:
  for an entry of a queue, whose packet is there, the packet is still there exactly when it was
  not stale.
\<close>

lemma cleanup_stores:
  assumes "tracker_ok t"
  shows "map_find i (messages (cleanupStaleItems env t)) =
      (case map_find i (messages t) of None \<Rightarrow> None
       | Some m \<Rightarrow> if packet_timestamp_ms m + 600000 < getTimeMs env t then None else Some m)"
    and "map_find h (announces (cleanupStaleItems env t)) =
      (case map_find h (announces t) of None \<Rightarrow> None
       | Some a \<Rightarrow> if packet_timestamp_ms a + 600000 < getTimeMs env t then None else Some a)"
    and "map_find k (connections (cleanupStaleItems env t)) =
      (case map_find k (connections t) of None \<Rightarrow> None
       | Some c \<Rightarrow> if \<not> connected c \<and> getTimestampMs c + 600000 < getTimeMs env t then None
                  else Some c)"
    and "own_announce (cleanupStaleItems env t) = own_announce t"
  using assms by (simp_all add: cleanupStaleItems_def Let_def tracker_ok_def stores_ok_def
      ten_minutes_in_ms_def connection_stale_def split: option.split)

lemma cleanup_packet_base:
  assumes "tracker_ok t" and "packet_base t p \<noteq> None"
  shows "packet_stale (getTimeMs env t) t p \<longleftrightarrow>
    packet_base (cleanupStaleItems env t) p = None \<or>
    p = OwnAnnounceRef \<and> packet_timestamp_ms (own_announce t) + 600000 < getTimeMs env t"
  using assms cleanup_stores [OF assms(1)]
  by (auto simp: packet_stale_def packet_base_def base_of_def ten_minutes_in_ms_def
      split: packet_ref.splits option.splits if_splits)

lemma cleanup_connection_at:
  assumes "tracker_ok t" and "connection_at t h \<noteq> None"
  shows "(case connection_at t h of None \<Rightarrow> False | Some c \<Rightarrow> connection_stale (getTimeMs env t) c) \<longleftrightarrow>
    connection_at (cleanupStaleItems env t) h = None"
  using assms cleanup_stores(3) [OF assms(1), of h env]
  by (auto simp: connection_at_def connection_stale_def ten_minutes_in_ms_def split: option.splits if_splits)

text \<open>
  C26: What \<open>cleanupStaleItems\<close> keeps. A message or announce survives exactly when its timestamp
  plus ten minutes is not before the current time, a connection also when it is connected. Of the
  queues and the records of what was sent exactly those entries are left, in their old order,
  whose packet and connection both survive; an entry for the node's own announce, which is no
  element of a store, is left while that announce is not older than ten minutes.
\<close>

theorem cleanup_keeps_exactly_the_fresh:
  assumes "tracker_ok t"
  shows "let u = cleanupStaleItems env t;
             old = (\<lambda>time :: u64. time + 600000 < getTimeMs env t);
             kept = (\<lambda>p. packet_base u p \<noteq> None \<and>
                      (p = OwnAnnounceRef \<longrightarrow> \<not> old (packet_timestamp_ms (own_announce t))));
             kept_for = (\<lambda>(p, h). kept p \<and> connection_at u h \<noteq> None)
    in map_find i (messages u) =
         (case map_find i (messages t) of None \<Rightarrow> None
          | Some m \<Rightarrow> if old (packet_timestamp_ms m) then None else Some m) \<and>
       map_find h (announces u) =
         (case map_find h (announces t) of None \<Rightarrow> None
          | Some a \<Rightarrow> if old (packet_timestamp_ms a) then None else Some a) \<and>
       map_find k (connections u) =
         (case map_find k (connections t) of None \<Rightarrow> None
          | Some c \<Rightarrow> if \<not> connected c \<and> old (getTimestampMs c) then None else Some c) \<and>
       broadcast_packets_to_send_list u = filter kept (broadcast_packets_to_send_list t) \<and>
       targeted_packets_to_send_list u = filter kept_for (targeted_packets_to_send_list t) \<and>
       packets_connections_sent_list u = filter kept_for (packets_connections_sent_list t) \<and>
       packets_peers_sent_list u = filter (\<lambda>e. kept (fst e)) (packets_peers_sent_list t)"
proof -
  let ?u = "cleanupStaleItems env t" and ?now = "getTimeMs env t"
  let ?kept = "\<lambda>p. packet_base ?u p \<noteq> None \<and> (p = OwnAnnounceRef \<longrightarrow>
      \<not> packet_timestamp_ms (own_announce t) + 600000 < ?now)"
  have packet: "(\<not> packet_stale ?now t p) = ?kept p" if "live_packet t p" for p
    using that cleanup_packet_base [OF assms, of p env] by (auto simp: live_packet_def)
  have entry: "(\<not> packet_connection_stale ?now t e) =
      (case e of (p, h) \<Rightarrow> ?kept p \<and> connection_at ?u h \<noteq> None)"
    if "live_packet t (fst e) \<and> live_connection t (snd e)" for e
    using that packet [of "fst e"] cleanup_connection_at [OF assms, of "snd e" env]
    by (simp add: packet_connection_stale_def live_connection_def split_def)
  have refs: "refs_ok t" using assms by (simp add: tracker_ok_def)
  have "broadcast_packets_to_send_list ?u = filter ?kept (broadcast_packets_to_send_list t)"
    unfolding cleanup_queues erase_if_def
    by (intro filter_cong refl packet) (use refs in \<open>simp add: refs_ok_def\<close>)
  moreover have "packets_peers_sent_list ?u = filter (\<lambda>e. ?kept (fst e)) (packets_peers_sent_list t)"
    unfolding cleanup_queues erase_if_def
    by (intro filter_cong refl packet) (use refs in \<open>simp add: refs_ok_def\<close>)
  moreover have "targeted_packets_to_send_list ?u =
      filter (\<lambda>(p, h). ?kept p \<and> connection_at ?u h \<noteq> None) (targeted_packets_to_send_list t)"
    unfolding cleanup_queues erase_if_def
    by (intro filter_cong refl entry) (use refs in \<open>simp add: refs_ok_def\<close>)
  moreover have "packets_connections_sent_list ?u =
      filter (\<lambda>(p, h). ?kept p \<and> connection_at ?u h \<noteq> None) (packets_connections_sent_list t)"
    unfolding cleanup_queues erase_if_def
    by (intro filter_cong refl entry) (use refs in \<open>simp add: refs_ok_def\<close>)
  ultimately show ?thesis unfolding Let_def by (intro conjI cleanup_stores assms)
qed

definition sample_tracker :: tracker where
  "sample_tracker =
     Tracker_init\<lparr>messages := [(ascii ''X1'', sample_message)],
       connections := [(0x40, sample_connection)],
       broadcast_packets_to_send_list := [MessageRef (ascii ''X1'')],
       packets_connections_sent_list := [(MessageRef (ascii ''X1''), 0x40)],
       timestamp_offset_ms := 1781273466000\<rparr>"

lemma sample_tracker_ok: "tracker_ok sample_tracker"
  by (simp add: tracker_ok_def stores_ok_def refs_ok_def sample_tracker_def Tracker_init_def
      map_sorted_def mm_sorted_def live_packet_def packet_base_def live_connection_def
      connection_at_def map_find_def sample_message_valid)
    code_simp

theorem cleanup_keeps_exactly_the_fresh_witness:
  "map_find (ascii ''X1'') (messages (cleanupStaleItems sample_env sample_tracker)) = None \<and>
   broadcast_packets_to_send_list (cleanupStaleItems sample_env sample_tracker) = []"
proof -
  have stored: "map_find (ascii ''X1'') (messages sample_tracker) = Some sample_message"
    by (simp add: sample_tracker_def map_find_def)
  have old: "packet_timestamp_ms sample_message + 600000 < getTimeMs sample_env sample_tracker"
    by code_simp
  have queue: "broadcast_packets_to_send_list sample_tracker = [MessageRef (ascii ''X1'')]"
    by (simp add: sample_tracker_def)
  show ?thesis
    using cleanup_keeps_exactly_the_fresh [OF sample_tracker_ok, of sample_env "ascii ''X1''"]
    by (simp add: Let_def stored old queue packet_base_def)
qed

text \<open>
  C39: Once the node knows the time, a clean-up drops every connection that is not connected
  and every neighbour it has seen advertise, however recently: their age is computed from the
  uptime at which they were seen and the network time. (Neighbours are never marked as
  connected.) Connected links are kept.
\<close>

theorem cleanup_drops_all_idle_links:
  assumes "weHaveTheTime t" and "tracker_ok t"
    and "\<forall>c \<in> snd ` set (connections t) \<union> snd ` set (available_neighbours t).
           last_seen_time c \<le> env_time_us env"
    and "env_time_us env < 0x1000000000000000" and "timestamp_offset_ms t < 0x1000000000000000"
  shows "connections (cleanupStaleItems env t) = filter (\<lambda>e. connected (snd e)) (connections t) \<and>
    available_neighbours (cleanupStaleItems env t) =
      filter (\<lambda>e. connected (snd e)) (available_neighbours t)"
proof -
  let ?now = "getTimeMs env t"
  have stale: "last_seen_time c div 1000 + 600000 < ?now" if "last_seen_time c \<le> env_time_us env"
    for c
  proof -
    let ?a = "unat (last_seen_time c)" and ?b = "unat (env_time_us env)"
      and ?o = "unat (timestamp_offset_ms t)"
    have ab: "?a \<le> ?b" using that by (simp add: word_le_nat_alt)
    have b: "?b < 0x1000000000000000" and o: "?o < 0x1000000000000000"
      using assms(4,5) by (simp_all add: word_less_nat_alt)
    have o2: "1781273465000 \<le> ?o"
      using assms(1) by (simp add: weHaveTheTime_def build_time_ms_def word_le_nat_alt)
    have "?a div 1000 + 600000 < 2 ^ 64" using ab b by (simp add: div_le_mono)
    then have l: "unat (last_seen_time c div 1000 + 600000) = ?a div 1000 + 600000"
      using ab b by (simp add: unat_word_ariths unat_div)
    have r: "unat (timestamp_offset_ms t + env_time_us env div 1000) = ?o + ?b div 1000"
      using b o by (simp add: unat_word_ariths unat_div)
    have "?a div 1000 \<le> ?b div 1000" using ab by (rule div_le_mono)
    then show ?thesis
      using o2 unfolding word_less_nat_alt getTimeMs_def l r by linarith
  qed
  have drop: "filter (\<lambda>e. \<not> connection_stale ?now (snd e)) m = filter (\<lambda>e. connected (snd e)) m"
    if "\<forall>e \<in> set m. last_seen_time (snd e) \<le> env_time_us env" for m :: "('k \<times> ble_connection) list"
    using that stale
    by (intro filter_cong)
      (auto simp: connection_stale_def getTimestampMs_def ten_minutes_in_ms_def)
  show ?thesis
    using assms(3) by (simp add: cleanupStaleItems_def Let_def erase_if_def drop)
qed

theorem cleanup_drops_all_idle_links_witness:
  "available_neighbours (cleanupStaleItems sample_env (addAvailablePeer sample_env
     [1, 2, 3, 4, 5, 6] 0 ServiceUUIDFound 200 False sample_tracker)) = []"
proof -
  let ?t = "addAvailablePeer sample_env [1, 2, 3, 4, 5, 6] 0 ServiceUUIDFound 200 False sample_tracker"
  have ok: "tracker_ok ?t" by (rule simple_op_ok(5) [OF sample_tracker_ok])
  have known: "weHaveTheTime ?t" by code_simp
  have seen: "\<forall>c \<in> snd ` set (connections ?t) \<union> snd ` set (available_neighbours ?t).
      last_seen_time c \<le> env_time_us sample_env" by code_simp
  have small: "env_time_us sample_env < 0x1000000000000000"
    "timestamp_offset_ms ?t < 0x1000000000000000" by code_simp+
  have "filter (\<lambda>e. connected (snd e)) (available_neighbours ?t) = []" by code_simp
  with cleanup_drops_all_idle_links [OF known ok seen small] show ?thesis by simp
qed

end
