(* ===== verification/Send_Properties.thy ===== *)
theory Send_Properties
  imports Tracker_Properties
begin

section \<open>Properties of sending\<close>

subsection \<open>One packet to one connection\<close>

lemma packet_write_queues [simp]:
  "raw_packet_to_notify (snd (packet_write p t)) = raw_packet_to_notify t"
  "raw_packet_to_write (snd (packet_write p t)) = raw_packet_to_write t"
  "bt_calls (snd (packet_write p t)) = bt_calls t"
  "targeted_packets_to_send_list (snd (packet_write p t)) = targeted_packets_to_send_list t"
  "broadcast_packets_to_send_list (snd (packet_write p t)) = broadcast_packets_to_send_list t"
  by (auto simp: packet_write_def Let_def split: packet_ref.split option.split prod.split)

text \<open>What one call of \<open>SendPacketToConnection\<close> does to the two raw queues.\<close>

lemma send_queues:
  assumes "mm_sorted (\<lambda>h. h) (raw_packet_to_notify t)" "mm_sorted (\<lambda>h. h) (raw_packet_to_write t)"
    and "packet_base t p = Some b" and "connection_at t con = Some c"
  shows "let h = connection_handle c;
             data = fst (packet_write p t);
             back = sending_connection_handle b > 0 \<and> sending_connection_handle b = h;
             fits = bt_mtu c = 0 \<or> length data \<le> unat (bt_mtu c);
             (ok, u) = SendPacketToConnection env p con t
         in mm_values j (raw_packet_to_notify u) = mm_values j (raw_packet_to_notify t) @
              (if \<not> back \<and> fits \<and> role c = HCI_ROLE_SLAVE \<and> j = h then [data] else []) \<and>
            mm_values j (raw_packet_to_write u) = mm_values j (raw_packet_to_write t) @
              (if \<not> back \<and> fits \<and> role c \<noteq> HCI_ROLE_SLAVE \<and> j = h then [data] else []) \<and>
            ok = (back \<or> fits \<and> env_status env (bt_calls t @
              [if role c = HCI_ROLE_SLAVE then RequestNotification h else RequestWrite h]) = 0)"
proof -
  obtain data t1 where data: "packet_write p t = (data, t1)" by (cases "packet_write p t")
  then have t1: "raw_packet_to_notify t1 = raw_packet_to_notify t"
    "raw_packet_to_write t1 = raw_packet_to_write t" "bt_calls t1 = bt_calls t"
    using packet_write_queues [of p t] by simp_all
  show ?thesis
    by (auto simp: SendPacketToConnection_def assms(3,4) data Let_def queue_raw_packet_def
        bt_invoke_def alter_connection_def t1 handle_queue.get_push assms(1,2) not_le)
qed

text \<open>
  C22: Sending a packet to a connection puts the packet's bytes at the end of exactly one raw
  queue, that of the connection's handle on the side its role asks for, and it leaves every
  other queue alone. Nothing is queued for the connection the packet came from, or when the
  bytes exceed a known MTU. The result is true when the packet came from there, or when it
  was queued and the stack accepted the request to send.
\<close>

theorem send_appends_to_one_queue:
  assumes "tracker_ok t" and "packet_base t p = Some b" and "connection_at t con = Some c"
  shows "let h = connection_handle c;
             data = fst (packet_write p t);
             back = sending_connection_handle b > 0 \<and> sending_connection_handle b = h;
             fits = bt_mtu c = 0 \<or> length data \<le> unat (bt_mtu c);
             (ok, u) = SendPacketToConnection env p con t
         in mm_values j (raw_packet_to_notify u) = mm_values j (raw_packet_to_notify t) @
              (if \<not> back \<and> fits \<and> role c = HCI_ROLE_SLAVE \<and> j = h then [data] else []) \<and>
            mm_values j (raw_packet_to_write u) = mm_values j (raw_packet_to_write t) @
              (if \<not> back \<and> fits \<and> role c \<noteq> HCI_ROLE_SLAVE \<and> j = h then [data] else []) \<and>
            ok = (back \<or> fits \<and> env_status env (bt_calls t @
              [if role c = HCI_ROLE_SLAVE then RequestNotification h else RequestWrite h]) = 0)"
  using assms(1) by (intro send_queues assms) (simp_all add: tracker_ok_def stores_ok_def)

theorem send_appends_to_one_queue_witness:
  "mm_values 0x40 (raw_packet_to_notify
     (snd (SendPacketToConnection sample_env (MessageRef (ascii ''X1'')) 0x40 sample_tracker))) =
   [sample_packet]"
proof -
  have b: "packet_base sample_tracker (MessageRef (ascii ''X1'')) = Some (base_of sample_message)"
    by (simp add: packet_base_def sample_tracker_def map_find_def)
  have c: "connection_at sample_tracker 0x40 = Some sample_connection"
    by (simp add: connection_at_def sample_tracker_def map_find_def)
  have data: "fst (packet_write (MessageRef (ascii ''X1'')) sample_tracker) = sample_packet"
    by (simp add: packet_write_def sample_tracker_def map_find_def sample_packet_def
        split: prod.split)
  have "sending_connection_handle (base_of sample_message) = 0" by code_simp
  moreover have "bt_mtu sample_connection = 0" "role sample_connection = HCI_ROLE_SLAVE"
    "connection_handle sample_connection = 0x40"
    by code_simp+
  moreover have "mm_values 0x40 (raw_packet_to_notify sample_tracker) = []"
    by (simp add: sample_tracker_def Tracker_init_def)
  ultimately show ?thesis
    using send_appends_to_one_queue [OF sample_tracker_ok b c, of sample_env "0x40"]
    by (simp add: data Let_def split_def)
qed

subsection \<open>sendPackets\<close>

text \<open>
  Sending marks a connection as having data and changes nothing else about the links:
  \<open>links\<close> is what stays.
\<close>

definition links :: "tracker \<Rightarrow> (u16 \<times> ble_connection) list" where
  "links t = map (\<lambda>(h, c). (h, setHasData c False)) (connections t)"

lemma map_put_same:
  assumes "map_sorted m" and "map_find k m = Some v" and "f v' = f v"
  shows "map (\<lambda>(h, c). (h, f c)) (map_put k v' m) = map (\<lambda>(h, c). (h, f c)) m"
  using assms
proof (induction k v' m rule: map_put.induct)
  case (2 k v' k' w m)
  then have "k' \<le> k"
    by (auto simp: map_sorted_def map_find_def split: if_splits dest!: map_of_SomeD)
  with 2 show ?case by (auto simp: map_sorted_def map_find_def)
qed simp

lemma links_sorted: "links u = links t \<Longrightarrow> map_sorted (connections u) = map_sorted (connections t)"
  by (drule arg_cong [where f = "map fst"]) (simp add: links_def map_sorted_def split_def o_def)

lemma SendPacketToConnection_links [simp]:
  assumes "map_sorted (connections t)"
  shows "links (snd (SendPacketToConnection env p con t)) = links t"
proof (cases "connection_at t con")
  case (Some c)
  have "connections (snd (queue_raw_packet env con d data (snd (packet_write p t)))) =
      map_put con (setHasData c True) (connections t)" for d data
    using Some by (simp add: queue_raw_packet_def Let_def bt_invoke_def alter_connection_def
        map_alter_def connection_at_def)
  then have "links (snd (queue_raw_packet env con d data (snd (packet_write p t)))) = links t"
    for d data
    using map_put_same [OF assms Some [unfolded connection_at_def],
        of "\<lambda>c. setHasData c False"]
    by (simp add: links_def setHasData_def)
  then show ?thesis
    by (cases rule: SendPacketToConnection_cases [of env p con t]) (simp_all add: links_def)
qed (simp add: SendPacketToConnection_def links_def split: option.split)

lemma SendPacketToConnection_queues [simp]:
  "targeted_packets_to_send_list (snd (SendPacketToConnection env p con t)) =
     targeted_packets_to_send_list t"
  "broadcast_packets_to_send_list (snd (SendPacketToConnection env p con t)) =
     broadcast_packets_to_send_list t"
  by (cases rule: SendPacketToConnection_cases [of env p con t];
      simp add: queue_raw_packet_def Let_def bt_invoke_def alter_connection_def)+

lemma mark_sent_simps [simp]:
  "links (mark_sent env p con t) = links t"
  "targeted_packets_to_send_list (mark_sent env p con t) = targeted_packets_to_send_list t"
  "broadcast_packets_to_send_list (mark_sent env p con t) = broadcast_packets_to_send_list t"
  by (simp_all add: mark_sent_def links_def)

lemma links_available:
  "map (\<lambda>e. (fst e, connection_handle (snd e))) (available_connections t) =
   map (\<lambda>e. (fst e, connection_handle (snd e))) (filter (\<lambda>e. available (snd e)) (links t))"
  unfolding available_connections_def links_def
  by (induction "connections t") (auto simp: available_def setHasData_def filter_map o_def split_def)

lemma send_targeted_facts:
  assumes "stores_ok t"
  shows "links (snd (send_targeted env es t)) = links t \<and>
   broadcast_packets_to_send_list (snd (send_targeted env es t)) = broadcast_packets_to_send_list t"
proof (rule board.targeted_preserves)
  have "map_sorted (connections t)" using assms by (simp add: stores_ok_def)
  then show "links (snd (SendPacketToConnection env p con u)) = links t \<and>
      broadcast_packets_to_send_list (snd (SendPacketToConnection env p con u)) = broadcast_packets_to_send_list t"
    if "links u = links t \<and> broadcast_packets_to_send_list u = broadcast_packets_to_send_list t" for p con u
    using that links_sorted [of u t] by simp
qed simp_all

lemma handle_of_update [simp]:
  "handle_of (t\<lparr>packets_connections_sent_list := a\<rparr>) = handle_of t"
  "handle_of (t\<lparr>broadcast_packets_to_send_list := c\<rparr>) = handle_of t"
  "handle_of (t\<lparr>targeted_packets_to_send_list := d\<rparr>) = handle_of t"
  by (simp_all add: handle_of_def fun_eq_iff)

text \<open>Recording a packet keeps every connection that already counted as served.\<close>

lemma find_on_emplace:
  "insert (p, con) (set (mm_find_on p m)) \<subseteq> set (mm_find_on p (mm_emplace r p con m))"
  by (induction m) (auto simp: mm_find_on_def dest: set_dropWhileD)

lemma broadcast_sendable_mark:
  "broadcast_sendable (mark_sent env p con (snd (SendPacketToConnection env p con t))) p c \<Longrightarrow>
   broadcast_sendable t p c \<and> handle_of t con \<noteq> Some (connection_handle c)"
  using find_on_emplace [of p con "packets_connections_sent_list t" "env_address env"]
  by (auto simp: broadcast_sendable_def list_ex_iff mark_sent_def)

lemma broadcast_to_serves:
  "\<forall>e \<in> set cs. handle_of t (fst e) = Some (connection_handle (snd e)) \<Longrightarrow>
   broadcast_sendable (broadcast_to env p cs t) p d \<Longrightarrow>
   broadcast_sendable t p d \<and> connection_handle d \<notin> connection_handle ` snd ` set cs"
proof (induction env p cs t rule: broadcast_to.induct)
  case (2 env p con c rest t)
  let ?u = "if broadcast_sendable t p c
      then mark_sent env p con (snd (SendPacketToConnection env p con t)) else t"
  have handles: "handle_of ?u h = handle_of t h" for h by simp
  have "broadcast_sendable (broadcast_to env p rest ?u) p d" using "2.prems"(2) by simp
  then have rest: "broadcast_sendable ?u p d" "connection_handle d \<notin> connection_handle ` snd ` set rest"
    using "2.IH" "2.prems"(1) handles by auto
  have same: "broadcast_sendable t p d = broadcast_sendable t p c"
    if "connection_handle d = connection_handle c"
    using that by (simp add: broadcast_sendable_def)
  show ?case
    using rest broadcast_sendable_mark [of env p con t d] "2.prems"(1) same
    by (auto split: if_splits)
qed simp

lemma broadcast_to_queues:
  "broadcast_packets_to_send_list (broadcast_to env p cs t) = broadcast_packets_to_send_list t"
  by (rule board.to_all_preserves
      [where Q = "\<lambda>u. broadcast_packets_to_send_list u = broadcast_packets_to_send_list t"]) simp_all

lemma same_links_available:
  assumes "links u = links t"
  shows "available_connections u = [] \<longleftrightarrow> available_connections t = []"
    and "(connection_handle \<circ> snd) ` set (available_connections u) =
         (connection_handle \<circ> snd) ` set (available_connections t)"
proof -
  have eq: "map (\<lambda>e. (fst e, connection_handle (snd e))) (available_connections u) =
      map (\<lambda>e. (fst e, connection_handle (snd e))) (available_connections t)"
    unfolding links_available assms ..
  from arg_cong [OF eq, of "\<lambda>m. m = []"]
  show "available_connections u = [] \<longleftrightarrow> available_connections t = []" by simp
  from arg_cong [OF eq, of "\<lambda>m. snd ` set m"]
  show "(connection_handle \<circ> snd) ` set (available_connections u) =
      (connection_handle \<circ> snd) ` set (available_connections t)"
    by (simp add: image_image o_def)
qed

subsection \<open>Raw packets\<close>

lemma raw_queue_sorted:
  "tracker_ok t \<Longrightarrow> mm_sorted (\<lambda>h. h) (raw_packet_to_notify t)"
  "tracker_ok t \<Longrightarrow> mm_sorted (\<lambda>h. h) (raw_packet_to_write t)"
  by (simp_all add: tracker_ok_def stores_ok_def)

lemma raw_front:
  assumes "mm_sorted (\<lambda>h :: u16. h) m" and "mm_values h m = d # ds"
  shows "\<exists>rest. mm_lower_bound (\<lambda>h. h) h m = (h, d) # rest"
  using mm_lower_bound_key [of "\<lambda>h. h" m h] assms by (auto simp: inj_on_def)

text \<open>
  Whether the assertion on \<open>hasData\<close> lets a callback for \<open>h\<close> hand a packet over. \<open>sendPackets\<close>
  sets the flag of a link with its first packet, and it stays until the connection is dropped.
\<close>

definition raw_asserted :: "environment \<Rightarrow> u16 \<Rightarrow> tracker \<Rightarrow> bool" where
  "raw_asserted env h t \<longleftrightarrow>
     ASSERT_DEBUG env (has_data_to_send (map_at BleConnection_blank h (connections t)))"

lemma map_at_alter_id [simp]:
  "map_at v k (map_alter v h (\<lambda>c. c) m) = map_at v k m"
  by (cases "k = h") (auto simp: map_alter_def map_at_def map_find_put split: option.split)

lemma notify_aborts:
  "notifyRawPacket env h t = None \<longleftrightarrow>
     mm_lower_bound (\<lambda>h. h) h (raw_packet_to_notify t) \<noteq> [] \<and> \<not> raw_asserted env h t"
  by (auto simp: notifyRawPacket_def raw_asserted_def Let_def split_def alter_connection_def
      split: list.split)

lemma notify_front:
  assumes "tracker_ok t" and "mm_values h (raw_packet_to_notify t) = d # ds" and "raw_asserted env h t"
  shows "\<exists>u. notifyRawPacket env h t = Some u \<and>
     (let call = ServerNotify h (packet_characteristic_value_handle
                   (map_at BleConnection_blank h (connections t))) d;
          ret = env_status env (bt_calls t @ [call])
      in (\<exists>later. bt_calls u = bt_calls t @ call # later) \<and>
         mm_values h (raw_packet_to_notify u) = (if raw_done ret then ds else d # ds) \<and>
         (j = h \<or> mm_values j (raw_packet_to_notify u) = mm_values j (raw_packet_to_notify t)))"
proof -
  obtain rest where front: "mm_lower_bound (\<lambda>h. h) h (raw_packet_to_notify t) = (h, d) # rest"
    using raw_front [OF raw_queue_sorted(1) [OF assms(1)] assms(2)] by blast
  have pop: "mm_values k (mm_erase_first (\<lambda>h. h) h (raw_packet_to_notify t)) =
      (if k = h then ds else mm_values k (raw_packet_to_notify t))" for k
    using handle_queue.get_pop [OF raw_queue_sorted(1) [OF assms(1)], of h k] assms(2) by simp
  show ?thesis
    using assms(2,3)
    by (auto simp: notifyRawPacket_def raw_asserted_def Let_def front bt_invoke_def
        alter_connection_def pop)
qed

text \<open>
  The raw packets of a connection go out in the order they were queued. When some are
  waiting, \<open>notifyRawPacket\<close> hands the stack the oldest one, with the connection's handle,
  unless its assertion aborts. It is removed when the stack took it or does not know the
  connection, and stays at the front otherwise; the packets of every other handle keep their
  places.
\<close>

theorem notify_in_order:
  assumes "tracker_ok t" and "mm_values h (raw_packet_to_notify t) = d # ds" and "raw_asserted env h t"
  shows "\<exists>u. notifyRawPacket env h t = Some u \<and>
     (let call = ServerNotify h (packet_characteristic_value_handle
                   (map_at BleConnection_blank h (connections t))) d;
          ret = env_status env (bt_calls t @ [call])
      in (\<exists>later. bt_calls u = bt_calls t @ call # later) \<and>
         mm_values h (raw_packet_to_notify u) = (if raw_done ret then ds else d # ds) \<and>
         (j = h \<or> mm_values j (raw_packet_to_notify u) = mm_values j (raw_packet_to_notify t)))"
  using notify_front [OF assms] .

lemma sample_env_status: "env_status sample_env calls = 0"
  by (simp add: sample_env_def)

text \<open>A link that has been sent to before, with raw packets waiting.\<close>

definition busy_tracker :: "(u16 \<times> bytes) list \<Rightarrow> tracker" where
  "busy_tracker raw = (alter_connection 0x40 (\<lambda>c. setHasData c True) sample_tracker)
     \<lparr>raw_packet_to_notify := raw, notify_registration := 0x40\<rparr>"

lemma busy_tracker_ok:
  assumes "mm_sorted (\<lambda>h. h) raw"
  shows "tracker_ok (busy_tracker raw)"
proof -
  have ok: "tracker_ok (alter_connection 0x40 (\<lambda>c. setHasData c True) sample_tracker)"
    using sample_tracker_ok by (rule simple_op_ok)
  from ok_grows [OF this] show ?thesis
    using ok assms
    by (auto simp: busy_tracker_def tracker_ok_def stores_ok_def grows_def queues_within_def)
qed

lemma busy_tracker_asserted: "raw_asserted env 0x40 (busy_tracker raw)"
  by (simp add: raw_asserted_def busy_tracker_def ASSERT_DEBUG_def alter_connection_def map_alter_def
      map_at_def map_find_put setHasData_def)

lemma busy_tracker_fields [simp]:
  "raw_packet_to_notify (busy_tracker raw) = raw" "notify_registration (busy_tracker raw) = 0x40"
  by (simp_all add: busy_tracker_def)

theorem notify_in_order_witness:
  "\<exists>u. notifyRawPacket sample_env 0x40 (busy_tracker [(0x40, [1]), (0x40, [2])]) = Some u \<and>
       mm_values 0x40 (raw_packet_to_notify u) = [[2]]"
proof -
  let ?t = "busy_tracker [(0x40, [1]), (0x40, [2])]"
  have ok: "tracker_ok ?t" by (rule busy_tracker_ok) (simp add: mm_sorted_def)
  have front: "mm_values 0x40 (raw_packet_to_notify ?t) = [1] # [[2]]" by simp
  show ?thesis
    using notify_in_order [OF ok front busy_tracker_asserted, of sample_env 0]
    by (auto simp: Let_def raw_done_def sample_env_status)
qed

text \<open>
  C40: The guard of \<open>notifyRawPacket\<close> compares with the end of the whole container. So when
  nothing waits for the handle but something waits for a greater one, the function goes on. If
  the link of the handle has been sent to before, or \<open>assert\<close> is not compiled in, it sends the
  first packet of that other connection to this handle and removes it from the other's queue;
  if neither holds, the program aborts.
\<close>

theorem notify_takes_foreign_packet:
  assumes "tracker_ok t" and "mm_values h (raw_packet_to_notify t) = []"
    and "mm_lower_bound (\<lambda>h. h) h (raw_packet_to_notify t) = (j, d) # rest"
    and "\<forall>calls. env_status env calls = 0"
  shows "h < j \<and> mm_values j (raw_packet_to_notify t) \<noteq> [] \<and>
     (case notifyRawPacket env h t of
        None \<Rightarrow> env_asserts env \<and>
          \<not> has_data_to_send (map_at BleConnection_blank h (connections t))
      | Some u \<Rightarrow>
          (\<not> env_asserts env \<or> has_data_to_send (map_at BleConnection_blank h (connections t))) \<and>
          (\<exists>v later. bt_calls u = bt_calls t @ ServerNotify h v d # later) \<and>
          mm_values j (raw_packet_to_notify u) = tl (mm_values j (raw_packet_to_notify t)))"
proof -
  let ?m = "raw_packet_to_notify t"
  obtain pre where pre: "?m = pre @ (j, d) # rest" "mm_erase_first (\<lambda>h. h) h ?m = pre @ rest"
    "\<forall>e \<in> set pre. fst e < h"
  proof -
    have "?m = takeWhile (\<lambda>e. fst e < h) ?m @ (j, d) # rest"
      using assms(3) takeWhile_dropWhile_id [of "\<lambda>e. fst e < h" ?m]
      by (simp add: mm_lower_bound_def)
    moreover have "mm_erase_first (\<lambda>h. h) h ?m = takeWhile (\<lambda>e. fst e < h) ?m @ rest"
      using assms(3) by (simp add: mm_erase_first_def)
    ultimately show ?thesis by (auto intro: that dest: set_takeWhileD)
  qed
  have "\<not> j < h"
    using assms(3) dropWhile_eq_Cons_conv [of "\<lambda>e. fst e < h" ?m] by (simp add: mm_lower_bound_def)
  moreover have "j \<noteq> h" using assms(2) pre(1) by (auto simp: mm_values_def mm_equal_range_def)
  ultimately have less: "h < j" by auto
  then have "mm_values j pre = []"
    using pre(3) by (auto simp: mm_values_def mm_equal_range_def filter_empty_conv)
  then have queue: "mm_values j ?m = d # mm_values j rest" "mm_values j (pre @ rest) = mm_values j rest"
    using pre(1) by simp_all
  show ?thesis
    using less assms(4) queue
    by (auto simp: notifyRawPacket_def ASSERT_DEBUG_def Let_def assms(3) bt_invoke_def
        alter_connection_def pre(2) raw_done_def)
qed

theorem notify_takes_foreign_packet_witness:
  "\<exists>u. env_asserts sample_env \<and>
       notifyRawPacket sample_env 0x40 (busy_tracker [(0x41, [7])]) = Some u \<and>
       mm_values 0x41 (raw_packet_to_notify u) = []"
proof -
  let ?t = "busy_tracker [(0x41, [7])]"
  have ok: "tracker_ok ?t" by (rule busy_tracker_ok) (simp add: mm_sorted_def)
  have none: "mm_values 0x40 (raw_packet_to_notify ?t) = []" by simp
  have front: "mm_lower_bound (\<lambda>h. h) 0x40 (raw_packet_to_notify ?t) = (0x41, [7]) # []"
    by (simp add: mm_lower_bound_def)
  have took: "\<forall>calls. env_status sample_env calls = 0" by (simp add: sample_env_status)
  have "notifyRawPacket sample_env 0x40 ?t \<noteq> None"
    using busy_tracker_asserted [of sample_env] by (simp add: notify_aborts)
  then show ?thesis
    using notify_takes_foreign_packet [OF ok none front took]
    by (auto simp: sample_env_def split: option.splits)
qed

subsection \<open>Announcing\<close>

lemma announce_to_queue:
  assumes "packet_ttl (own_announce t) = 3"
  shows "set (targeted_packets_to_send_list (announce_to env c t)) =
      insert (OwnAnnounceRef, connection_handle c) (set (targeted_packets_to_send_list t))"
    and "packet_ttl (own_announce (announce_to env c t)) = 3"
  using assms
  by (auto simp: announce_to_def enqueueTargetedPacket_def packet_base_def base_of_def
      setPacketTimestamp_def connectionForConnHandle_def alter_connection_def mm_equal_range_def
      list_ex_iff split: option.split)

lemma announce_all_queue:
  "packet_ttl (own_announce t) = 3 \<Longrightarrow>
   set (targeted_packets_to_send_list (fold (announce_to env) cs t)) =
     (\<lambda>c. (OwnAnnounceRef, connection_handle c)) ` set cs \<union> set (targeted_packets_to_send_list t) \<and>
   packet_ttl (own_announce (fold (announce_to env) cs t)) = 3"
  by (induction cs arbitrary: t) (auto simp: announce_to_queue)

lemma setupAnnounce_keeps:
  "packet_ttl (own_announce (setupAnnounceIfNeeded env t)) = 3"
  "connections (setupAnnounceIfNeeded env t) = connections t"
  "packets_connections_sent_list (setupAnnounceIfNeeded env t) = packets_connections_sent_list t"
  "targeted_packets_to_send_list (setupAnnounceIfNeeded env t) = targeted_packets_to_send_list t"
  "timestamp_offset_ms (setupAnnounceIfNeeded env t) = timestamp_offset_ms t"
  by (auto simp: setupAnnounceIfNeeded_def Let_def setName_def setPacketSenderId_def
      setPacketFlags_def setPacketTtl_def)

text \<open>
  C23: Once the node knows the time, \<open>announceToConnections\<close> queues its own announce for
  exactly the connections that can be sent to and have not had it yet, with three hops to
  live, and queues nothing else.
\<close>

theorem announce_queued_for_all:
  assumes "weHaveTheTime t"
  shows "set (targeted_packets_to_send_list (announceToConnections env t)) =
      (\<lambda>c. (OwnAnnounceRef, connection_handle c)) `
        {c. c \<in> snd ` set (connections t) \<and> available c \<and> not_announced_to t c} \<union>
      set (targeted_packets_to_send_list t) \<and>
    packet_ttl (own_announce (announceToConnections env t)) = 3"
proof -
  let ?t1 = "setupAnnounceIfNeeded env t"
  have same: "announce_available ?t1 c = available c" "not_announced_to ?t1 c = not_announced_to t c"
    for c
    using assms
    by (simp_all add: announce_available_def weHaveTheTime_def not_announced_to_def handle_of_def
        connection_at_def setupAnnounce_keeps)
  let ?cs = "filter (\<lambda>c. available c \<and> not_announced_to t c) (map snd (connections t))"
  have cs: "set ?cs = {c. c \<in> snd ` set (connections t) \<and> available c \<and> not_announced_to t c}"
    by auto
  have "announceToConnections env t = fold (announce_to env) ?cs ?t1"
    by (simp only: announceToConnections_def Let_def same setupAnnounce_keeps)
  then show ?thesis
    using announce_all_queue [OF setupAnnounce_keeps(1) [of env t], of env ?cs]
    unfolding cs setupAnnounce_keeps by simp
qed

theorem announce_queued_for_all_witness:
  "(OwnAnnounceRef, 0x40) \<in>
     set (targeted_packets_to_send_list (announceToConnections sample_env sample_tracker))"
proof -
  have time: "weHaveTheTime sample_tracker" by code_simp
  have "available sample_connection" "not_announced_to sample_tracker sample_connection"
    "connection_handle sample_connection = 0x40"
    by code_simp+
  moreover have "sample_connection \<in> snd ` set (connections sample_tracker)"
    by (simp add: sample_tracker_def)
  ultimately show ?thesis
    unfolding conjunct1 [OF announce_queued_for_all [OF time, of sample_env]] by force
qed

subsection \<open>Disconnection\<close>

lemma reportDisconnection_form:
  "\<exists>w. reportDisconnection env h t = w\<lparr>packets_connections_sent_list :=
          erase_if (announced_to_connection w h) (packets_connections_sent_list w),
        targeted_packets_to_send_list :=
          erase_if (announced_to_connection w h) (targeted_packets_to_send_list w)\<rparr> \<and>
      connections w = map_alter BleConnection_blank h
        (\<lambda>c. setConnected (setNotificationEnabled c False) False) (connections t) \<and>
      own_announce w = own_announce t \<and> handle_peer_map w = map_erase h (handle_peer_map t)"
proof -
  have same: "erase_if (\<lambda>_. False) l = l" for l :: "(packet_ref \<times> u64) list"
    by (simp add: erase_if_def)
  have bt: "connections (snd (bt_invoke env call v)) = connections v"
    "own_announce (snd (bt_invoke env call v)) = own_announce v"
    "handle_peer_map (snd (bt_invoke env call v)) = handle_peer_map v" for call v
    by (simp_all add: bt_invoke_def)
  define t2 where "t2 = (alter_connection h
      (\<lambda>c. setConnected (setNotificationEnabled c False) False) t)
        \<lparr>peers := map_touch Peer_blank (ucast h) (peers (alter_connection h
          (\<lambda>c. setConnected (setNotificationEnabled c False) False) t))\<rparr>"
  define t3 where "t3 = (if role (map_at BleConnection_blank h (connections t2)) = HCI_ROLE_MASTER
      then snd (bt_invoke env (StopListening h) t2) else t2)"
  define w where "w = t3\<lparr>handle_peer_map := map_erase h (handle_peer_map t3)\<rparr>"
  have "reportDisconnection env h t = w\<lparr>packets_connections_sent_list :=
          erase_if (announced_to_connection w h) (packets_connections_sent_list w),
        targeted_packets_to_send_list :=
          erase_if (announced_to_connection w h) (targeted_packets_to_send_list w),
        packets_peers_sent_list := packets_peers_sent_list w\<rparr>"
    by (simp only: reportDisconnection_def Let_def same w_def t3_def t2_def)
  moreover have "connections w = map_alter BleConnection_blank h
        (\<lambda>c. setConnected (setNotificationEnabled c False) False) (connections t)"
    "own_announce w = own_announce t" "handle_peer_map w = map_erase h (handle_peer_map t)"
    by (simp_all add: w_def t3_def t2_def bt alter_connection_def)
  ultimately show ?thesis by (intro exI [of _ w]) simp
qed

text \<open>
  When a connection goes down, the node forgets that it announced itself there: the
  connection is no longer connected, it counts as not announced to, no announce of the node
  waits for it and its handle names no peer, so a reconnection is announced to again.
\<close>

theorem disconnection_forgets_announce:
  assumes "connection_at t h = Some c" and "connection_handle c = h"
    and "packet_type (own_announce t) = type_announce"
  shows "let u = reportDisconnection env h t
         in (\<exists>d. connection_at u h = Some d \<and> \<not> connected d \<and> connection_handle d = h \<and>
               not_announced_to u d) \<and>
            (OwnAnnounceRef, h) \<notin> set (targeted_packets_to_send_list u) \<and>
            peerWithConnectionHandle h u = None"
proof -
  let ?u = "reportDisconnection env h t"
  let ?d = "setConnected (setNotificationEnabled c False) False"
  have d: "connection_handle ?d = h" "\<not> connected ?d"
    using assms(2) by (simp_all add: setConnected_def setNotificationEnabled_def)
  from reportDisconnection_form [of env h t] obtain w where
    u: "?u = w\<lparr>packets_connections_sent_list :=
              erase_if (announced_to_connection w h) (packets_connections_sent_list w),
            targeted_packets_to_send_list :=
              erase_if (announced_to_connection w h) (targeted_packets_to_send_list w)\<rparr>"
    and "connections w = map_alter BleConnection_blank h
        (\<lambda>c. setConnected (setNotificationEnabled c False) False) (connections t)"
    and own: "own_announce w = own_announce t"
    and peer: "handle_peer_map w = map_erase h (handle_peer_map t)" by blast
  then have cons: "connections w = map_put h ?d (connections t)" "connections ?u = connections w"
    using assms(1) by (simp_all add: map_alter_def connection_at_def)
  have gone: "\<not> (OwnAnnounceRef, k) \<in> set (erase_if (announced_to_connection w h) l)"
    if "handle_of ?u k = Some h" for k l
    using that assms(3) own cons
    by (auto simp: announced_to_connection_def handle_of_def connection_at_def packet_base_def
        base_of_def split: option.splits)
  have at: "connection_at ?u h = Some ?d" by (simp add: connection_at_def cons)
  have "packets_connections_sent_list ?u =
      erase_if (announced_to_connection w h) (packets_connections_sent_list w)"
    "targeted_packets_to_send_list ?u =
      erase_if (announced_to_connection w h) (targeted_packets_to_send_list w)"
    by (simp_all add: u)
  note queues = this
  have "handle_of ?u (snd e) \<noteq> Some h"
    if "e \<in> set (mm_equal_range OwnAnnounceRef (packets_connections_sent_list ?u))" for e
  proof -
    have "(OwnAnnounceRef, snd e) \<in> set (packets_connections_sent_list ?u)"
      using that by (simp add: mm_equal_range_def) (metis prod.collapse)
    then show ?thesis using gone [of "snd e"] unfolding queues by blast
  qed
  then have "not_announced_to ?u ?d"
    by (auto simp: not_announced_to_def list_ex_iff d(1))
  moreover have "(OwnAnnounceRef, h) \<notin> set (targeted_packets_to_send_list ?u)"
    unfolding queues by (rule gone) (simp add: handle_of_def at d(1))
  moreover have "peerWithConnectionHandle h ?u = None"
    by (simp add: peerWithConnectionHandle_def u peer)
  ultimately show ?thesis using at d by (auto simp: Let_def)
qed

theorem disconnection_forgets_announce_witness:
  "(OwnAnnounceRef, 0x40) \<notin> set (targeted_packets_to_send_list (reportDisconnection sample_env 0x40
     (sample_tracker\<lparr>targeted_packets_to_send_list := [(OwnAnnounceRef, 0x40)]\<rparr>)))"
proof -
  let ?t = "sample_tracker\<lparr>targeted_packets_to_send_list := [(OwnAnnounceRef, 0x40)]\<rparr>"
  have c: "connection_at ?t 0x40 = Some sample_connection"
    by (simp add: connection_at_def sample_tracker_def map_find_def)
  have h: "connection_handle sample_connection = 0x40" by code_simp
  have ty: "packet_type (own_announce ?t) = type_announce" by code_simp
  show ?thesis
    using disconnection_forgets_announce [OF c h ty, of sample_env] by (simp add: Let_def)
qed

subsection \<open>Two connections to one peer\<close>

lemma duplicate_scan_zero:
  "0 \<notin> fst ` set m \<Longrightarrow> \<forall>p h. map_find p seen = Some h \<longrightarrow> h \<noteq> 0 \<Longrightarrow>
   fst (duplicate_scan m seen t) = 0 \<longleftrightarrow>
     distinct (map snd m) \<and> (\<forall>p \<in> snd ` set m. map_find p seen = None)"
proof (induction m seen t rule: duplicate_scan.induct)
  case (2 h p rest seen t)
  show ?case
  proof (cases "map_find p seen")
    case None
    then have "map_at 0 p seen = 0" by (simp add: map_at_def)
    moreover have "fst (duplicate_scan rest (map_put p h seen) t) = 0 \<longleftrightarrow>
        distinct (map snd rest) \<and> (\<forall>q \<in> snd ` set rest. map_find q (map_put p h seen) = None)"
      using "2.IH" [OF refl] \<open>map_at 0 p seen = 0\<close> "2.prems" by auto
    ultimately show ?thesis using None by force
  next
    case (Some other)
    then show ?thesis using "2.prems" by (auto simp: Let_def)
  qed
qed simp

lemma duplicate_scan_found:
  "distinct (map fst m) \<Longrightarrow> (\<And>p h. map_find p seen = Some h \<Longrightarrow> h \<notin> fst ` set m) \<Longrightarrow>
   fst (duplicate_scan m seen t) \<noteq> 0 \<Longrightarrow>
   \<exists>p h. h \<noteq> fst (duplicate_scan m seen t) \<and>
     {(h, p), (fst (duplicate_scan m seen t), p)} \<subseteq> set m \<union> {(h, p). map_find p seen = Some h}"
proof (induction m seen t rule: duplicate_scan.induct)
  case (2 h p rest seen t)
  show ?case
  proof (cases "map_at 0 p seen = 0")
    case True
    have zero: "\<not> map_at 0 p seen \<noteq> 0" and keys: "distinct (map fst rest)"
      using True "2.prems"(1) by simp_all
    have fresh: "k \<notin> fst ` set rest" if "map_find q (map_put p h seen) = Some k" for q k
      using that "2.prems"(1) "2.prems"(2) [of q k] by (auto split: if_splits)
    have "fst (duplicate_scan rest (map_put p h seen) t) \<noteq> 0" using "2.prems"(3) True by simp
    from "2.IH" [OF refl zero keys fresh this]
    have "\<exists>q k. k \<noteq> fst (duplicate_scan rest (map_put p h seen) t) \<and>
        {(k, q), (fst (duplicate_scan rest (map_put p h seen) t), q)} \<subseteq>
          set rest \<union> {(k, q). map_find q (map_put p h seen) = Some k}" .
    moreover have "set rest \<union> {(k, q). map_find q (map_put p h seen) = Some k} \<subseteq>
        set ((h, p) # rest) \<union> {(k, q). map_find q seen = Some k}"
      by (auto split: if_splits)
    moreover have eq: "duplicate_scan ((h, p) # rest) seen t =
        duplicate_scan rest (map_put p h seen) t"
      using True by simp
    ultimately show ?thesis unfolding eq by (meson subset_trans)
  next
    case False
    then obtain other where other: "map_find p seen = Some other" "map_at 0 p seen = other" "other \<noteq> 0"
      by (auto simp: map_at_def split: option.splits)
    then have "other \<noteq> h" using "2.prems"(2) [OF other(1)] by auto
    then show ?thesis using other by (auto simp: Let_def)
  qed
qed simp

text \<open>
  \<open>getAnyDuplicateHandle\<close> returns 0 exactly when no peer is reached over two handles;
  otherwise it returns one of two different handles of one peer, so the other one remains.
  (0 is not a handle of a connection with a peer.)
\<close>

theorem duplicate_handle_found:
  assumes "tracker_ok t" and "0 \<notin> fst ` set (handle_peer_map t)"
  shows "let h = fst (getAnyDuplicateHandle t)
         in if h = 0 then distinct (map snd (handle_peer_map t))
            else \<exists>p k. k \<noteq> h \<and> peerWithConnectionHandle h t = Some p \<and>
                       peerWithConnectionHandle k t = Some p"
proof -
  have sorted: "map_sorted (handle_peer_map t)"
    using assms(1) by (simp add: tracker_ok_def stores_ok_def)
  then have keys: "distinct (map fst (handle_peer_map t))" by (rule map_sorted_distinct)
  show ?thesis
    using duplicate_scan_zero [OF assms(2), of "[]" t] duplicate_scan_found [OF keys, of "[]" t]
    by (simp add: getAnyDuplicateHandle_def Let_def peerWithConnectionHandle_def
        map_find_Some_iff [OF sorted]) blast
qed

theorem duplicate_handle_found_witness:
  "let t = sample_tracker\<lparr>peers := [(7, Peer_blank)], handle_peer_map := [(1, 7), (2, 7)]\<rparr>
   in \<exists>p k. k \<noteq> fst (getAnyDuplicateHandle t) \<and> peerWithConnectionHandle k t = Some p"
proof -
  let ?t = "sample_tracker\<lparr>peers := [(7, Peer_blank)], handle_peer_map := [(1, 7), (2, 7)]\<rparr>"
  have ok: "tracker_ok ?t"
    by (simp add: tracker_ok_def stores_ok_def refs_ok_def sample_tracker_def Tracker_init_def
        map_sorted_def mm_sorted_def live_packet_def packet_base_def live_connection_def
        connection_at_def live_peer_def map_find_def sample_message_valid)
      code_simp
  have none: "0 \<notin> fst ` set (handle_peer_map ?t)" by simp
  have "fst (getAnyDuplicateHandle ?t) \<noteq> 0" by code_simp
  then show ?thesis
    using duplicate_handle_found [OF ok none] by (auto simp: Let_def)
qed

end
