(* ===== verification/Device_Properties.thy ===== *)
theory Device_Properties
  imports Device_Ownership Send_Properties
begin

section \<open>Properties of the device\<close>

subsection \<open>Pointers\<close>

lemma tracker_ok_pointers:
  assumes "tracker_ok t"
  shows "list_all (\<lambda>(p, h). packet_base t p \<noteq> None \<and> connection_at t h \<noteq> None)
      (packets_connections_sent_list t @ targeted_packets_to_send_list t)"
    and "list_all (\<lambda>(p, i). packet_base t p \<noteq> None \<and> peerWithId i t \<noteq> None)
      (packets_peers_sent_list t)"
    and "list_all (\<lambda>p. packet_base t p \<noteq> None) (broadcast_packets_to_send_list t)"
    and "list_all (\<lambda>(h, i). peerWithId i t \<noteq> None) (handle_peer_map t)"
    and "distinct (packets_connections_sent_list t)" "distinct (targeted_packets_to_send_list t)"
    and "list_all (\<lambda>(i, m). message_id m = i \<and> \<not> malformed m) (messages t)"
  using assms
  by (auto simp: tracker_ok_def refs_ok_def stores_ok_def list_all_iff live_packet_def
      live_connection_def live_peer_def peerWithId_def)

text \<open>
  C8: In every state the device can reach, by any sequence of callbacks, interrupts and main
  loop actions, every packet, connection and peer that a queue or a map points to is there,
  so the code never follows a dangling pointer; no packet is recorded twice as sent to one
  connection, none is queued twice for one connection, and the stored messages are
  well-formed and filed under their own ids.
\<close>

theorem no_dangling_pointers:
  assumes "device_reachable d"
  shows "let t = connection_tracker d
    in list_all (\<lambda>(p, h). packet_base t p \<noteq> None \<and> connection_at t h \<noteq> None)
         (packets_connections_sent_list t @ targeted_packets_to_send_list t) \<and>
       list_all (\<lambda>(p, i). packet_base t p \<noteq> None \<and> peerWithId i t \<noteq> None)
         (packets_peers_sent_list t) \<and>
       list_all (\<lambda>p. packet_base t p \<noteq> None) (broadcast_packets_to_send_list t) \<and>
       list_all (\<lambda>(h, i). peerWithId i t \<noteq> None) (handle_peer_map t) \<and>
       distinct (packets_connections_sent_list t) \<and> distinct (targeted_packets_to_send_list t) \<and>
       list_all (\<lambda>(i, m). message_id m = i \<and> \<not> malformed m) (messages t)"
  unfolding Let_def by (intro conjI tracker_ok_pointers reachable_ok [OF assms])

text \<open>A node that is told a message and a time, connects, and sends.\<close>

definition sample_device :: device where
  "sample_device = on_tracker (\<lambda>t. snd (sendPackets sample_env t))
     (hci_packet_handler sample_env (LeConnectionComplete 0x40 [1, 2, 3, 4, 5, 6] 0 HCI_ROLE_SLAVE)
       (the (handle_gatt_client_value_update_event sample_env
         (Notification 0x41 sample_packet (of_nat (length sample_packet))) Device_init)))"

lemma sample_arrival:
  "\<exists>d. handle_gatt_client_value_update_event sample_env
        (Notification 0x41 sample_packet (of_nat (length sample_packet))) Device_init = Some d"
proof -
  let ?t = "snd (connectionForConnHandle 0x41 (connection_tracker (bump_activity Device_init)))"
  have "\<exists>t. processWrite sample_env con 0 sample_packet (of_nat (length sample_packet)) ?t = Some t"
    for con
    using processWrite_message [OF sample_message_valid(1-3) disjI1 [OF sample_message_valid(4)]
        disjI1 [OF sample_message_valid(5)] sample_message_valid(6) sample_message_written,
        of sample_env con ?t]
    by (simp add: Let_def split_def)
  then show ?thesis
    by (simp add: handle_gatt_client_value_update_event_def Let_def split_def)
qed

lemma sample_device_reachable: "device_reachable sample_device"
proof -
  obtain d where d: "handle_gatt_client_value_update_event sample_env
      (Notification 0x41 sample_packet (of_nat (length sample_packet))) Device_init = Some d"
    using sample_arrival by blast
  have "device_reachable d"
    by (rule device_reachable.step [OF device_reachable.init device_step.value_update [OF d]])
  then show ?thesis
    unfolding sample_device_def d option.sel
    by (intro device_reachable.step [OF device_reachable.step, OF _ device_step.hci device_step.send])
qed

theorem no_dangling_pointers_witness:
  "distinct (packets_connections_sent_list (connection_tracker sample_device)) \<and>
   list_all (\<lambda>p. packet_base (connection_tracker sample_device) p \<noteq> None)
     (broadcast_packets_to_send_list (connection_tracker sample_device))"
  using no_dangling_pointers [OF sample_device_reachable] by (simp add: Let_def)

subsection \<open>The main loop\<close>

lemma steps_reach: "rtranclp device_step d u \<Longrightarrow> device_reachable d \<Longrightarrow> device_reachable u"
  by (induction rule: rtranclp_induct) (auto intro: device_reachable.step)

text \<open>
  From power-up on, with whatever is in flash, the program as \<open>main\<close> runs it stays in the
  states above, provided that polling the stack and interrupts do nothing but run the
  callbacks: after any number of rounds of the loop no pointer dangles, and every broadcast
  and targeted packet that waits is there to be sent.
\<close>

theorem main_loop_is_safe:
  assumes "boot_preferences env fl sector Tracker_init = Some t"
    and "main_loop inputs (main_init now (Device_init\<lparr>connection_tracker := t\<rparr>)) = Some s"
    and "\<And>env poll clock err d u. (env, poll, clock, err) \<in> set inputs \<Longrightarrow> poll d = Some u \<Longrightarrow>
           rtranclp device_step d u"
  shows "device_reachable (dev s) \<and>
    list_all (\<lambda>(p, h). packet_base (connection_tracker (dev s)) p \<noteq> None \<and>
        connection_at (connection_tracker (dev s)) h \<noteq> None)
      (packets_connections_sent_list (connection_tracker (dev s)) @
       targeted_packets_to_send_list (connection_tracker (dev s))) \<and>
    list_all (\<lambda>p. packet_base (connection_tracker (dev s)) p \<noteq> None)
      (broadcast_packets_to_send_list (connection_tracker (dev s)))"
proof -
  have "boot_preferences env fl sector (connection_tracker Device_init) = Some t"
    using assms(1) by (simp add: Device_init_def)
  from device_reachable.step [OF device_reachable.init device_step.boot [OF this]]
  have "device_reachable (dev (main_init now (Device_init\<lparr>connection_tracker := t\<rparr>)))"
    by (simp add: main_init_def)
  from main_loop_reach [OF assms(2) this] have r: "device_reachable (dev s)"
    using assms(3) steps_reach by blast
  then show ?thesis by (intro conjI tracker_ok_pointers reachable_ok)
qed

theorem main_loop_is_safe_witness:
  "\<exists>s. main_loop [(sample_env, Some, \<lambda>_. 5000000, 0)]
         (main_init 0 (Device_init\<lparr>connection_tracker := Tracker_init\<rparr>)) = Some s \<and>
       device_reachable (dev s)"
proof -
  let ?fl = "\<lparr>flash_page_size = 2, flash_sector_size = 2, memory_behind = [],
      erase_ok = True, program_ok = True\<rparr>"
  have boot: "boot_preferences sample_env ?fl [0xFF, 0xFF] Tracker_init = Some Tracker_init" by code_simp
  let ?inputs = "[(sample_env, Some :: device \<Rightarrow> device option, \<lambda>_ :: clock_point. 5000000, 0)]"
  have "\<exists>s. main_loop ?inputs (main_init 0 (Device_init\<lparr>connection_tracker := Tracker_init\<rparr>)) = Some s"
    by (simp add: main_iteration_def Let_def split_def main_init_def Device_init_def
        split: option.split)
  then obtain s where s: "main_loop ?inputs
      (main_init 0 (Device_init\<lparr>connection_tracker := Tracker_init\<rparr>)) = Some s" by blast
  have "device_reachable (dev s)"
    by (rule conjunct1 [OF main_loop_is_safe [OF boot s]]) auto
  with s show ?thesis by blast
qed

subsection \<open>Alerts\<close>

lemma event_message_simps [simp]:
  "malformed (event_message env b s l t) = False"
  "packet_version (event_message env b s l t) = 1"
  "packet_type (event_message env b s l t) = type_message"
  "packet_ttl (event_message env b s l t) = 3"
  "packet_flags (event_message env b s l t) = 0"
  "payload_length (event_message env b s l t) = 0"
  "packet_sender_id (event_message env b s l t) = env_board_id env"
  "packet_timestamp_ms (event_message env b s l t) = whole_minute (getTimeMs env t)"
  "content (event_message env b s l t) = event_content b s l"
  "channel (event_message env b s l t) = ascii ''#smoke''"
  "message_id (event_message env b s l t) =
     write_uint64 [] (whole_minute (getTimeMs env t)) @ [event_marker b s l] @
     write_uint64 [] (env_board_id env)"
  by (simp_all add: event_message_def Let_def setContent_def setMessageId_def setChannel_def
      setSenderNickname_def Message_setLatitudeI_def Message_setLongitudeI_def
      Message_setAltitude_def Message_init5_def Base_init6_def Base_init4_def Base_init_def Message_blank_def
      setPayloadLength_def write_uint8_def write_uint64_append [of "_ @ _"])

lemma event_content_cases:
  "event_content b s l =
     (if b then ascii ''Booted'' else []) @ (if b \<and> (l \<or> s) then ascii ''+'' else []) @
     (if l then ascii ''Still alive'' else []) @ (if s \<and> l then ascii ''+'' else []) @
     (if s then ascii ''Smoke seen'' else [])"
  by (simp add: event_content_def Let_def write_data_take write_uint8_def ascii_def)

lemma event_content_bounds:
  "length (event_content b s l) \<le> 29" "b \<or> s \<or> l \<Longrightarrow> event_content b s l \<noteq> []"
  by (auto simp: event_content_cases ascii_def)

lemma event_marker_smoke: "\<not> b \<Longrightarrow> event_marker b True l = event_marker False True False"
  by (simp add: event_marker_def)

lemma flags_cleared:
  "(let d1 = (if fresh_boot d then d\<lparr>fresh_boot := False\<rparr> else d);
        d2 = (if life_check d then d1\<lparr>life_check := False\<rparr> else d1)
    in if smoke_seen d then d2\<lparr>smoke_seen := False\<rparr> else d2) =
   d\<lparr>fresh_boot := False, life_check := False, smoke_seen := False\<rparr>"
  by (cases d) (simp add: Let_def)

lemma generate_form:
  assumes "weHaveTheTime (connection_tracker d)" and "fresh_boot d \<or> smoke_seen d \<or> life_check d"
  shows "generateMessageIfNeeded env d =
    (let d3 = d\<lparr>fresh_boot := False, life_check := False, smoke_seen := False\<rparr>;
         (stored, t1) = storeMessageAndReturnIfNew (event_message env (fresh_boot d) (smoke_seen d)
           (life_check d) (connection_tracker d)) (connection_tracker d)
     in case stored of
          None \<Rightarrow> d3\<lparr>connection_tracker := t1\<rparr>
        | Some p \<Rightarrow> (bump_activity (d3\<lparr>connection_tracker := enqueueBroadcastPacket p t1\<rparr>))
                      \<lparr>fresh_boot := False\<rparr>)"
  unfolding flags_cleared [symmetric] using assms
  by (simp only: generateMessageIfNeeded_def Let_def simp_thms if_True)

text \<open>
  C7: A smoke alarm is turned into an alert. When the node knows the time and an event is
  pending whose message it has not stored, \<open>generateMessageIfNeeded\<close> stores the message and
  puts it at the end of the broadcast queue once, all flags are cleared, and the text says
  that smoke was seen exactly when the smoke pin fell.
\<close>

theorem alert_generated:
  assumes "weHaveTheTime (connection_tracker d)" and "fresh_boot d \<or> smoke_seen d \<or> life_check d"
    and "map_find (message_id m) (messages (connection_tracker d)) = None"
    and "m = event_message env (fresh_boot d) (smoke_seen d) (life_check d) (connection_tracker d)"
  shows "let u = generateMessageIfNeeded env d; t = connection_tracker u
    in map_find (message_id m) (messages t) = Some m \<and>
       broadcast_packets_to_send_list t =
         broadcast_packets_to_send_list (connection_tracker d) @ [MessageRef (message_id m)] \<and>
       \<not> fresh_boot u \<and> \<not> smoke_seen u \<and> \<not> life_check u \<and>
       (smoke_seen d = (\<exists>before. content m = before @ ascii ''Smoke seen''))"
proof -
  have ok: "\<not> malformed m" "packet_ttl m = 3" by (simp_all add: assms(4))
  have smoke: "smoke_seen d = (\<exists>before. content m = before @ ascii ''Smoke seen'')"
  proof
    assume "smoke_seen d"
    then show "\<exists>before. content m = before @ ascii ''Smoke seen''"
      by (simp add: assms(4) event_content_cases)
  next
    assume "\<exists>before. content m = before @ ascii ''Smoke seen''"
    then have "last (content m) = last (ascii ''Smoke seen'')" by (auto simp: ascii_def)
    then show "smoke_seen d"
      using assms(2) by (auto simp: assms(4) event_content_cases ascii_def split: if_splits)
  qed
  have "storeMessageAndReturnIfNew m (connection_tracker d) = (Some (MessageRef (message_id m)),
      (connection_tracker d)\<lparr>messages := map_put (message_id m) m (messages (connection_tracker d))\<rparr>)"
    using assms(3) ok(1) by (simp add: storeMessageAndReturnIfNew_def)
  note gen = generate_form [OF assms(1,2), of env, folded assms(4), unfolded this Let_def prod.case
      option.case]
  show ?thesis
    using ok(2) smoke
    by (simp add: gen Let_def enqueueBroadcastPacket_def packet_base_def base_of_def bump_activity_def)
qed

definition sample_alarm :: device where
  "sample_alarm = Device_init\<lparr>fresh_boot := False, smoke_seen := True,
     connection_tracker := Tracker_init\<lparr>timestamp_offset_ms := 1781273466000\<rparr>\<rparr>"

lemma sample_alarm_state:
  "weHaveTheTime (connection_tracker sample_alarm)" "smoke_seen sample_alarm"
  "\<not> fresh_boot sample_alarm" "\<not> life_check sample_alarm"
  "messages (connection_tracker sample_alarm) = []"
  by code_simp+

theorem alert_generated_witness:
  "broadcast_packets_to_send_list (connection_tracker (generateMessageIfNeeded sample_env sample_alarm)) \<noteq> []"
proof -
  let ?m = "event_message sample_env (fresh_boot sample_alarm) (smoke_seen sample_alarm)
      (life_check sample_alarm) (connection_tracker sample_alarm)"
  have flags: "fresh_boot sample_alarm \<or> smoke_seen sample_alarm \<or> life_check sample_alarm"
    using sample_alarm_state(2) by simp
  have new: "map_find (message_id ?m) (messages (connection_tracker sample_alarm)) = None"
    by (simp add: sample_alarm_state(5))
  show ?thesis
    using alert_generated [OF sample_alarm_state(1) flags new refl] by (auto simp: Let_def)
qed

lemma store_known:
  assumes "\<not> malformed m"
  shows "map_find (message_id m) (messages (snd (storeMessageAndReturnIfNew m t))) \<noteq> None"
    and "timestamp_offset_ms (snd (storeMessageAndReturnIfNew m t)) = timestamp_offset_ms t"
  using assms by (auto simp: storeMessageAndReturnIfNew_def split: option.split)

lemma enqueueBroadcast_keeps [simp]:
  "messages (enqueueBroadcastPacket p t) = messages t"
  "timestamp_offset_ms (enqueueBroadcastPacket p t) = timestamp_offset_ms t"
  by (simp_all add: enqueueBroadcastPacket_def split: option.split)

text \<open>
  C35: A second smoke alarm in the same minute is lost. Its message has the id of the first
  one (the time is cut to the minute), so it is not new: nothing is stored or queued, but the
  flag is cleared as if it had been reported.
\<close>

theorem same_minute_event_lost:
  assumes "weHaveTheTime (connection_tracker d)" and "smoke_seen d" and "\<not> fresh_boot d"
    and "env_board_id env2 = env_board_id env"
    and "whole_minute (getTimeMs env2 (connection_tracker d)) =
         whole_minute (getTimeMs env (connection_tracker d))"
    and "events AND edge_fall \<noteq> 0"
  shows "let u = generateMessageIfNeeded env d;
             v = generateMessageIfNeeded env2 (gpio_callback edge_fall SMOKE_SEEN_PIN events u)
         in connection_tracker v = connection_tracker u \<and> \<not> smoke_seen v"
proof -
  let ?t = "connection_tracker d"
  define m where "m = event_message env (fresh_boot d) (smoke_seen d) (life_check d) ?t"
  define u where "u = generateMessageIfNeeded env d"
  define w where "w = gpio_callback edge_fall SMOKE_SEEN_PIN events u"
  obtain stored t1 where st: "storeMessageAndReturnIfNew m ?t = (stored, t1)"
    by (cases "storeMessageAndReturnIfNew m ?t")
  have "\<not> malformed m" by (simp add: m_def)
  from store_known [OF this, of ?t]
  have t1: "map_find (message_id m) (messages t1) \<noteq> None"
    "timestamp_offset_ms t1 = timestamp_offset_ms ?t"
    by (simp_all add: st)
  have "fresh_boot d \<or> smoke_seen d \<or> life_check d" using assms(2) by simp
  note gen = generate_form [OF assms(1) this, of env, folded m_def u_def, unfolded st Let_def prod.case]
  have u: "map_find (message_id m) (messages (connection_tracker u)) \<noteq> None"
    "timestamp_offset_ms (connection_tracker u) = timestamp_offset_ms ?t" "\<not> fresh_boot u"
    using t1 by (simp_all add: gen bump_activity_def split: option.split)
  have w: "connection_tracker w = connection_tracker u" "smoke_seen w" "\<not> fresh_boot w"
    using assms(6) u(3) by (simp_all add: w_def gpio_callback_def Let_def bump_activity_def)
  have time: "weHaveTheTime (connection_tracker w)" "getTimeMs env2 (connection_tracker w) = getTimeMs env2 ?t"
    using assms(1) u(2) w(1) by (simp_all add: weHaveTheTime_def getTimeMs_def)
  define m2 where "m2 = event_message env2 (fresh_boot w) (smoke_seen w) (life_check w) (connection_tracker w)"
  have "message_id m2 = message_id m"
    using assms(2-5) w time(2) event_marker_smoke [of False "life_check d"]
      event_marker_smoke [of False "life_check w"]
    by (simp add: m_def m2_def)
  then have "storeMessageAndReturnIfNew m2 (connection_tracker w) = (None, connection_tracker w)"
    using u(1) w(1) by (auto simp: storeMessageAndReturnIfNew_def)
  moreover have "fresh_boot w \<or> smoke_seen w \<or> life_check w" using w(2) by simp
  ultimately have "generateMessageIfNeeded env2 w =
      w\<lparr>fresh_boot := False, life_check := False, smoke_seen := False\<rparr>"
    using generate_form [OF time(1), of env2, folded m2_def] by (simp add: Let_def)
  then show ?thesis using w(1) by (simp add: Let_def u_def [symmetric] w_def [symmetric])
qed

theorem same_minute_event_lost_witness:
  "connection_tracker (generateMessageIfNeeded (sample_env\<lparr>env_time_us := 6000000\<rparr>)
      (gpio_callback 4 SMOKE_SEEN_PIN 4 (generateMessageIfNeeded sample_env sample_alarm))) =
   connection_tracker (generateMessageIfNeeded sample_env sample_alarm)"
proof -
  have "whole_minute (getTimeMs (sample_env\<lparr>env_time_us := 6000000\<rparr>) (connection_tracker sample_alarm)) =
      whole_minute (getTimeMs sample_env (connection_tracker sample_alarm))" by code_simp
  moreover have "(4 :: u32) AND 4 \<noteq> 0" by simp
  ultimately show ?thesis
    using same_minute_event_lost [OF sample_alarm_state(1-3),
        of "sample_env\<lparr>env_time_us := 6000000\<rparr>" sample_env 4 4]
    by (simp add: Let_def)
qed

lemma written_message_fields:
  "content (snd (Message_writePacket m)) = content m"
  "channel (snd (Message_writePacket m)) = channel m"
  "packet_sender_id (snd (Message_writePacket m)) = packet_sender_id m"
  "msg_latitude_i (snd (Message_writePacket m)) = msg_latitude_i m"
  "msg_longitude_i (snd (Message_writePacket m)) = msg_longitude_i m"
  "msg_altitude (snd (Message_writePacket m)) = msg_altitude m"
  by (simp_all add: Message_writePacket_def writePacket_def Let_def Message_getPayloadLength_def
      setPayloadLength_def split: prod.split)

lemma event_location:
  "msg_latitude_i (event_message env b s l t) = latitude_i (prefs t)"
  "msg_longitude_i (event_message env b s l t) = longitude_i (prefs t)"
  "msg_altitude (event_message env b s l t) = altitude (prefs t)"
  by (simp_all add: event_message_def Let_def setContent_def setMessageId_def setChannel_def
      setSenderNickname_def Message_setLatitudeI_def Message_setLongitudeI_def
      Message_setAltitude_def)

text \<open>
  An alert reaches the next node. The packet one board writes for an event, received by
  any other node that has not seen it, is stored there under its id with the sender, the
  text, the channel and the location of the board that raised it, and is queued there with
  two hops left to travel on.
\<close>

theorem alert_reaches_neighbour:
  assumes "boot \<or> smoke \<or> life" and "m = event_message env boot smoke life t"
    and "map_find (message_id m) (messages t') = None"
  shows "\<exists>u r. processWrite env' con 0 (fst (Message_writePacket m))
        (of_nat (length (fst (Message_writePacket m)))) t' = Some u \<and>
     map_find (message_id m) (messages u) = Some r \<and>
     content r = event_content boot smoke life \<and> channel r = ascii ''#smoke'' \<and>
     packet_sender_id r = env_board_id env \<and> packet_ttl r = 2 \<and>
     msg_latitude_i r = latitude_i (prefs t) \<and> msg_longitude_i r = longitude_i (prefs t) \<and>
     msg_altitude r = altitude (prefs t) \<and>
     broadcast_packets_to_send_list u =
       broadcast_packets_to_send_list t' @ [MessageRef (message_id m)]"
proof -
  obtain packet m' where w: "Message_writePacket m = (packet, m')" by (cases "Message_writePacket m")
  then have m': "m' = snd (Message_writePacket m)" by simp
  have id: "take 255 (message_id m) = message_id m" by (simp add: assms(2))
  have valid: "packet_version m = 1" "packet_type m = type_message" "\<not> hasSignature m"
    "payload_length m = 0" "content m \<noteq> []"
    using event_content_bounds(2) [OF assms(1)] by (simp_all add: assms(2) hasSignature_def)
  have payload: "Message_writePacketPayload [] m \<noteq> []"
  proof -
    have "message_entries m \<noteq> []" by (simp add: message_entries_def assms(2))
    then show ?thesis by (simp only: Message_payload_entries append_Nil tlvs_bytes_Nil_iff simp_thms)
  qed
  have new: "map_find (take 255 (message_id m)) (messages t') = None"
    using assms(3) id by simp
  have ttl: "packet_ttl m = 3" "packet_ttl m > 1" by (simp_all add: assms(2))
  have short: "take 255 (content m) = content m" "take 255 (channel m) = channel m"
    using event_content_bounds(1) [of boot smoke life] by (simp_all add: assms(2))
  from message_travels_lemma [OF valid(1-3) disjI1 [OF valid(4)] disjI2 [OF valid(5)] payload w new,
      of env' con] obtain u where u: "processWrite env' con 0 packet (of_nat (length packet)) t' = Some u"
    "map_find (message_id m) (messages u) = Some ((message_on_wire m')\<lparr>sending_connection_handle :=
       connection_handle con, packet_ttl := 2\<rparr>)"
    "broadcast_packets_to_send_list u =
       broadcast_packets_to_send_list t' @ [MessageRef (message_id m)]"
    using ttl by (auto simp: id)
  show ?thesis
    by (intro exI conjI, use u(1) in \<open>simp add: w\<close>, rule u(2))
      (use u(3) short in \<open>simp_all add: message_on_wire_def m' written_message_fields\<close>,
       simp_all add: assms(2) event_location)
qed

theorem alert_reaches_neighbour_witness:
  "\<exists>u. processWrite sample_env sample_connection 0
        (fst (Message_writePacket (event_message sample_env False True False Tracker_init)))
        (of_nat (length (fst (Message_writePacket
           (event_message sample_env False True False Tracker_init))))) Tracker_init = Some u \<and>
     broadcast_packets_to_send_list u \<noteq> []"
proof -
  let ?m = "event_message sample_env False True False Tracker_init"
  have some: "False \<or> True \<or> False" by simp
  have new: "map_find (message_id ?m) (messages Tracker_init) = None"
    by (simp add: Tracker_init_def)
  from alert_reaches_neighbour [OF some refl new, of sample_env sample_connection]
  show ?thesis by auto
qed

subsection \<open>Preferences in flash\<close>

text \<open>
  C16: Preferences survive a restart. What \<open>savePreferencesToFlash\<close> leaves in the sector is
  what the node starts with after the next boot: preferences equal to the ones saved, if they
  are addressed to this board and fit a flash page, whatever lies in memory behind the packet
  (which is programmed too) and whatever the sector held before.
\<close>

theorem preferences_survive_restart:
  assumes "packet_version p = 1" and "packet_type p = type_micro_mesh_preferences"
    and "\<not> hasSignature p"
    and "payload_length p = 0 \<or>
         payload_length p = of_nat (length (Preferences_writePacketPayload [] p))"
    and "Preferences_writePacketPayload [] p \<noteq> []"
    and "hasPacketRecipient p" and "packet_recipient_id p = env_board_id env"
    and "length (key p) \<le> 255" and "length (ssid p) \<le> 255" and "length (password p) \<le> 255"
    and "length (fst (Preferences_writePacket p)) < flash_page_size fl"
    and "flash_page_size fl \<le> flash_sector_size fl" and "flash_sector_size fl < 65536"
    and "flash_page_size fl \<le> length (memory_behind fl)" and "erase_ok fl" and "program_ok fl"
  shows "\<exists>t. boot_preferences env fl (snd (savePreferencesToFlash fl p sector)) Tracker_init = Some t \<and>
             preferences_eq (prefs t) p"
proof -
  obtain packet p' where w: "Preferences_writePacket p = (packet, p')"
    by (cases "Preferences_writePacket p")
  then have p': "p' = snd (Preferences_writePacket p)" by simp
  let ?behind = "take (flash_page_size fl - length packet) (memory_behind fl) @
      replicate (flash_sector_size fl - flash_page_size fl) 0xFF"
  have len: "length packet < flash_page_size fl" using assms(11) w by simp
  have sector: "snd (savePreferencesToFlash fl p sector) = packet @ ?behind"
    using len assms(15,16)
    by (simp add: savePreferencesToFlash_def w call_flash_page_program_def
        call_flash_sector_erase_def)
  have size: "flash_sector_size fl \<le> length (packet @ ?behind)"
    using len assms(12,14) by simp
  from preferences_written_is_read [OF assms(1-5) w _ size assms(13)] len assms(12) obtain r1 r2 r3
    where "read_uint8 (packet_reader packet ?behind (flash_sector_size fl)) = (1, r1)"
      "read_uint8 r1 = (type_micro_mesh_preferences, r2)"
      "Preferences_read 1 r2 = Some (preferences_on_wire p', r3)" by auto
  then have boot: "boot_preferences env fl (snd (savePreferencesToFlash fl p sector)) Tracker_init =
      Some (updatePreferences env (preferences_on_wire p') False Tracker_init)"
    by (simp add: boot_preferences_def Let_def sector packet_reader_def)
  have same: "key p' = key p" "ssid p' = ssid p" "password p' = password p"
    by (simp_all add: p' Preferences_writePacket_def writePacket_def Let_def
        Preferences_getPayloadLength_def setPayloadLength_def split: prod.split)
  then have "preferences_eq (preferences_on_wire p') p'"
    using assms(8-10) by (intro preferences_eq_on_wire) simp_all
  then have "preferences_eq (preferences_on_wire p') p"
    using preferences_eq_written(1) [of p p] by (simp add: p' preferences_eq_def)
  moreover have "key (prefs Tracker_init) = []" by code_simp
  ultimately show ?thesis
    using assms(6,7)
    by (simp add: boot) (simp add: updatePreferences_def getMySenderId_def Let_def p')
qed

theorem preferences_survive_restart_witness:
  "let fl = \<lparr>flash_page_size = 256, flash_sector_size = 4096, memory_behind = replicate 256 7,
              erase_ok = True, program_ok = True\<rparr>
   in \<exists>t. boot_preferences sample_env fl (snd (savePreferencesToFlash fl sample_preferences []))
            Tracker_init = Some t \<and> preferences_eq (prefs t) sample_preferences"
proof -
  let ?fl = "\<lparr>flash_page_size = 256, flash_sector_size = 4096, memory_behind = replicate 256 7,
              erase_ok = True, program_ok = True\<rparr>"
  have short: "length (key sample_preferences) \<le> 255" "length (ssid sample_preferences) \<le> 255"
    "length (password sample_preferences) \<le> 255"
    by code_simp+
  have page: "length (fst (Preferences_writePacket sample_preferences)) < flash_page_size ?fl"
  proof -
    have "length (fst (Preferences_writePacket sample_preferences)) < 100" by code_simp
    then show ?thesis by simp
  qed
  have sizes: "flash_page_size ?fl \<le> flash_sector_size ?fl" "flash_sector_size ?fl < 65536"
    "flash_page_size ?fl \<le> length (memory_behind ?fl)" "erase_ok ?fl" "program_ok ?fl"
    by simp_all
  from preferences_survive_restart [OF sample_preferences_valid(1-3)
      disjI1 [OF sample_preferences_valid(4)] sample_preferences_valid(5-7) short page sizes, of "[]"]
  show ?thesis unfolding Let_def .
qed

subsection \<open>Advertising, connecting and timers\<close>

text \<open>
  The advertisement fills its 31 bytes exactly and the scan response stays within them,
  and in both the fields' length bytes lead from one field to the next and to the end: the
  advertisement says flags, the service and as much of the name as fits, the scan response
  carries all eight bytes of the sender id.
\<close>

theorem advertisements_fit:
  "let (adv, response) = populate_advertising_data ad sender
   in length adv = 31 \<and> length response = 26 \<and>
      adv = [2, ad_flags ad, 6] @ [17, ad_incomplete_128 ad] @ packet_service_uuid_reversed @
            [9, ad_short_name ad] @ ascii ''SmokeDet'' \<and>
      response = [25, ad_service_data_128 ad] @ packet_service_uuid_reversed @ write_uint64 [] sender"
proof -
  have name: "length ble_smoke_detector_service_name = 13"
    "take 8 ble_smoke_detector_service_name = ascii ''SmokeDet''" by code_simp+
  have uuid: "length packet_service_uuid_reversed = 16" by code_simp
  show ?thesis
    by (simp add: populate_advertising_data_def Let_def name uuid)
qed

text \<open>
  The node connects to one neighbour at a time and never twice to one address: when
  \<open>connect_to_first_neighbour\<close> starts a connection, the neighbour was seen and not yet
  tried in vain, no connected link has its address, and it leaves the list of neighbours.
\<close>

theorem connects_once_per_address:
  assumes "tracker_ok (connection_tracker d)" and "connect_to_first_neighbour err d = (True, u)"
  shows "\<exists>a c. map_find a (available_neighbours (connection_tracker d)) = Some c \<and>
     fail_reason c = 0 \<and> \<not> isRandom c \<and> (weHaveTheTime (connection_tracker d) \<or> isRepeater c) \<and>
     list_all (\<lambda>(h, l). connected l = False \<or> bt_address l \<noteq> take 6 (bt_address c))
       (connections (connection_tracker d)) \<and>
     map_find (bt_address c) (available_neighbours (connection_tracker u)) = None \<and>
     connection_in_progress u \<and> err = 0"
proof -
  let ?t = "connection_tracker d"
  obtain a rest where first: "getConnectableNeighbours ?t = a # rest"
    using assms(2) by (auto simp: connect_to_first_neighbour_def Let_def split: list.splits)
  then have "a \<in> set (getConnectableNeighbours ?t)" by simp
  then obtain c where c: "(a, c) \<in> set (available_neighbours ?t)"
    "weHaveTheTime ?t \<or> isRepeater c" "\<not> isRandom c" "fail_reason c = 0"
    by (auto simp: getConnectableNeighbours_def)
  have find: "map_find a (available_neighbours ?t) = Some c"
    using c(1) assms(1) by (simp add: map_find_Some_iff tracker_ok_def stores_ok_def)
  have u: "getConnectionForAddress (bt_address c) ?t = None" "err = 0"
    "u = (on_tracker (setConnectionStarted c) d)\<lparr>connection_in_progress := True\<rparr>"
    using assms(2) first find
    by (auto simp: connect_to_first_neighbour_def Let_def split: if_splits)
  have "list_all (\<lambda>(h, l). connected l = False \<or> bt_address l \<noteq> take 6 (bt_address c)) (connections ?t)"
    using u(1) by (auto simp: getConnectionForAddress_def find_None_iff list_all_iff)
  then show ?thesis
    using find c u by (intro exI [of _ a] exI [of _ c]) (simp add: on_tracker_def setConnectionStarted_def)
qed

text \<open>
  The first clean-up does not wait. \<open>lastCleanup\<close> starts five minutes in the future, the
  difference to an earlier \<open>loopStart\<close> wraps around to a huge number, and the clean-up runs
  in the first round of the loop and then every ten minutes.
\<close>

theorem first_cleanup_at_once:
  assumes "now \<le> loopStart" and "loopStart - now < five_minutes_in_us"
  shows "dev (cleanup_part env clock loopStart (main_init now d)) =
    on_tracker (cleanupStaleItems (env\<lparr>env_time_us := clock AtCleanup\<rparr>)) d"
proof -
  let ?x = "uint (loopStart - now)"
  have x: "0 \<le> ?x" "?x < 300000000"
    using assms(2) by (simp_all add: five_minutes_in_us_def word_less_def)
  have same: "loopStart - (now + five_minutes_in_us) = (loopStart - now) - 300000000"
    by (simp add: five_minutes_in_us_def)
  have "uint ((loopStart - now) - 300000000) = ?x - 300000000 + 18446744073709551616"
  proof -
    have "uint ((loopStart - now) - 300000000) = (?x - 300000000) mod 18446744073709551616"
      by (simp only: uint_word_ariths) simp
    also have "\<dots> = (?x - 300000000 + 18446744073709551616) mod 18446744073709551616"
      by (simp only: mod_add_self2)
    also have "\<dots> = ?x - 300000000 + 18446744073709551616"
      using x by (intro mod_pos_pos_trivial) linarith+
    finally show ?thesis .
  qed
  then have "600000000 < uint ((loopStart - now) - 300000000)" using x by linarith
  then have "ten_minutes_in_us < loopStart - (now + five_minutes_in_us)"
    unfolding same by (simp add: ten_minutes_in_us_def word_less_def)
  then show ?thesis by (simp add: cleanup_part_def main_init_def)
qed

theorem first_cleanup_at_once_witness:
  "dev (cleanup_part sample_env (\<lambda>_. 7) 6 (main_init 5 sample_alarm)) =
     on_tracker (cleanupStaleItems (sample_env\<lparr>env_time_us := 7\<rparr>)) sample_alarm"
  by (subst first_cleanup_at_once) (simp_all add: five_minutes_in_us_def)

theorem connects_once_per_address_witness:
  "\<exists>u. connect_to_first_neighbour 0 (on_tracker (addAvailablePeer sample_env [1, 2, 3, 4, 5, 6] 0
          ServiceUUIDAndNameFound 200 False) sample_alarm) = (True, u) \<and> connection_in_progress u"
proof -
  let ?d = "on_tracker (addAvailablePeer sample_env [1, 2, 3, 4, 5, 6] 0
      ServiceUUIDAndNameFound 200 False) sample_alarm"
  have "connection_tracker sample_alarm = Tracker_init\<lparr>timestamp_offset_ms := 1781273466000\<rparr>"
    by (simp add: sample_alarm_def)
  moreover have "tracker_ok (Tracker_init\<lparr>timestamp_offset_ms := 1781273466000\<rparr>)"
    by (rule ok_grows [OF Tracker_init_ok])
      (use Tracker_init_ok in \<open>simp_all add: tracker_ok_def stores_ok_def grows_def queues_within_def\<close>)
  ultimately have ok: "tracker_ok (connection_tracker ?d)"
    by (simp add: simple_op_ok(5))
  have "fst (connect_to_first_neighbour 0 ?d)" by code_simp
  then obtain u where u: "connect_to_first_neighbour 0 ?d = (True, u)"
    by (cases "connect_to_first_neighbour 0 ?d") auto
  from connects_once_per_address [OF ok u] u show ?thesis by blast
qed

end
