(* ===== verification/Mesh_Cargo.thy ===== *)
theory Mesh_Cargo
  imports Device_Properties "HOL-Library.Sublist"
begin

section \<open>What a board holds and hands on\<close>

text \<open>
  The cargo of a board is what can reach other boards: the stored messages and announces, its
  own announce, the raw packets that wait, and the packets the stack was given. It is shown
  that every operation leaves it alone, or keeps it genuine: each message in it is one that
  was raised, up to its time to live, the handle it came in on and the cached length.
\<close>

fun handed_over :: "bt_call \<Rightarrow> bytes list" where
  "handed_over (ServerNotify h v data) = [data]"
| "handed_over (ClientWrite h v data) = [data]"
| "handed_over _ = []"

definition handed :: "tracker \<Rightarrow> bytes list" where
  "handed t = concat (map handed_over (bt_calls t))"

definition alike :: "message \<Rightarrow> message \<Rightarrow> bool" where
  "alike m r \<longleftrightarrow> packet_timestamp_ms m = packet_timestamp_ms r \<and>
     packet_sender_id m = packet_sender_id r \<and> message_id m = message_id r \<and>
     sender_nickname m = sender_nickname r \<and> content m = content r \<and> channel m = channel r \<and>
     reply_id m = reply_id r \<and> message_flags m = message_flags r \<and>
     msg_latitude_i m = msg_latitude_i r \<and> msg_longitude_i m = msg_longitude_i r \<and>
     msg_altitude m = msg_altitude r"

text \<open>A message that is written to the end and read back as it is.\<close>

definition sound :: "message \<Rightarrow> bool" where
  "sound m \<longleftrightarrow> \<not> malformed m \<and> packet_version m = 1 \<and> packet_type m = type_message \<and>
     packet_flags m = 0 \<and> packet_ttl m \<le> 3 \<and>
     (payload_length m = 0 \<or>
      payload_length m = of_nat (length (Message_writePacketPayload [] m))) \<and>
     message_id m \<noteq> [] \<and> content m \<noteq> [] \<and> length (message_id m) \<le> 255 \<and>
     length (sender_nickname m) \<le> 255 \<and> length (content m) \<le> 255 \<and> length (channel m) \<le> 255"

definition genuine :: "message set \<Rightarrow> message \<Rightarrow> bool" where
  "genuine R m \<longleftrightarrow> sound m \<and> (\<exists>r \<in> R. alike m r)"

text \<open>The type byte of a packet, as \<open>processWrite\<close> reads it.\<close>

definition says_message :: "bytes \<Rightarrow> bool" where
  "says_message data \<longleftrightarrow>
     fst (read_uint8 (snd (read_uint8 (BinaryReader 0 data (of_nat (length data)))))) = type_message"

definition carried :: "message set \<Rightarrow> bytes \<Rightarrow> bool" where
  "carried R data \<longleftrightarrow>
     (says_message data \<longrightarrow> (\<exists>m. genuine R m \<and> data = fst (Message_writePacket m)))"

lemma carried_other: "\<not> says_message data \<Longrightarrow> carried R data"
  by (simp add: carried_def)

text \<open>The values of a map or multimap.\<close>

definition vals :: "('k \<times> 'v) list \<Rightarrow> 'v set" where
  "vals m = snd ` set m"

definition cargo_ok :: "message set \<Rightarrow> tracker \<Rightarrow> bool" where
  "cargo_ok R t \<longleftrightarrow>
     (\<forall>m \<in> vals (messages t). genuine R m) \<and>
     (\<forall>data \<in> vals (raw_packet_to_notify t). carried R data) \<and>
     (\<forall>data \<in> vals (raw_packet_to_write t). carried R data) \<and>
     (\<forall>data \<in> set (handed t). carried R data) \<and>
     (\<forall>a \<in> vals (announces t). packet_type a = type_announce) \<and>
     packet_type (own_announce t) = type_announce"

definition cargo where
  "cargo t = (messages t, raw_packet_to_notify t, raw_packet_to_write t, handed t, announces t,
     own_announce t)"

lemma vals_put: "x \<in> vals (map_put k v m) \<Longrightarrow> x = v \<or> x \<in> vals m"
  by (induction k v m rule: map_put.induct) (auto simp: vals_def split: if_splits)

lemma vals_find: "map_find k m = Some v \<Longrightarrow> v \<in> vals m"
  unfolding vals_def map_find_def by (force dest: map_of_SomeD)

lemma vals_simps [simp]:
  "vals [] = {}" "vals (mm_emplace rank k v m) = insert v (vals m)" "vals (e # m) = insert (snd e) (vals m)"
  by (auto simp: vals_def)

lemma vals_subset: "set m \<subseteq> set n \<Longrightarrow> vals m \<subseteq> vals n"
  by (auto simp: vals_def)

lemma cargo_ok_same: "cargo u = cargo t \<Longrightarrow> cargo_ok R u = cargo_ok R t"
  by (simp add: cargo_def cargo_ok_def)

lemma genuine_mono: "genuine R m \<Longrightarrow> R \<subseteq> S \<Longrightarrow> genuine S m"
  unfolding genuine_def by blast

lemma carried_mono: "carried R data \<Longrightarrow> R \<subseteq> S \<Longrightarrow> carried S data"
  unfolding carried_def using genuine_mono [of R _ S] by blast

lemma cargo_ok_mono: "cargo_ok R t \<Longrightarrow> R \<subseteq> S \<Longrightarrow> cargo_ok S t"
  unfolding cargo_ok_def by (meson genuine_mono carried_mono)

lemma cargo_ok_init: "cargo_ok R Tracker_init"
  by (simp add: cargo_ok_def Tracker_init_def handed_def Announce_init_def Base_init_def)

subsection \<open>Operations that leave the cargo alone\<close>

lemma cargo_fields [simp]:
  "cargo (t\<lparr>peers := a\<rparr>) = cargo t"
  "cargo (t\<lparr>prefs := b\<rparr>) = cargo t"
  "cargo (t\<lparr>connections := c\<rparr>) = cargo t"
  "cargo (t\<lparr>available_neighbours := d\<rparr>) = cargo t"
  "cargo (t\<lparr>timestamp_offset_ms := e\<rparr>) = cargo t"
  "cargo (t\<lparr>handle_peer_map := f\<rparr>) = cargo t"
  "cargo (t\<lparr>packets_connections_sent_list := g\<rparr>) = cargo t"
  "cargo (t\<lparr>packets_peers_sent_list := h\<rparr>) = cargo t"
  "cargo (t\<lparr>broadcast_packets_to_send_list := i\<rparr>) = cargo t"
  "cargo (t\<lparr>targeted_packets_to_send_list := g\<rparr>) = cargo t"
  "cargo (t\<lparr>notify_registration := j\<rparr>) = cargo t"
  "cargo (t\<lparr>write_registration := j\<rparr>) = cargo t"
  by (simp_all add: cargo_def handed_def)

lemma handed_bt_invoke: "handed (snd (bt_invoke env c t)) = handed t @ handed_over c"
  by (simp add: bt_invoke_def handed_def)

lemma cargo_bt_invoke [simp]:
  "handed_over c = [] \<Longrightarrow> cargo (snd (bt_invoke env c t)) = cargo t"
  using handed_bt_invoke [of env c t] by (simp add: bt_invoke_def cargo_def)

lemma cargo_simple [simp]:
  "cargo (alter_connection h f t) = cargo t"
  "cargo (snd (connectionForConnHandle h t)) = cargo t"
  "cargo (snd (checkSenderInPeers i t)) = cargo t"
  "cargo (addAvailablePeer env addr ty sv rs cd t) = cargo t"
  "cargo (setConnectionStarted n t) = cargo t"
  "cargo (reportConnectionFailure addr r t) = cargo t"
  "cargo (setConnectionHandleForPeer h i t) = cargo t"
  "cargo (possiblyUpdateTimeOffset env ts t) = cargo t"
  "cargo (alter_peer i g t) = cargo t"
  "cargo (enqueueBroadcastPacket p t) = cargo t"
  "cargo (mark_sent env p con t) = cargo t"
  by (simp_all add: alter_connection_def connectionForConnHandle_def Let_def checkSenderInPeers_def
      addAvailablePeer_def updateRssiForActiveConnections_def setConnectionStarted_def
      reportConnectionFailure_def setConnectionHandleForPeer_def possiblyUpdateTimeOffset_def
      alter_peer_def enqueueBroadcastPacket_def mark_sent_def split: option.split)

lemma cargo_queues [simp]:
  "cargo (enqueueBroadcastPacket_from env p i t) = cargo t"
  "cargo (enqueueTargetedPacket env p c t) = cargo t"
  "cargo (reportConnection env h addr ty t) = cargo t"
  by (simp_all add: enqueueBroadcastPacket_from_def enqueueTargetedPacket_def
      reportConnection_def Let_def split_def split: option.split)

lemma cargo_links [simp]:
  "cargo (reportConnection_role env h addr ty rl t) = cargo t"
  "cargo (reportDisconnection env h t) = cargo t"
  "cargo (snd (duplicate_scan m r t)) = cargo t"
  "cargo (updateOrStorePeerNameFromAnnouncement a con t) = cargo t"
  "cargo (updatePreferences env p save t) = cargo t"
proof -
  show "cargo (reportConnection_role env h addr ty rl t) = cargo t"
    by (simp add: reportConnection_role_def Let_def)
  show "cargo (reportDisconnection env h t) = cargo t"
    by (simp add: reportDisconnection_def Let_def)
  show "cargo (snd (duplicate_scan m r t)) = cargo t"
    by (induction m r t rule: duplicate_scan.induct) (simp_all add: Let_def)
  show "cargo (updateOrStorePeerNameFromAnnouncement a con t) = cargo t"
    by (simp add: updateOrStorePeerNameFromAnnouncement_def Let_def split_def)
  show "cargo (updatePreferences env p save t) = cargo t"
    by (simp add: updatePreferences_def Let_def)
qed

lemma cargo_rssi: "requestNextRssi env restart it t = Some (go_on, it', u) \<Longrightarrow> cargo u = cargo t"
  by (auto simp: requestNextRssi_def Let_def split: option.splits if_splits)

subsection \<open>Packets as they are written\<close>

lemma prefix_write:
  assumes "prefix xs v"
  shows "prefix xs (write_uint8 v a)" "prefix xs (write_uint16 v b)" "prefix xs (write_uint32 v c)"
    "prefix xs (write_uint64 v d)" "prefix xs (write_data v e f)"
  using assms
  by (simp_all add: write_uint8_def write_uint16_def write_uint32_def write_uint64_def write_data_def)

lemma prefix_write_many: "prefix xs v \<Longrightarrow> prefix xs (foldl write_uint64 v ds)"
  by (induction ds arbitrary: v) (simp_all add: prefix_write)

lemma written_prefix:
  assumes "\<And>v p. payload v p = v @ rest p"
  shows "prefix [packet_version p, packet_type p] (fst (writePacket plen payload p []))"
proof -
  have "prefix [x, y] (write_uint8 (write_uint8 [] x) y)" for x y
    by (simp add: write_uint8_def)
  then show ?thesis
    by (simp add: writePacket_def Let_def split_def assms prefix_write prefix_write_many)
qed

lemma Announce_says:
  assumes "packet_type b = type_announce"
  shows "\<not> says_message (fst (Announce_writePacket b))"
proof -
  have "\<not> says_message (v # type_announce # rest)" for v rest
    by (simp add: says_message_def read_uint8_def Let_def BinaryReader_def advance_def overruns_def
        byte_at_def)
  then show ?thesis
    using written_prefix [where payload = Announce_writePacketPayload and p = b
      and plen = Announce_getPayloadLength, OF Announce_payload_entries] assms
    by (auto simp: Announce_writePacket_def prefix_def)
qed

lemma Announce_written_type [simp]:
  "packet_type (snd (Announce_writePacket b)) = packet_type b"
  by (simp add: Announce_writePacket_def writePacket_def Let_def Announce_getPayloadLength_def
      setPayloadLength_def split: prod.split)

lemma sound_valid:
  assumes "sound m"
  shows "packet_version m = 1" "packet_type m = type_message" "\<not> hasSignature m"
    "payload_length m = 0 \<or>
     payload_length m = of_nat (length (Message_writePacketPayload [] m))"
    "channel m = [] \<or> content m \<noteq> []" "Message_writePacketPayload [] m \<noteq> []"
proof -
  have "message_entries m \<noteq> []" using assms by (simp add: message_entries_def sound_def)
  then show "Message_writePacketPayload [] m \<noteq> []"
    by (simp only: Message_payload_entries append_Nil tlvs_bytes_Nil_iff simp_thms)
qed (use assms in \<open>simp_all add: sound_def hasSignature_def\<close>)

lemma sound_written:
  assumes "sound m"
  shows "snd (Message_writePacket m) =
    m\<lparr>payload_length := of_nat (length (Message_writePacketPayload [] m))\<rparr>"
proof -
  note v = sound_valid [OF assms]
  have len: "payload_length m = 0 \<or>
      payload_length m = of_nat (length (tlvs_bytes (message_entries m)))"
    using v(4) by (simp add: Message_payload_entries)
  show ?thesis
    using msg.written_bytes [OF v(1-3) len v(5)]
    by (simp add: Message_writePacket_def Message_payload_entries)
qed

lemma payload_same_fields:
  "Message_writePacketPayload v (m\<lparr>payload_length := x\<rparr>) = Message_writePacketPayload v m"
  "Message_writePacketPayload v (m\<lparr>packet_ttl := y\<rparr>) = Message_writePacketPayload v m"
  "Message_writePacketPayload v (m\<lparr>sending_connection_handle := z\<rparr>) = Message_writePacketPayload v m"
  by (simp_all add: Message_payload_entries message_entries_def)

lemma genuine_updates:
  assumes "genuine R m"
  shows "y \<le> 3 \<Longrightarrow> genuine R (m\<lparr>packet_ttl := y\<rparr>)"
    and "genuine R (m\<lparr>sending_connection_handle := z\<rparr>)"
    and "genuine R (snd (Message_writePacket m))"
proof -
  have s: "sound m" using assms by (simp add: genuine_def)
  show "y \<le> 3 \<Longrightarrow> genuine R (m\<lparr>packet_ttl := y\<rparr>)"
    and "genuine R (m\<lparr>sending_connection_handle := z\<rparr>)"
    and "genuine R (snd (Message_writePacket m))"
    using assms by (simp_all add: sound_written [OF s] genuine_def sound_def alike_def
        payload_same_fields)
qed

text \<open>What a receiver makes of a sound message is the message, but for what does not travel.\<close>

lemma genuine_received:
  assumes "genuine R m"
  shows "genuine R (message_on_wire (snd (Message_writePacket m)))"
proof -
  let ?q = "snd (Message_writePacket m)"
  have q: "sound ?q" "\<exists>r \<in> R. alike ?q r"
    using genuine_updates(3) [OF assms] by (simp_all add: genuine_def)
  have "Message_writePacketPayload [] (message_on_wire ?q) = Message_writePacketPayload [] ?q"
    using q(1) by (simp add: Message_payload_entries message_entries_def message_on_wire_def sound_def)
  then show ?thesis
    using q by (simp add: genuine_def sound_def alike_def message_on_wire_def Message_blank_def)
qed

subsection \<open>Storing, writing and sending\<close>

lemma cargo_okD:
  assumes "cargo_ok R t"
  shows "map_find i (messages t) = Some m \<Longrightarrow> genuine R m"
    and "map_find h (announces t) = Some a \<Longrightarrow> packet_type a = type_announce"
    and "data \<in> vals (raw_packet_to_notify t) \<Longrightarrow> carried R data"
    and "data \<in> vals (raw_packet_to_write t) \<Longrightarrow> carried R data"
    and "data \<in> set (handed t) \<Longrightarrow> carried R data"
    and "packet_type (own_announce t) = type_announce"
  using assms unfolding cargo_ok_def by (blast dest: vals_find)+

lemma handed_fields [simp]:
  "handed (t\<lparr>messages := a\<rparr>) = handed t" "handed (t\<lparr>announces := b\<rparr>) = handed t"
  "handed (t\<lparr>own_announce := c\<rparr>) = handed t" "handed (t\<lparr>raw_packet_to_notify := d\<rparr>) = handed t"
  "handed (t\<lparr>raw_packet_to_write := d\<rparr>) = handed t"
  by (simp_all add: handed_def)

lemma cargo_put_message:
  "cargo_ok R t \<Longrightarrow> genuine R m \<Longrightarrow> cargo_ok R (t\<lparr>messages := map_put i m (messages t)\<rparr>)"
  by (simp add: cargo_ok_def) (blast dest: vals_put)

lemma cargo_put_announce:
  "cargo_ok R t \<Longrightarrow> packet_type a = type_announce \<Longrightarrow>
   cargo_ok R (t\<lparr>announces := map_put i a (announces t)\<rparr>)"
  by (simp add: cargo_ok_def) (blast dest: vals_put)

lemma cargo_own_announce:
  "cargo_ok R t \<Longrightarrow> packet_type a = type_announce \<Longrightarrow> cargo_ok R (t\<lparr>own_announce := a\<rparr>)"
  by (simp add: cargo_ok_def)

lemma cargo_raw:
  "cargo_ok R t \<Longrightarrow> carried R data \<Longrightarrow>
   cargo_ok R (t\<lparr>raw_packet_to_notify := mm_emplace rank h data (raw_packet_to_notify t)\<rparr>)"
  "cargo_ok R t \<Longrightarrow> carried R data \<Longrightarrow>
   cargo_ok R (t\<lparr>raw_packet_to_write := mm_emplace rank h data (raw_packet_to_write t)\<rparr>)"
  by (simp_all add: cargo_ok_def)

lemma cargo_invoke:
  "cargo_ok R t \<Longrightarrow> \<forall>data \<in> set (handed_over c). carried R data \<Longrightarrow>
   cargo_ok R (snd (bt_invoke env c t))"
  using handed_bt_invoke [of env c t] by (auto simp: bt_invoke_def cargo_ok_def)

lemma cargo_ok_fields [simp]:
  "cargo_ok R (alter_connection h f t) = cargo_ok R t"
  "cargo_ok R (t\<lparr>notify_registration := j\<rparr>) = cargo_ok R t"
  "cargo_ok R (t\<lparr>write_registration := j\<rparr>) = cargo_ok R t"
  by (simp_all cong: cargo_ok_same)

lemma store_message_cargo:
  "cargo_ok R t \<Longrightarrow> genuine R m \<Longrightarrow> cargo_ok R (snd (storeMessageAndReturnIfNew m t))"
  by (simp add: storeMessageAndReturnIfNew_def cargo_put_message split: option.split)

lemma store_announce_cargo:
  "cargo_ok R t \<Longrightarrow> packet_type a = type_announce \<Longrightarrow>
   cargo_ok R (snd (storeAnnounceAndReturnIfNew env a t))"
  by (simp add: storeAnnounceAndReturnIfNew_def Let_def cargo_put_announce)

lemma packet_set_ttl_cargo:
  assumes "cargo_ok R t" and "\<And>i. p = MessageRef i \<Longrightarrow> y \<le> 3"
  shows "cargo_ok R (packet_set_ttl p y t)"
  using assms cargo_okD [OF assms(1)] genuine_updates(1) [of R _ y]
  by (auto simp: packet_set_ttl_def setPacketTtl_def cargo_put_message cargo_put_announce
      cargo_own_announce split: packet_ref.split option.split)

lemma packet_write_cargo:
  assumes "cargo_ok R t"
  shows "cargo_ok R (snd (packet_write p t))"
    and "packet_base t p \<noteq> None \<Longrightarrow> carried R (fst (packet_write p t))"
proof -
  show "cargo_ok R (snd (packet_write p t))"
    using assms cargo_okD [OF assms] genuine_updates(3)
    by (auto simp: packet_write_def Let_def split_def cargo_put_message cargo_put_announce
        cargo_own_announce split: packet_ref.split option.split)
  assume "packet_base t p \<noteq> None"
  then show "carried R (fst (packet_write p t))"
    using cargo_okD(1,2,6) [OF assms]
    by (auto simp: packet_write_def packet_base_def Let_def split_def carried_def
        Announce_says split: packet_ref.splits option.splits)
qed

lemma queue_raw_cargo:
  "cargo_ok R t \<Longrightarrow> carried R data \<Longrightarrow> cargo_ok R (snd (queue_raw_packet env con c data t))"
  by (simp add: queue_raw_packet_def Let_def split_def cargo_invoke cargo_raw)

lemma SendPacket_cargo:
  assumes "cargo_ok R t"
  shows "cargo_ok R (snd (SendPacketToConnection env p con t))"
  using assms packet_write_cargo [OF assms, of p]
  by (auto simp: SendPacketToConnection_def Let_def split_def queue_raw_cargo split: option.split)

lemma sendPackets_cargo: "cargo_ok R t \<Longrightarrow> cargo_ok R (snd (sendPackets env t))"
proof -
  have "cargo_ok R (mark_sent env p con t) = cargo_ok R t"
    "cargo_ok R (t\<lparr>targeted_packets_to_send_list := x\<rparr>) = cargo_ok R t"
    "cargo_ok R (t\<lparr>broadcast_packets_to_send_list := y\<rparr>) = cargo_ok R t" for p con x y t
    by (rule cargo_ok_same, simp)+
  then show "cargo_ok R t \<Longrightarrow> ?thesis"
    by (intro board.round_preserves [where Q = "cargo_ok R"]) (simp_all add: SendPacket_cargo)
qed

lemma vals_lower_bound: "mm_lower_bound rank k m = e # rest \<Longrightarrow> snd e \<in> vals m"
  unfolding mm_lower_bound_def vals_def
  by (metis image_eqI list.set_intros(1) set_dropWhileD)

lemma vals_erase_first:
  fixes m :: "('k \<times> 'v) list"
  shows "vals (mm_erase_first rank k m) \<subseteq> vals m"
proof (rule vals_subset)
  have "set (tl xs) \<subseteq> set xs" for xs :: "('k \<times> 'v) list"
    by (cases xs) auto
  then have "set (tl (dropWhile P m)) \<subseteq> set m" for P
    by (blast dest: set_dropWhileD)
  then show "set (mm_erase_first rank k m) \<subseteq> set m"
    by (auto simp: mm_erase_first_def mm_lower_bound_def dest: set_takeWhileD)
qed

lemma cargo_erase_first:
  "cargo_ok R t \<Longrightarrow>
   cargo_ok R (t\<lparr>raw_packet_to_notify := mm_erase_first rank h (raw_packet_to_notify t)\<rparr>)"
  "cargo_ok R t \<Longrightarrow>
   cargo_ok R (t\<lparr>raw_packet_to_write := mm_erase_first rank h (raw_packet_to_write t)\<rparr>)"
  by (simp_all add: cargo_ok_def) (blast dest: subsetD [OF vals_erase_first])+

lemma raw_cargo:
  assumes "cargo_ok R t"
  shows "notifyRawPacket env h t = Some u \<Longrightarrow> cargo_ok R u"
    and "writeRawPacket env h t = Some u \<Longrightarrow> cargo_ok R u"
proof -
  have "vals (raw_packet_to_notify (alter_connection h f t)) = vals (raw_packet_to_notify t)" for f
    by (simp add: alter_connection_def)
  show "notifyRawPacket env h t = Some u \<Longrightarrow> cargo_ok R u"
    "writeRawPacket env h t = Some u \<Longrightarrow> cargo_ok R u"
    using assms cargo_okD(3,4) [OF assms]
    by (auto simp: notifyRawPacket_def writeRawPacket_def Let_def split_def cargo_invoke
        cargo_erase_first split: list.splits if_split_asm dest!: vals_lower_bound)
qed

lemma cleanup_cargo: "cargo_ok R t \<Longrightarrow> cargo_ok R (cleanupStaleItems env t)"
  by (auto simp: cleanupStaleItems_def Let_def cargo_ok_def vals_def handed_def)

lemma announce_cargo:
  assumes "cargo_ok R t"
  shows "cargo_ok R (announceToConnections env t)"
proof -
  have "cargo_ok R (announce_to env c t)" if "cargo_ok R t" for c t
  proof -
    let ?t = "t\<lparr>own_announce := setPacketTimestamp (own_announce t) (getTimeMs env t)\<rparr>"
    have "cargo_ok R ?t"
      using that cargo_okD(6) [OF that] by (simp add: cargo_own_announce setPacketTimestamp_def)
    then show ?thesis
      unfolding announce_to_def using cargo_ok_same [OF cargo_queues(2), of R _ _ _ ?t] by simp
  qed
  then have "cargo_ok R t \<Longrightarrow> cargo_ok R (fold (announce_to env) cs t)" for cs t
    by (induction cs arbitrary: t) simp_all
  moreover have "cargo_ok R (setupAnnounceIfNeeded env t)"
    using assms cargo_okD(6) [OF assms]
    by (simp add: setupAnnounceIfNeeded_def Let_def cargo_own_announce setName_def
        setPacketSenderId_def setPacketFlags_def setPacketTtl_def Announce_setAltitude_def
        Announce_setLongitudeI_def Announce_setLatitudeI_def)
  ultimately show ?thesis by (simp add: announceToConnections_def Let_def)
qed

subsection \<open>Receiving\<close>

lemma tlv_loop_keeps:
  assumes "tlv_loop step malf plen tail r m = Some (m', r')"
    and "\<And>r m. f (fst (step r m)) = f m" and "\<And>m. f (snd (plen m)) = f m"
  shows "f m' = f m"
proof -
  let ?P = "\<lambda>step malf plen tail r m out.
      (\<forall>r m. f (fst (step r m)) = f m) \<longrightarrow> (\<forall>m. f (snd (plen m)) = f m) \<longrightarrow> f (fst out) = f m"
  have "?P step malf plen tail r m (m', r')"
  proof (rule tlv_loop.raw_induct [OF _ assms(1), of ?P], goal_cases)
    case (1 g step malf plen tail r m out)
    show ?case
    proof (intro impI)
      assume "\<forall>r m. f (fst (step r m)) = f m" "\<forall>m. f (snd (plen m)) = f m"
      then show "f (fst out) = f m"
        using 1(2) 1(1) [of step malf plen tail "snd (step r m)" "snd (plen (fst (step r m)))" out]
        by (auto simp: Let_def split_def split: if_splits)
    qed
  qed
  then show ?thesis using assms(2,3) by simp
qed

lemma Announce_read_type:
  assumes "Announce_read version r = Some (a, r')"
  shows "packet_type a = type_announce"
proof -
  have base: "packet_type (fst (Base_read Announce_blank type_announce version r)) = type_announce" for r
    by (simp add: Base_read_def Let_def split_def Base_init_def)
  have step: "packet_type (fst (announce_tlv_step r a)) = packet_type a" for r a
    by (simp add: announce_tlv_step_def Let_def split_def setMalformed_def split: option.split)
  have plen: "packet_type (snd (Announce_getPayloadLength a)) = packet_type a" for a
    by (simp add: Announce_getPayloadLength_def Let_def setPayloadLength_def)
  have rest: "packet_type (fst (handleReaderRemainder a r)) = packet_type a" for a :: announce and r
    by (simp add: handleReaderRemainder_def split: prod.split option.split)
  obtain a0 r1 where a0: "Base_read Announce_blank type_announce version r = (a0, r1)"
    by (cases "Base_read Announce_blank type_announce version r")
  obtain a1 r2 where a1: "tlv_loop announce_tlv_step malformed Announce_getPayloadLength
      (read_remainder_len r1) r1 a0 = Some (a1, r2)" and "a = fst (handleReaderRemainder a1 r2)"
    using assms by (auto simp: Announce_read_def a0 Let_def split: option.splits)
  then show ?thesis
    using tlv_loop_keeps [where f = packet_type, OF a1 step plen] base [of r] by (simp add: rest a0)
qed

lemma relay_stored_cargo:
  assumes "cargo_ok R t"
  shows "cargo_ok R (relay_stored env p t)"
proof -
  have small: "word_of_int (int (unat y) - 1) \<le> (3 :: u8)" if "y \<le> 3" "1 < uint y" for y :: u8
  proof -
    have "int (unat y) = uint y" by simp
    then have "1 < unat y" using that(2) by linarith
    have "unat y \<le> 3" using that(1) by (simp add: word_le_nat_alt)
    moreover have "word_of_int (int (unat y) - 1) = y - 1" by simp
    moreover have "unat (y - 1) = unat y - 1"
      using \<open>1 < unat y\<close> by (simp add: unat_sub word_le_nat_alt)
    ultimately show ?thesis by (simp add: word_le_nat_alt)
  qed
  have same: "cargo_ok R (enqueueBroadcastPacket_from env p i (snd (checkSenderInPeers j u))) = cargo_ok R u"
    for i j u
    by (rule cargo_ok_same) simp
  show ?thesis
  proof (cases "packet_base t p")
    case (Some b)
    have "packet_ttl b \<le> 3" if "p = MessageRef i" for i
      using Some that cargo_okD(1) [OF assms]
      by (auto simp: packet_base_def base_of_def genuine_def sound_def)
    then show ?thesis
      using assms small packet_set_ttl_cargo [OF assms, of p]
      by (auto simp: relay_stored_def Let_def split_def Some same)
  qed (use assms in \<open>simp add: relay_stored_def\<close>)
qed

lemma announce_received:
  assumes "cargo_ok R t" and "Announce_read version r = Some (a, r')"
    and "b = setSendingConnectionHandle a h"
    and "u = possiblyUpdateTimeOffset env ts (updateOrStorePeerNameFromAnnouncement b con t)"
    and "storeAnnounceAndReturnIfNew env b u = (stored, v)"
  shows "cargo_ok R (case stored of None \<Rightarrow> v | Some p \<Rightarrow> relay_stored env p v)"
proof -
  have "cargo u = cargo t" by (simp add: assms(4))
  then have "cargo_ok R u" using assms(1) cargo_ok_same by blast
  moreover have "packet_type b = type_announce"
    using Announce_read_type [OF assms(2)] by (simp add: assms(3) setSendingConnectionHandle_def)
  ultimately have "cargo_ok R (snd (storeAnnounceAndReturnIfNew env b u))"
    by (rule store_announce_cargo)
  then show ?thesis by (simp add: assms(5) relay_stored_cargo split: option.split)
qed

lemma other_received:
  assumes "cargo_ok R t"
    and "fst (read_uint8 (snd (read_uint8 (BinaryReader offset buffer n)))) \<noteq> type_message"
    and "\<And>p save t. cargo_ok R t \<Longrightarrow> cargo_ok R (upd p save t)"
    and "processWrite_with upd env con offset buffer n t = Some u"
  shows "cargo_ok R u"
proof -
  obtain version r1 where one: "read_uint8 (BinaryReader offset buffer n) = (version, r1)"
    by (cases "read_uint8 (BinaryReader offset buffer n)")
  obtain ty r2 where two: "read_uint8 r1 = (ty, r2)" by (cases "read_uint8 r1")
  have ty: "ty \<noteq> type_message" using assms(2) by (simp add: one two)
  note step = assms(4) [unfolded processWrite_with_def Let_def one prod.case two]
  consider "u = t" | a r' where "ty = type_announce" "Announce_read version r2 = Some (a, r')"
    "\<not> (version < 1 \<or> version > 2)"
    | p where "u = upd p True t"
    using step ty by (auto split: if_splits option.splits)
  then show ?thesis
  proof cases
    case 1
    then show ?thesis using assms(1) by simp
  next
    case 2
    then show ?thesis
      using announce_received [OF assms(1) 2(2) refl refl] step by (auto split: prod.splits)
  next
    case 3
    then show ?thesis using assms(1,3) by simp
  qed
qed

lemma received_cargo:
  assumes "cargo_ok R t" and "carried R data"
    and "processWrite env con 0 data (of_nat (length data)) t = Some u"
  shows "cargo_ok R u"
proof (cases "says_message data")
  case True
  then obtain m where m: "genuine R m" "data = fst (Message_writePacket m)"
    using assms(2) by (auto simp: carried_def)
  let ?m = "setSendingConnectionHandle (message_on_wire (snd (Message_writePacket m)))
      (connection_handle con)"
  have "sound m" using m(1) by (simp add: genuine_def)
  from processWrite_message [OF sound_valid [OF this], of data "snd (Message_writePacket m)" env con t]
  have "u = (case fst (storeMessageAndReturnIfNew ?m t) of
        None \<Rightarrow> snd (storeMessageAndReturnIfNew ?m t)
      | Some p \<Rightarrow> relay_stored env p (snd (storeMessageAndReturnIfNew ?m t)))"
    using assms(3) m(2) by (simp add: Let_def split_def)
  moreover have "cargo_ok R (snd (storeMessageAndReturnIfNew ?m t))"
    using genuine_updates(2) [OF genuine_received [OF m(1)]]
    by (intro store_message_cargo assms(1)) (simp add: setSendingConnectionHandle_def)
  ultimately show ?thesis by (simp add: relay_stored_cargo split: option.split)
next
  case False
  have "cargo_ok R (updatePreferences env p save t)" if "cargo_ok R t" for p save t
    using that cargo_ok_same [OF cargo_links(5)] by blast
  from other_received [OF assms(1) False [unfolded says_message_def] this
      assms(3) [unfolded processWrite_def]] show ?thesis .
qed

end
