(* ===== verification/Mesh_Network.thy ===== *)
theory Mesh_Network
  imports Mesh_Cargo
begin

section \<open>A mesh of boards\<close>

text \<open>
  Boards that all run \<^verbatim>\<open>main.cpp\<close>. The radio is any way of delivering packets: what one board
  gave to its stack may arrive at any board, on any connection, at any time, any number of
  times or never, but whole and unchanged. Other devices, such as the phone from which the
  boards learn the time and their preferences, may send anything but messages. The state has the history that the properties speak
  of: which board raised which message, and on which boards the smoke pin fell.
\<close>

record mesh =
  board :: "nat \<Rightarrow> device"
  raised :: "(nat \<times> message) list"
  alarmed :: "nat set"

definition mesh_start :: mesh where
  "mesh_start = \<lparr>board = (\<lambda>_. Device_init), raised = [], alarmed = {}\<rparr>"

text \<open>The message \<open>generateMessageIfNeeded\<close> composes, if it does.\<close>

definition reported :: "environment \<Rightarrow> device \<Rightarrow> message list" where
  "reported env d =
     (if weHaveTheTime (connection_tracker d) \<and> (fresh_boot d \<or> smoke_seen d \<or> life_check d)
      then [event_message env (fresh_boot d) (smoke_seen d) (life_check d) (connection_tracker d)]
      else [])"

definition in_the_air :: "mesh \<Rightarrow> bytes \<Rightarrow> bool" where
  "in_the_air s data \<longleftrightarrow>
     \<not> says_message data \<or> (\<exists>i. data \<in> set (handed (connection_tracker (board s i))))"

definition set_board :: "nat \<Rightarrow> device \<Rightarrow> mesh \<Rightarrow> mesh" where
  "set_board i d s = s\<lparr>board := (board s)(i := d)\<rparr>"

text \<open>
  What happens on one board without a packet coming in: the steps of \<open>device_step\<close> but the
  pins, the alerts and the deliveries, which \<open>mesh_step\<close> has. A write to an attribute other
  than the packet value may carry any bytes.
\<close>

inductive quiet_step :: "device \<Rightarrow> device \<Rightarrow> bool" where
  boot: "boot_preferences env fl sector (connection_tracker d) = Some t \<Longrightarrow>
    quiet_step d (d\<lparr>connection_tracker := t\<rparr>)"
| att_read: "att_read_callback profile h offset buffer d = Some (n, buffer', u) \<Longrightarrow> quiet_step d u"
| configure: "h \<noteq> packet_value_handle profile \<Longrightarrow>
    att_write_callback env profile le16 nv con h mode offset buffer n d = Some u \<Longrightarrow> quiet_step d u"
| gatt_client: "quiet_step d (snd (handle_gatt_client_event e d))"
| hci: "quiet_step d (hci_packet_handler env he d)"
| att: "quiet_step d (att_packet_handler env ae d)"
| sm: "quiet_step d (sm_packet_handler d)"
| stop_scan: "quiet_step d (stop_scan_handler d)"
| can_notify: "packet_can_send_notification_handler env (connection_tracker d) = Some t \<Longrightarrow>
    quiet_step d (d\<lparr>connection_tracker := t\<rparr>)"
| can_write: "packet_can_write_without_response_handler env (connection_tracker d) = Some t \<Longrightarrow>
    quiet_step d (d\<lparr>connection_tracker := t\<rparr>)"
| announce: "quiet_step d (on_tracker (announceToConnections env) d)"
| connect: "quiet_step d (snd (connect_to_first_neighbour err d))"
| send: "quiet_step d (on_tracker (\<lambda>t. snd (sendPackets env t)) d)"
| active: "quiet_step d (bump_activity d)"
| scan: "quiet_step d (start_scanning_for_local_nodes d)"
| cleanup: "quiet_step d (on_tracker (cleanupStaleItems env) d)"
| failure: "quiet_step d (on_tracker (reportConnectionFailure address reason) d)"
| duplicates: "quiet_step d (on_tracker (\<lambda>t. snd (getAnyDuplicateHandle t)) d)"
| rssi: "requestNextRssi env restart it (connection_tracker d) = Some (go_on, it', t) \<Longrightarrow>
    quiet_step d (d\<lparr>connection_tracker := t\<rparr>)"

inductive mesh_step :: "(nat \<Rightarrow> u64) \<Rightarrow> mesh \<Rightarrow> mesh \<Rightarrow> bool" for ids where
  quiet: "quiet_step (board s i) u \<Longrightarrow> mesh_step ids s (set_board i u s)"
| pin: "mesh_step ids s ((set_board i (gpio_callback edge_fall pin events (board s i)) s)
    \<lparr>alarmed := alarmed s \<union> (if pin = SMOKE_SEEN_PIN \<and> events AND edge_fall \<noteq> 0 then {i} else {})\<rparr>)"
| generate: "env_board_id env = ids i \<Longrightarrow>
    mesh_step ids s ((set_board i (generateMessageIfNeeded env (board s i)) s)
      \<lparr>raised := map (Pair i) (reported env (board s i)) @ raised s\<rparr>)"
| notified: "in_the_air s data \<Longrightarrow>
    handle_gatt_client_value_update_event env (Notification h data (of_nat (length data))) (board s i)
      = Some u \<Longrightarrow> mesh_step ids s (set_board i u s)"
| written: "in_the_air s data \<Longrightarrow>
    att_write_callback env profile le16 nv con h mode 0 data (of_nat (length data)) (board s i)
      = Some u \<Longrightarrow> mesh_step ids s (set_board i u s)"

inductive mesh_reachable :: "(nat \<Rightarrow> u64) \<Rightarrow> mesh \<Rightarrow> bool" for ids where
  init: "mesh_reachable ids mesh_start"
| step: "mesh_reachable ids s \<Longrightarrow> mesh_step ids s u \<Longrightarrow> mesh_reachable ids u"

text \<open>Every step of a board in the mesh is one of the steps a single board can make.\<close>

lemma quiet_step_device: "quiet_step d u \<Longrightarrow> device_step d u"
  by (induction rule: quiet_step.induct) (auto intro: device_step.intros)

lemma mesh_step_device:
  "mesh_step ids s u \<Longrightarrow> board u j = board s j \<or> device_step (board s j) (board u j)"
  by (induction rule: mesh_step.induct)
    (auto simp: set_board_def intro: quiet_step_device device_step.intros)

lemma mesh_boards_reachable: "mesh_reachable ids s \<Longrightarrow> device_reachable (board s j)"
proof (induction rule: mesh_reachable.induct)
  case init
  then show ?case by (simp add: mesh_start_def device_reachable.init)
next
  case (step s u)
  then show ?case using mesh_step_device [OF step.hyps(2), of j] device_reachable.step by auto
qed

subsection \<open>Quiet steps keep the cargo genuine and raise no alarm\<close>

lemma cargo_same_device:
  "cargo (connection_tracker (snd (handle_gatt_client_event e d))) = cargo (connection_tracker d)"
  "cargo (connection_tracker (hci_packet_handler env he d)) = cargo (connection_tracker d)"
  "cargo (connection_tracker (att_packet_handler env ae d)) = cargo (connection_tracker d)"
  "cargo (connection_tracker (snd (connect_to_first_neighbour err d))) = cargo (connection_tracker d)"
  by (simp add: handle_gatt_client_event_def Let_def split_def split: gatt_event.split,
      simp add: hci_packet_handler_def Let_def split: hci_event.split,
      simp add: att_packet_handler_def Let_def split: att_event.split,
      simp add: connect_to_first_neighbour_def Let_def split: list.split)

lemma smoke_same_device:
  "smoke_seen (bump_activity d) = smoke_seen d" "smoke_seen (on_tracker f d) = smoke_seen d"
  "smoke_seen (sm_packet_handler d) = smoke_seen d"
  "smoke_seen (stop_scan_handler d) = smoke_seen d"
  "smoke_seen (start_scanning_for_local_nodes d) = smoke_seen d"
  "smoke_seen (setup_scanning d) = smoke_seen d"
  by (simp_all add: bump_activity_def on_tracker_def sm_packet_handler_def stop_scan_handler_def
      start_scanning_for_local_nodes_def setup_scanning_def)

lemma smoke_same_handlers:
  "smoke_seen (snd (handle_gatt_client_event e d)) = smoke_seen d"
  "smoke_seen (hci_packet_handler env he d) = smoke_seen d"
  "smoke_seen (att_packet_handler env ae d) = smoke_seen d"
  "smoke_seen (snd (connect_to_first_neighbour err d)) = smoke_seen d"
  by (simp add: handle_gatt_client_event_def Let_def split_def smoke_same_device split: gatt_event.split,
      simp add: hci_packet_handler_def Let_def smoke_same_device split: hci_event.split,
      simp add: att_packet_handler_def Let_def smoke_same_device split: att_event.split,
      simp add: connect_to_first_neighbour_def Let_def smoke_same_device split: list.split)

lemma cargo_configure:
  assumes "h \<noteq> packet_value_handle profile"
    and "att_write_callback env profile le16 nv con h mode offset buffer n d = Some u"
  shows "cargo (connection_tracker u) = cargo (connection_tracker d)" "smoke_seen u = smoke_seen d"
  using assms
  by (auto simp: att_write_callback_def Let_def split_def smoke_same_device split: if_splits)

lemma quiet_cargo:
  assumes "quiet_step d u" and "cargo_ok R (connection_tracker d)"
  shows "cargo_ok R (connection_tracker u) \<and> smoke_seen u = smoke_seen d"
  using assms
proof (induction rule: quiet_step.induct)
  case (boot env fl sector d t)
  then have "cargo t = cargo (connection_tracker d)"
    by (auto simp: boot_preferences_def Let_def split_def split: if_splits option.splits)
  from cargo_ok_same [OF this] boot(2) show ?case by simp
next
  case (att_read profile h offset buffer d n buffer' u)
  then show ?case by (auto simp: att_read_callback_def Let_def smoke_same_device split: if_splits)
next
  case (configure h profile env le16 nv con mode offset buffer n d u)
  note c = cargo_configure [OF configure(1,2)]
  from cargo_ok_same [OF c(1)] c(2) configure(3) show ?case by simp
next
  case (gatt_client d e)
  from cargo_ok_same [OF cargo_same_device(1)] smoke_same_handlers(1) gatt_client show ?case by simp
next
  case (hci d env he)
  from cargo_ok_same [OF cargo_same_device(2)] smoke_same_handlers(2) hci show ?case by simp
next
  case (att d env ae)
  from cargo_ok_same [OF cargo_same_device(3)] smoke_same_handlers(3) att show ?case by simp
next
  case (connect d err)
  from cargo_ok_same [OF cargo_same_device(4)] smoke_same_handlers(4) connect show ?case by simp
next
  case (failure d address reason)
  from cargo_ok_same [OF cargo_simple(6)] failure show ?case by (simp add: smoke_same_device)
next
  case (duplicates d)
  from cargo_ok_same [OF cargo_links(3)] duplicates show ?case
    by (simp add: smoke_same_device getAnyDuplicateHandle_def)
next
  case (rssi env restart it d go_on it' t)
  from cargo_ok_same [OF cargo_rssi [OF rssi(1)]] rssi(2) show ?case by simp
next
  case (can_notify env d t)
  then show ?case
    by (simp add: packet_can_send_notification_handler_def raw_cargo(1))
next
  case (can_write env d t)
  then show ?case
    by (simp add: packet_can_write_without_response_handler_def raw_cargo(2))
qed (simp_all add: smoke_same_device sendPackets_cargo cleanup_cargo announce_cargo)

subsection \<open>Deliveries and alerts\<close>

lemma notified_cargo:
  assumes "cargo_ok R (connection_tracker d)" and "carried R data"
    and "handle_gatt_client_value_update_event env (Notification h data (of_nat (length data))) d = Some u"
  shows "cargo_ok R (connection_tracker u) \<and> smoke_seen u = smoke_seen d"
proof -
  let ?t = "snd (connectionForConnHandle h (connection_tracker d))"
  have "cargo_ok R ?t" using assms(1) cargo_ok_same [OF cargo_simple(2)] by simp
  from received_cargo [OF this assms(2)] show ?thesis
    using assms(3)
    by (auto simp: handle_gatt_client_value_update_event_def Let_def split_def smoke_same_device)
qed

lemma written_cargo:
  assumes "cargo_ok R (connection_tracker d)" and "carried R data"
    and "att_write_callback env profile le16 nv con h mode 0 data (of_nat (length data)) d = Some u"
  shows "cargo_ok R (connection_tracker u) \<and> smoke_seen u = smoke_seen d"
proof (cases "h = packet_value_handle profile \<and> h \<noteq> client_configuration_handle profile \<and> mode = 0")
  case True
  let ?t = "snd (connectionForConnHandle con (connection_tracker d))"
  have "cargo_ok R ?t" using assms(1) cargo_ok_same [OF cargo_simple(2)] by simp
  from received_cargo [OF this assms(2)] show ?thesis
    using assms(3) True
    by (auto simp: att_write_callback_def Let_def split_def smoke_same_device split: if_splits)
next
  case False
  then have "cargo (connection_tracker u) = cargo (connection_tracker d)" "smoke_seen u = smoke_seen d"
    using assms(3) by (auto simp: att_write_callback_def Let_def split_def smoke_same_device
        split: if_splits)
  with cargo_ok_same [OF this(1)] show ?thesis using assms(1) by simp
qed

lemma event_content_smoke:
  assumes "b \<or> s \<or> l"
  shows "(\<exists>before. event_content b s l = before @ ascii ''Smoke seen'') \<longleftrightarrow> s"
proof
  assume "\<exists>before. event_content b s l = before @ ascii ''Smoke seen''"
  then have "last (event_content b s l) = last (ascii ''Smoke seen'')" by (auto simp: ascii_def)
  then show s using assms by (auto simp: event_content_cases ascii_def split: if_splits)
next
  assume s
  then show "\<exists>before. event_content b s l = before @ ascii ''Smoke seen''"
    by (simp add: event_content_cases)
qed

lemma event_nickname: "sender_nickname (event_message env b s l t) = sender_nickname_bytes (env_board_id env)"
  by (simp add: event_message_def Let_def setSenderNickname_def)

lemma event_genuine:
  assumes "b \<or> s \<or> l"
  shows "genuine (insert (event_message env b s l t) R) (event_message env b s l t)"
proof -
  let ?m = "event_message env b s l t"
  have "length (sender_nickname_bytes i) = 18" for i
    by (simp add: sender_nickname_bytes_def Let_def write_uint8_hex16_def write_data_take
        ble_smoke_detector_service_name_def ascii_def)
  then have "sound ?m"
    using event_content_bounds(2) [OF assms] event_content_bounds(1) [of b s l]
    by (simp add: sound_def event_nickname write_uint64_def)
  moreover have "alike ?m ?m" by (simp add: alike_def)
  ultimately show ?thesis by (simp add: genuine_def)
qed

lemma generate_cargo:
  assumes "cargo_ok R (connection_tracker d)"
  shows "cargo_ok (set (reported env d) \<union> R) (connection_tracker (generateMessageIfNeeded env d))"
    and "smoke_seen (generateMessageIfNeeded env d) \<Longrightarrow> smoke_seen d"
proof -
  have "cargo_ok (set (reported env d) \<union> R) (connection_tracker (generateMessageIfNeeded env d)) \<and>
      (smoke_seen (generateMessageIfNeeded env d) \<longrightarrow> smoke_seen d)"
  proof (cases "weHaveTheTime (connection_tracker d) \<and> (fresh_boot d \<or> smoke_seen d \<or> life_check d)")
    case True
    define m where "m = event_message env (fresh_boot d) (smoke_seen d) (life_check d) (connection_tracker d)"
    let ?R = "insert m R"
    have r: "reported env d = [m]" using True by (simp add: reported_def m_def)
    have "genuine ?R m" using event_genuine True unfolding m_def by simp
    moreover have "cargo_ok ?R (connection_tracker d)" using assms by (rule cargo_ok_mono) blast
    ultimately have "cargo_ok ?R (snd (storeMessageAndReturnIfNew m (connection_tracker d)))"
      by (rule store_message_cargo [rotated])
    moreover have "cargo_ok ?R (enqueueBroadcastPacket p t) = cargo_ok ?R t" for p t
      by (rule cargo_ok_same) simp
    ultimately show ?thesis
      using generate_form [OF conjunct1 [OF True] conjunct2 [OF True], of env, folded m_def]
      by (auto simp: Let_def split_def r smoke_same_device split: option.split)
  next
    case False
    then have "generateMessageIfNeeded env d = d"
      by (simp only: generateMessageIfNeeded_def Let_def simp_thms if_False)
    moreover have "reported env d = []" using False by (simp add: reported_def)
    ultimately show ?thesis using assms by simp
  qed
  then show "cargo_ok (set (reported env d) \<union> R) (connection_tracker (generateMessageIfNeeded env d))"
    and "smoke_seen (generateMessageIfNeeded env d) \<Longrightarrow> smoke_seen d" by blast+
qed

subsection \<open>No message from nowhere, no alarm without a detector\<close>

definition mesh_ok :: "(nat \<Rightarrow> u64) \<Rightarrow> mesh \<Rightarrow> bool" where
  "mesh_ok ids s \<longleftrightarrow>
     (\<forall>i. cargo_ok (snd ` set (raised s)) (connection_tracker (board s i))) \<and>
     (\<forall>i. smoke_seen (board s i) \<longrightarrow> i \<in> alarmed s) \<and>
     (\<forall>(i, r) \<in> set (raised s). packet_sender_id r = ids i \<and> channel r = ascii ''#smoke'' \<and>
        ((\<exists>before. content r = before @ ascii ''Smoke seen'') \<longrightarrow> i \<in> alarmed s))"

lemma mesh_ok_set_board:
  assumes "mesh_ok ids s"
    and "cargo_ok (snd ` set (raised s)) (connection_tracker u) \<and> smoke_seen u = smoke_seen (board s i)"
  shows "mesh_ok ids (set_board i u s)"
  using assms by (auto simp: mesh_ok_def set_board_def)

lemma air_carried:
  "mesh_ok ids s \<Longrightarrow> in_the_air s data \<Longrightarrow> carried (snd ` set (raised s)) data"
  unfolding mesh_ok_def in_the_air_def using cargo_okD(5) carried_other by blast

lemma reported_facts:
  assumes "r \<in> set (reported env d)"
  shows "packet_sender_id r = env_board_id env" "channel r = ascii ''#smoke''"
    "(\<exists>before. content r = before @ ascii ''Smoke seen'') \<longrightarrow> smoke_seen d"
  using assms event_content_smoke [of "fresh_boot d" "smoke_seen d" "life_check d"]
  by (auto simp: reported_def split: if_splits)

lemma mesh_step_ok:
  assumes "mesh_step ids s u" and "mesh_ok ids s"
  shows "mesh_ok ids u"
  using assms
proof (induction rule: mesh_step.induct)
  case (quiet s i u)
  then have "cargo_ok (snd ` set (raised s)) (connection_tracker (board s i))" by (simp add: mesh_ok_def)
  from quiet_cargo [OF quiet(1) this] quiet(2) show ?case by (rule mesh_ok_set_board [rotated])
next
  case (pin s i edge_fall pin events)
  then show ?case
    by (auto simp: mesh_ok_def set_board_def)
      (auto simp: gpio_callback_def Let_def smoke_same_device split: if_splits)
next
  case (generate env i s)
  let ?d = "board s i"
  let ?R = "snd ` set (raised s)"
  have cargo: "cargo_ok (set (reported env ?d) \<union> ?R) (connection_tracker (board s j))" for j
    using generate(2) cargo_ok_mono [of ?R _ "set (reported env ?d) \<union> ?R"] by (auto simp: mesh_ok_def)
  have all: "snd ` set (map (Pair i) (reported env ?d) @ raised s) = set (reported env ?d) \<union> ?R"
    by (simp add: image_Un image_image)
  have "cargo_ok ?R (connection_tracker ?d)" using generate(2) by (simp add: mesh_ok_def)
  note g = generate_cargo [OF this, of env]
  show ?case
    using generate g(2) cargo g(1) reported_facts [of _ env ?d]
    unfolding mesh_ok_def set_board_def by (auto simp: image_Un image_image)
next
  case (notified s data env h i u)
  then have "cargo_ok (snd ` set (raised s)) (connection_tracker (board s i))" by (simp add: mesh_ok_def)
  from notified_cargo [OF this air_carried [OF notified(3,1)] notified(2)] notified(3)
  show ?case by (rule mesh_ok_set_board [rotated])
next
  case (written s data env profile le16 nv con h mode i u)
  then have "cargo_ok (snd ` set (raised s)) (connection_tracker (board s i))" by (simp add: mesh_ok_def)
  from written_cargo [OF this air_carried [OF written(3,1)] written(2)] written(3)
  show ?case by (rule mesh_ok_set_board [rotated])
qed

lemma mesh_reachable_ok: "mesh_reachable ids s \<Longrightarrow> mesh_ok ids s"
proof (induction rule: mesh_reachable.induct)
  case init
  then show ?case by (simp add: mesh_ok_def mesh_start_def Device_init_def cargo_ok_init)
next
  case (step s u)
  then show ?case using mesh_step_ok by blast
qed

text \<open>
  No false alarm in a mesh. However many boards there are, whatever they do and however
  the radio loses, repeats, delays and misdirects packets: every message any board stores was
  raised by one of them, under that board's own id, and arrives as it was raised (id, text,
  channel, nickname, time and location) with at most three hops left. If its text says that
  smoke was seen, the smoke pin of that board did fall.
\<close>

theorem no_false_alarm:
  assumes "mesh_reachable ids s"
    and "map_find k (messages (connection_tracker (board s j))) = Some m"
  shows "\<exists>i r. (i, r) \<in> set (raised s) \<and> alike m r \<and> packet_sender_id m = ids i \<and>
    channel m = ascii ''#smoke'' \<and> packet_ttl m \<le> 3 \<and>
    ((\<exists>before. content m = before @ ascii ''Smoke seen'') \<longrightarrow> i \<in> alarmed s)"
proof -
  have ok: "mesh_ok ids s" using assms(1) by (rule mesh_reachable_ok)
  then have "genuine (snd ` set (raised s)) m"
    using cargo_okD(1) [OF _ assms(2)] by (simp add: mesh_ok_def)
  then obtain i r where r: "(i, r) \<in> set (raised s)" "alike m r" and "packet_ttl m \<le> 3"
    by (auto simp: genuine_def sound_def)
  moreover have "packet_sender_id r = ids i \<and> channel r = ascii ''#smoke'' \<and>
      ((\<exists>before. content r = before @ ascii ''Smoke seen'') \<longrightarrow> i \<in> alarmed s)"
    using ok r(1) by (auto simp: mesh_ok_def)
  ultimately show ?thesis by (intro exI [of _ i] exI [of _ r]) (auto simp: alike_def)
qed

definition time_announce :: announce where
  "time_announce = setName (setPacketTimestamp (setPacketTtl Announce_init 3) 1781273480000)
     (ascii ''phone'')"

definition time_packet :: bytes where
  "time_packet = fst (Announce_writePacket time_announce)"

lemma time_announce_valid:
  "packet_version time_announce = 1" "packet_type time_announce = type_announce"
  "\<not> hasSignature time_announce" "payload_length time_announce = 0"
  "length (direct_neighbors time_announce) \<le> 31"
  "Announce_writePacketPayload [] time_announce \<noteq> []" "length time_packet = 30"
  "Announce_writePacket time_announce = (time_packet, snd (Announce_writePacket time_announce))"
  "\<not> says_message time_packet"
  by code_simp+

lemma time_packet_short: "length time_packet < 65536"
  by (simp add: time_announce_valid)

lemma told_the_time:
  "case handle_gatt_client_value_update_event sample_env
       (Notification 0x40 time_packet (of_nat (length time_packet))) Device_init of
     None \<Rightarrow> False
   | Some u \<Rightarrow> weHaveTheTime (connection_tracker u) \<and> messages (connection_tracker u) = []"
  unfolding handle_gatt_client_value_update_event_def Let_def split_def value_update_event.case
    processWrite_announce [OF time_announce_valid(1-3) disjI1 [OF time_announce_valid(4)]
      time_announce_valid(5,6,8) time_packet_short] option.map
  by code_simp

theorem no_false_alarm_witness:
  "\<exists>s j k m. mesh_reachable (\<lambda>_. env_board_id sample_env) s \<and>
     map_find k (messages (connection_tracker (board s j))) = Some m \<and> 0 \<in> alarmed s \<and>
     (\<exists>i r. (i, r) \<in> set (raised s) \<and> alike m r)"
proof -
  let ?ids = "\<lambda>_ :: nat. env_board_id sample_env"
  obtain u where u: "handle_gatt_client_value_update_event sample_env
      (Notification 0x40 time_packet (of_nat (length time_packet))) (board mesh_start 0) = Some u"
    "weHaveTheTime (connection_tracker u)" "messages (connection_tracker u) = []"
    using told_the_time by (auto simp: mesh_start_def split: option.splits)
  define s1 where "s1 = set_board 0 u mesh_start"
  define d where "d = gpio_callback 4 SMOKE_SEEN_PIN 4 u"
  define s2 where "s2 = (set_board 0 d s1)\<lparr>alarmed := {0}\<rparr>"
  define s3 where "s3 = (set_board 0 (generateMessageIfNeeded sample_env d) s2)
      \<lparr>raised := map (Pair 0) (reported sample_env d) @ raised s2\<rparr>"
  have "in_the_air mesh_start time_packet" using time_announce_valid(9) by (simp add: in_the_air_def)
  from mesh_reachable.step [OF mesh_reachable.init mesh_step.notified [OF this u(1), of ?ids]]
  have r1: "mesh_reachable ?ids s1" by (simp add: s1_def)
  have "s2 = (set_board 0 (gpio_callback 4 SMOKE_SEEN_PIN 4 (board s1 0)) s1)
      \<lparr>alarmed := alarmed s1 \<union> (if SMOKE_SEEN_PIN = (SMOKE_SEEN_PIN :: u32) \<and> 4 AND (4 :: u32) \<noteq> 0
         then {0} else {})\<rparr>"
    by (simp add: s2_def s1_def d_def set_board_def mesh_start_def)
  with mesh_reachable.step [OF r1 mesh_step.pin [where ids = ?ids and s = s1 and i = 0
      and edge_fall = 4 and pin = SMOKE_SEEN_PIN and events = 4]]
  have r2: "mesh_reachable ?ids s2" by simp
  have b2: "board s2 0 = d" by (simp add: s2_def set_board_def)
  from mesh_reachable.step [OF r2 mesh_step.generate [of sample_env ?ids 0 s2]]
  have r3: "mesh_reachable ?ids s3" by (simp add: s3_def b2)
  have d: "weHaveTheTime (connection_tracker d)" "messages (connection_tracker d) = []" "smoke_seen d"
    using u by (simp_all add: d_def gpio_callback_def Let_def)
  let ?m = "event_message sample_env (fresh_boot d) (smoke_seen d) (life_check d) (connection_tracker d)"
  have pending: "fresh_boot d \<or> smoke_seen d \<or> life_check d" using d(3) by simp
  have "storeMessageAndReturnIfNew ?m (connection_tracker d) = (Some (MessageRef (message_id ?m)),
      (connection_tracker d)\<lparr>messages := map_put (message_id ?m) ?m (messages (connection_tracker d))\<rparr>)"
    using d(2) by (simp add: storeMessageAndReturnIfNew_def)
  then have found: "map_find (message_id ?m) (messages (connection_tracker (board s3 0))) = Some ?m"
    using generate_form [OF d(1) pending, of sample_env] by (simp add: s3_def set_board_def Let_def)
  have "0 \<in> alarmed s3" by (simp add: s3_def s2_def set_board_def)
  with r3 found no_false_alarm [OF r3 found] show ?thesis by blast
qed

subsection \<open>How far an alert travels\<close>

text \<open>
  A board that receives a packet sends on what it queued for broadcast: the packets as
  \<open>SendPacketToConnection\<close> writes them for every neighbour. \<open>pass_along\<close> follows the first of
  them along a path of boards until a board queues nothing; the trackers the path is left with
  are the result, \<open>None\<close> is a packet constructor that does not return.
\<close>

definition send_on :: "tracker \<Rightarrow> tracker \<Rightarrow> bytes list" where
  "send_on before after =
     map (\<lambda>p. fst (packet_write p after))
       (drop (length (broadcast_packets_to_send_list before)) (broadcast_packets_to_send_list after))"

fun pass_along :: "(environment \<times> ble_connection \<times> tracker) list \<Rightarrow> bytes \<Rightarrow> tracker list option" where
  "pass_along [] data = Some []"
| "pass_along ((env, con, t) # path) data =
     (case processWrite env con 0 data (of_nat (length data)) t of
        None \<Rightarrow> None
      | Some u \<Rightarrow>
          (case send_on t u of
             [] \<Rightarrow> Some (u # map (\<lambda>(env, con, t). t) path)
           | data' # _ \<Rightarrow> map_option (\<lambda>us. u # us) (pass_along path data')))"

lemma relayed_sound:
  assumes "sound m" and "map_find (message_id m) (messages t) = None"
  shows "\<exists>u r. processWrite env con 0 (fst (Message_writePacket m))
      (of_nat (length (fst (Message_writePacket m)))) t = Some u \<and>
    map_find (message_id m) (messages u) = Some r \<and> sound r \<and> alike r m \<and>
    packet_ttl r = packet_ttl m - (if packet_ttl m > 1 then 1 else 0) \<and>
    send_on t u = (if packet_ttl m > 1 then [fst (Message_writePacket r)] else [])"
proof -
  let ?w = "Message_writePacket m"
  have id: "take 255 (message_id m) = message_id m" using assms(1) by (simp add: sound_def)
  have new: "map_find (take 255 (message_id m)) (messages t) = None" using assms(2) id by simp
  define r where "r = (message_on_wire (snd ?w))\<lparr>sending_connection_handle := connection_handle con,
    packet_ttl := packet_ttl m - (if packet_ttl m > 1 then 1 else 0)\<rparr>"
  have "Message_writePacket m = (fst ?w, snd ?w)" by simp
  from message_travels_lemma [OF sound_valid [OF assms(1)] this new, of env con, folded r_def]
  obtain u where u: "processWrite env con 0 (fst ?w) (of_nat (length (fst ?w))) t = Some u"
    "map_find (message_id m) (messages u) = Some r"
    "broadcast_packets_to_send_list u = broadcast_packets_to_send_list t @
       (if packet_ttl m > 1 then [MessageRef (message_id m)] else [])"
    unfolding id by blast
  have "genuine {m} m" using assms(1) by (simp add: genuine_def alike_def)
  from genuine_received [OF this] have "genuine {m} (message_on_wire (snd ?w))" .
  moreover have "packet_ttl m - (if packet_ttl m > 1 then 1 else 0) \<le> 3"
    using assms(1) by (auto simp: sound_def word_le_nat_alt word_less_nat_alt unat_sub)
  ultimately have "genuine {m} r"
    unfolding r_def using genuine_updates(1) [OF genuine_updates(2)] by blast
  then have "sound r" "alike r m" by (auto simp: genuine_def)
  moreover have "send_on t u = (if packet_ttl m > 1 then [fst (Message_writePacket r)] else [])"
    using u(2,3) by (simp add: send_on_def packet_write_def Let_def split_def)
  moreover have "packet_ttl r = packet_ttl m - (if packet_ttl m > 1 then 1 else 0)"
    by (simp add: r_def)
  ultimately show ?thesis using u(1,2) by blast
qed

lemma pass_along_reach:
  assumes "sound m" and "packet_ttl m \<ge> 1"
    and "\<forall>(env, con, t) \<in> set path. map_find (message_id m) (messages t) = None"
  shows "\<exists>us. pass_along path (fst (Message_writePacket m)) = Some us \<and> length us = length path \<and>
    (\<forall>k < length path. if k < unat (packet_ttl m)
       then \<exists>r. map_find (message_id m) (messages (us ! k)) = Some r \<and> alike r m
       else us ! k = snd (snd (path ! k)))"
  using assms
proof (induction path arbitrary: m)
  case (Cons a path)
  obtain env con t where a: "a = (env, con, t)" by (cases a) auto
  have new: "map_find (message_id m) (messages t) = None" using Cons.prems(3) by (simp add: a)
  from relayed_sound [OF Cons.prems(1) new, of env con] obtain u r where
    u: "processWrite env con 0 (fst (Message_writePacket m))
      (of_nat (length (fst (Message_writePacket m)))) t = Some u"
    "map_find (message_id m) (messages u) = Some r" "sound r" "alike r m"
    "packet_ttl r = packet_ttl m - (if packet_ttl m > 1 then 1 else 0)"
    "send_on t u = (if packet_ttl m > 1 then [fst (Message_writePacket r)] else [])"
    by blast
  show ?case
  proof (cases "packet_ttl m > 1")
    case True
    have ttl: "unat (packet_ttl r) = unat (packet_ttl m) - 1" "packet_ttl r \<ge> 1"
      using True u(5) by (simp_all add: unat_sub word_le_nat_alt word_less_nat_alt)
    have id: "message_id r = message_id m" using u(4) by (simp add: alike_def)
    have rest: "\<forall>(env, con, t) \<in> set path. map_find (message_id r) (messages t) = None"
      using Cons.prems(3) by (auto simp: id)
    from Cons.IH [OF u(3) ttl(2) rest] obtain us where us:
      "pass_along path (fst (Message_writePacket r)) = Some us" "length us = length path"
      "\<forall>k < length path. if k < unat (packet_ttl m) - 1
         then \<exists>q. map_find (message_id m) (messages (us ! k)) = Some q \<and> alike q r
         else us ! k = snd (snd (path ! k))"
      unfolding ttl(1) id by blast
    have trans: "alike q m" if "alike q r" for q using that u(4) by (simp add: alike_def)
    have "if k < unat (packet_ttl m)
       then \<exists>q. map_find (message_id m) (messages ((u # us) ! k)) = Some q \<and> alike q m
       else (u # us) ! k = snd (snd ((a # path) ! k))" if "k < length (a # path)" for k
      using that us(3) u(2,4) True trans
      by (cases k) (auto simp: word_less_nat_alt split: if_splits)
    then show ?thesis using us(1,2) u(1,6) True by (intro exI [of _ "u # us"]) (simp add: a)
  next
    case False
    then have "unat (packet_ttl m) = 1"
      using Cons.prems(2) by (simp add: word_less_nat_alt word_le_nat_alt)
    then show ?thesis
      using False u(1,2,4,6)
      by (intro exI [of _ "u # map (\<lambda>(env, con, t). t) path"])
        (auto simp: a nth_Cons split_def split: nat.split)
  qed
qed simp

text \<open>
  C2: An alert travels three hops. Sent along any path of boards that have not seen it, it is
  stored unchanged by the first three, each of which passes it on until its hops are used up,
  and the boards behind them are left exactly as they were.
\<close>

theorem alert_travels_three_hops:
  assumes "boot \<or> smoke \<or> life" and "m = event_message env boot smoke life t"
    and "\<forall>(env, con, t) \<in> set path. map_find (message_id m) (messages t) = None"
  shows "\<exists>us. pass_along path (fst (Message_writePacket m)) = Some us \<and> length us = length path \<and>
    (\<forall>k < length path. if k < 3
       then \<exists>r. map_find (message_id m) (messages (us ! k)) = Some r \<and> alike r m
       else us ! k = snd (snd (path ! k)))"
proof -
  have "sound m"
    using event_genuine [OF assms(1), of env t "{}"] by (simp add: assms(2) genuine_def)
  moreover have "packet_ttl m = 3" by (simp add: assms(2))
  ultimately show ?thesis using pass_along_reach [OF _ _ assms(3)] by simp
qed

theorem alert_travels_three_hops_witness:
  "let m = event_message sample_env False True False Tracker_init;
       path = replicate 5 (sample_env, sample_connection, Tracker_init)
   in \<exists>us. pass_along path (fst (Message_writePacket m)) = Some us \<and>
        map_find (message_id m) (messages (us ! 2)) \<noteq> None \<and> us ! 3 = Tracker_init"
proof -
  let ?m = "event_message sample_env False True False Tracker_init"
  let ?path = "replicate 5 (sample_env, sample_connection, Tracker_init)"
  have some: "False \<or> True \<or> False" by simp
  have "\<forall>(env, con, t) \<in> set ?path. map_find (message_id ?m) (messages t) = None"
    by (simp add: Tracker_init_def)
  from alert_travels_three_hops [OF some refl this] obtain us where us:
    "pass_along ?path (fst (Message_writePacket ?m)) = Some us"
    "\<forall>k < 5. if k < 3 then \<exists>r. map_find (message_id ?m) (messages (us ! k)) = Some r \<and> alike r ?m
       else us ! k = snd (snd (?path ! k))"
    by auto
  from us(2) [rule_format, of 2] us(2) [rule_format, of 3] us(1)
  show ?thesis by (auto simp: Let_def)
qed

end
