(* ===== verification/Mesh_Types.thy ===== *)
theory Mesh_Types
  imports Mesh_Network
begin

section \<open>What the queues of a mesh hold\<close>

text \<open>
  The stores of a tracker keep messages and announces apart, and the queues and records point
  into them; what a pointer of each kind finds is of that class in every reachable mesh.
\<close>

definition queued_packets :: "tracker \<Rightarrow> packet_ref set" where
  "queued_packets t = set (broadcast_packets_to_send_list t) \<union>
     fst ` set (targeted_packets_to_send_list t) \<union> fst ` set (packets_connections_sent_list t) \<union>
     fst ` set (packets_peers_sent_list t)"

lemma queued_live:
  assumes "tracker_ok t" and "p \<in> queued_packets t"
  shows "packet_base t p \<noteq> None"
  using assms by (auto simp: queued_packets_def tracker_ok_def refs_ok_def live_packet_def)

lemma stored_well_formed:
  assumes "stores_ok t"
  shows "map_find i (messages t) = Some m \<Longrightarrow> \<not> malformed m \<and> message_id m = i"
    and "map_find h (announces t) = Some a \<Longrightarrow> \<not> malformed a"
  using assms by (fastforce simp: stores_ok_def map_find_Some_iff)+

text \<open>
  C11: Packets keep their type. In every mesh, whatever a board has queued, recorded as sent to
  a connection or recorded as sent to a peer is a packet it holds: a well-formed message with at
  most three hops left, filed under its own id, or a well-formed announce, or the board's own
  announce; and its type byte says so.
\<close>

theorem queued_packets_typed:
  assumes "mesh_reachable ids s" and "p \<in> queued_packets (connection_tracker (board s j))"
  shows "\<exists>b. packet_base (connection_tracker (board s j)) p = Some b \<and>
    (case p of
       MessageRef i \<Rightarrow> packet_type b = type_message \<and> packet_ttl b \<le> 3 \<and> \<not> malformed b \<and>
         (\<exists>m. map_find i (messages (connection_tracker (board s j))) = Some m \<and> message_id m = i)
     | AnnounceRef h \<Rightarrow> packet_type b = type_announce \<and> \<not> malformed b
     | OwnAnnounceRef \<Rightarrow> packet_type b = type_announce)"
proof -
  let ?t = "connection_tracker (board s j)"
  have ok: "tracker_ok ?t" by (rule reachable_ok [OF mesh_boards_reachable [OF assms(1)]])
  have cargo: "cargo_ok (snd ` set (raised s)) ?t"
    using mesh_reachable_ok [OF assms(1)] by (simp add: mesh_ok_def)
  obtain b where "packet_base ?t p = Some b" using queued_live [OF ok assms(2)] by blast
  then show ?thesis
    using cargo_okD(1,2,6) [OF cargo] stored_well_formed [OF ok_stores [OF ok]]
    by (fastforce simp: packet_base_def base_of_def genuine_def sound_def
        split: packet_ref.splits option.splits)
qed

text \<open>The witness: a board that was told the time has the announce to relay.\<close>

lemma told_relays:
  "case handle_gatt_client_value_update_event sample_env
       (Notification 0x40 time_packet (of_nat (length time_packet))) Device_init of
     None \<Rightarrow> False
   | Some u \<Rightarrow> broadcast_packets_to_send_list (connection_tracker u) \<noteq> []"
  unfolding handle_gatt_client_value_update_event_def Let_def split_def value_update_event.case
    processWrite_announce [OF time_announce_valid(1-3) disjI1 [OF time_announce_valid(4)]
      time_announce_valid(5,6,8) time_packet_short] option.map
  by code_simp

theorem queued_packets_typed_witness:
  "\<exists>s p b. mesh_reachable (\<lambda>_. env_board_id sample_env) s \<and>
     p \<in> queued_packets (connection_tracker (board s 0)) \<and>
     packet_base (connection_tracker (board s 0)) p = Some b"
proof -
  let ?ids = "\<lambda>_ :: nat. env_board_id sample_env"
  obtain u where u: "handle_gatt_client_value_update_event sample_env
      (Notification 0x40 time_packet (of_nat (length time_packet))) (board mesh_start 0) = Some u"
    "broadcast_packets_to_send_list (connection_tracker u) \<noteq> []"
    using told_relays by (auto simp: mesh_start_def split: option.splits)
  define s where "s = set_board 0 u mesh_start"
  have "in_the_air mesh_start time_packet" using time_announce_valid(9) by (simp add: in_the_air_def)
  from mesh_reachable.step [OF mesh_reachable.init mesh_step.notified [OF this u(1), of ?ids]]
  have r: "mesh_reachable ?ids s" by (simp add: s_def)
  obtain p where p: "p \<in> queued_packets (connection_tracker (board s 0))"
    using u(2) by (cases "broadcast_packets_to_send_list (connection_tracker u)")
      (auto simp: queued_packets_def s_def set_board_def)
  show ?thesis using queued_packets_typed [OF r p] r p by blast
qed

end
