(* ===== verification/Device_Setup.thy ===== *)
theory Device_Setup
  imports Device_Reachable
begin

section \<open>main.cpp: setting the board up\<close>

text \<open>
  What \<open>main\<close> asks of the SDK before its loop, as the sequence of calls it makes, and the
  advertising buffers that the first event of the stack fills. A failed initialisation waits in
  place until the exit pin falls. Printing is left out, with the loading of log lines.
\<close>

datatype sdk_call =
    SetSysClockKhz u32 bool | SetPioClockDivider u16 u8 | StdioInitAll
  | GpioInit u32 | GpioSetDirIn u32 | GpioPullUp u32 | GpioPullDown u32
  | GpioIrqWithCallback u32 u32 bool
  | WaitMs u32 | Cyw43ArchInit | LedPut bool
  | L2capInit | GattClientInit | SmInit | SmNoInputNoOutput
  | AttServerInit | HciAddEventHandler | SmAddEventHandler | AttRegisterPacketHandler
  | ScanTimerProcess | HciPowerOn
  | GapMaxPeripherals u16
  | GapAdvParams u16 u16 u8 u8 bytes u8 u8 | GapAdvData u8 bytes | GapScanResponse u8 bytes
  | GapAdvEnable bool
  | GapScanParams u8 u16 u16 u8 | GapScanDuplicateFilter bool | GapStartScan
  | SetScanTimer u32 | AddScanTimer

subsection \<open>The advertising buffers\<close>

text \<open>
  The buffers and their lengths are globals. Writing and copying at the length is
  \<open>buffer_append\<close>; \<open>None\<close> is a write behind the array.
\<close>

record advert_memory =
  adv_data :: bytes
  adv_data_len :: u8
  scan_response_data :: bytes
  scan_response_data_len :: u8

definition advert_memory_init :: advert_memory where
  "advert_memory_init =
     \<lparr>adv_data = replicate BLE_ADVERTISING_MAX_LENGTH 0, adv_data_len = 0,
      scan_response_data = replicate BLE_ADVERTISING_MAX_LENGTH 0, scan_response_data_len = 0\<rparr>"

definition buffer_append :: "u8 \<Rightarrow> bytes \<Rightarrow> bytes \<Rightarrow> bytes option" where
  "buffer_append len data mem =
     (if unat len + length data \<le> length mem
      then Some (take (unat len) mem @ data @ drop (unat len + length data) mem) else None)"

definition adv_append :: "bytes \<Rightarrow> advert_memory \<Rightarrow> advert_memory option" where
  "adv_append data s =
     map_option (\<lambda>mem. s\<lparr>adv_data := mem, adv_data_len := adv_data_len s + of_nat (length data)\<rparr>)
       (buffer_append (adv_data_len s) data (adv_data s))"

definition scan_response_append :: "bytes \<Rightarrow> advert_memory \<Rightarrow> advert_memory option" where
  "scan_response_append data s =
     map_option (\<lambda>mem. s\<lparr>scan_response_data := mem,
         scan_response_data_len := scan_response_data_len s + of_nat (length data)\<rparr>)
       (buffer_append (scan_response_data_len s) data (scan_response_data s))"

text \<open>
  \<open>populate_advertising_data\<close> on the globals; \<open>populate_advertising_data\<close> of \<open>Device_Main\<close> is
  what it writes when it starts at length 0.
\<close>

definition populate_advertising_memory ::
  "ad_type_bytes \<Rightarrow> u64 \<Rightarrow> advert_memory \<Rightarrow> advert_memory option" where
  "populate_advertising_memory ad sender s0 =
     Option.bind (adv_append [0x2, ad_flags ad, 0x06] s0) (\<lambda>s1.
     Option.bind (adv_append ([17, ad_incomplete_128 ad] @ packet_service_uuid_reversed) s1) (\<lambda>s2.
     let name_len = of_nat (length ble_smoke_detector_service_name);
         fitable_name_len = min (31 - adv_data_len s2 - 2) name_len
     in Option.bind (adv_append [fitable_name_len + 1,
            if fitable_name_len = name_len then ad_complete_name ad else ad_short_name ad] s2) (\<lambda>s3.
     Option.bind (adv_append (take (unat fitable_name_len) ble_smoke_detector_service_name) s3) (\<lambda>s4.
     let serviceData = write_uint64 [] sender;
         sender_id_len = min (31 - 18 - 2) (of_nat (length serviceData))
     in Option.bind (scan_response_append [17 + sender_id_len, ad_service_data_128 ad] s4) (\<lambda>s5.
     Option.bind (scan_response_append packet_service_uuid_reversed s5) (\<lambda>s6.
     if unat fitable_name_len \<le> length serviceData
     then scan_response_append (take (unat fitable_name_len) serviceData) s6
     else None))))))"

definition setup_advertisements ::
  "ad_type_bytes \<Rightarrow> u64 \<Rightarrow> advert_memory \<Rightarrow> (sdk_call list \<times> advert_memory) option" where
  "setup_advertisements ad sender s =
     map_option (\<lambda>u.
       ([GapAdvParams (30000 div 625) (40000 div 625) 0 0 (replicate 6 0) 0x07 0x00,
         GapAdvData (adv_data_len u) (adv_data u),
         GapScanResponse (scan_response_data_len u) (scan_response_data u),
         GapAdvEnable True], u))
       (populate_advertising_memory ad sender s)"

definition start_scanning_calls :: "sdk_call list" where
  "start_scanning_calls = [GapStartScan, SetScanTimer 2000, AddScanTimer]"

definition setup_scanning_calls :: "sdk_call list" where
  "setup_scanning_calls =
     [GapScanParams 1 0x0030 0x0030 0, GapScanDuplicateFilter True] @ start_scanning_calls"

text \<open>\<open>BTSTACK_EVENT_STATE\<close>: the calls that go with what the event does to the device.\<close>

definition on_stack_state :: "environment \<Rightarrow> ad_type_bytes \<Rightarrow> bool \<Rightarrow> advert_memory \<Rightarrow> device
    \<Rightarrow> (sdk_call list \<times> advert_memory \<times> device) option" where
  "on_stack_state env ad working s d =
     (if \<not> working then Some ([], s, hci_packet_handler env (StackState False) d)
      else map_option (\<lambda>(calls, u).
             ([GapMaxPeripherals 4] @ calls @ setup_scanning_calls, u,
              hci_packet_handler env (StackState True) d))
           (setup_advertisements ad (env_board_id env) s))"

subsection \<open>Clock and pins\<close>

text \<open>\<open>KHZ\<close> is a constant of the SDK, the first argument.\<close>

definition reduce_clock :: "u32 \<Rightarrow> u32 \<Rightarrow> sdk_call list" where
  "reduce_clock khz speed =
     SetSysClockKhz (speed * khz) False # (if speed < 63 then [SetPioClockDivider 1 0] else [])"

abbreviation (input) KEEP_ALIVE_PIN :: u32 where "KEEP_ALIVE_PIN \<equiv> 16"

definition setup_gpio_callback :: "u32 \<Rightarrow> sdk_call list" where
  "setup_gpio_callback edge_fall =
     [GpioInit EXIT_GPIO_PIN, GpioSetDirIn EXIT_GPIO_PIN, GpioPullUp EXIT_GPIO_PIN,
      GpioInit SMOKE_SEEN_PIN, GpioSetDirIn SMOKE_SEEN_PIN, GpioPullUp SMOKE_SEEN_PIN,
      GpioInit LIFE_CHECK_PIN, GpioSetDirIn LIFE_CHECK_PIN, GpioPullUp LIFE_CHECK_PIN,
      GpioIrqWithCallback EXIT_GPIO_PIN edge_fall True,
      GpioIrqWithCallback SMOKE_SEEN_PIN edge_fall True,
      GpioIrqWithCallback LIFE_CHECK_PIN edge_fall True]"

definition setup_keep_alive_pin :: "sdk_call list" where
  "setup_keep_alive_pin =
     [GpioInit KEEP_ALIVE_PIN, GpioSetDirIn KEEP_ALIVE_PIN, GpioPullDown KEEP_ALIVE_PIN]"

subsection \<open>main\<close>

text \<open>
  \<open>while (keep_running) __wfi();\<close> on the interrupts that arrive, a pin and its events each. The
  first component says whether the wait has ended.
\<close>

fun wait_for_exit :: "u32 \<Rightarrow> (u32 \<times> u32) list \<Rightarrow> device \<Rightarrow> bool \<times> (u32 \<times> u32) list \<times> device" where
  "wait_for_exit edge_fall [] d = (\<not> keep_running d, [], d)"
| "wait_for_exit edge_fall ((gpio, events) # irqs) d =
     (if keep_running d then wait_for_exit edge_fall irqs (gpio_callback edge_fall gpio events d)
      else (True, (gpio, events) # irqs, d))"

text \<open>
  The constants of the SDK and of the build, and the results of the two calls that can fail.
\<close>

record board =
  khz_constant :: u32
  edge_fall_bit :: u32
  is_rp2040 :: bool
  debug_build :: bool
  arch_init_result :: int
  power_on_result :: int

datatype setup_phase = WaitsAtArch | CrashesAtPreferences | WaitsAtPower | EntersLoop

definition main_before_arch :: "board \<Rightarrow> sdk_call list" where
  "main_before_arch b =
     (if is_rp2040 b then reduce_clock (khz_constant b) (if debug_build b then 44 else 18) else []) @
     [StdioInitAll] @ setup_keep_alive_pin @ setup_gpio_callback (edge_fall_bit b) @
     [WaitMs 1000, Cyw43ArchInit]"

definition main_bluetooth :: "sdk_call list" where
  "main_bluetooth =
     [LedPut True, L2capInit, GattClientInit, SmInit, SmNoInputNoOutput, AttServerInit,
      HciAddEventHandler, SmAddEventHandler, AttRegisterPacketHandler, ScanTimerProcess, HciPowerOn]"

text \<open>
  \<open>main\<close> up to its loop. \<open>early\<close> are the interrupts of the pause before the driver is
  initialised, \<open>irqs\<close> those that arrive while \<open>main\<close> waits.
\<close>

definition main_setup :: "environment \<Rightarrow> board \<Rightarrow> flash_device \<Rightarrow> bytes \<Rightarrow> (u32 \<times> u32) list
    \<Rightarrow> (u32 \<times> u32) list \<Rightarrow> device \<Rightarrow> setup_phase \<times> sdk_call list \<times> device" where
  "main_setup env b fl sector early irqs d =
     (let fall = edge_fall_bit b;
          calls = main_before_arch b;
          d0 = fold (\<lambda>(gpio, events). gpio_callback fall gpio events) early d;
          (done1, irqs1, d1) = (if arch_init_result b \<noteq> 0 then wait_for_exit fall irqs d0
                                else (True, irqs, d0))
      in if \<not> done1 then (WaitsAtArch, calls, d1)
         else case boot_preferences env fl sector (connection_tracker d1) of
                None \<Rightarrow> (CrashesAtPreferences, calls @ [LedPut True], d1)
              | Some t \<Rightarrow>
                  let d2 = d1\<lparr>connection_tracker := t\<rparr>;
                      (done2, irqs2, d3) =
                        (if power_on_result b \<noteq> 0 then wait_for_exit fall irqs1 d2
                         else (True, irqs1, d2))
                  in (if done2 then EntersLoop else WaitsAtPower, calls @ main_bluetooth, d3))"

text \<open>\<open>main\<close>, with the rounds of its loop; a \<open>main\<close> that waits has no state of the loop.\<close>

definition main_program :: "environment \<Rightarrow> board \<Rightarrow> flash_device \<Rightarrow> bytes \<Rightarrow> (u32 \<times> u32) list
    \<Rightarrow> (u32 \<times> u32) list \<Rightarrow> u64
    \<Rightarrow> (environment \<times> (device \<Rightarrow> device option) \<times> (clock_point \<Rightarrow> u64) \<times> u8) list
    \<Rightarrow> setup_phase \<times> sdk_call list \<times> device \<times> main_state option" where
  "main_program env b fl sector early irqs now inputs =
     (let (phase, calls, d) = main_setup env b fl sector early irqs Device_init
      in (phase, calls, d, if phase = EntersLoop then main_loop inputs (main_init now d) else None))"

end
