(* ===== verification/Setup_Properties.thy ===== *)
theory Setup_Properties
  imports Device_Setup Processor_Properties
begin

section \<open>What holds of the set-up\<close>

subsection \<open>Advertising\<close>

lemma advert_lengths:
  "length ble_smoke_detector_service_name = 13" "length packet_service_uuid_reversed = 16"
  "take 8 ble_smoke_detector_service_name = ascii ''SmokeDet''"
  by code_simp+

text \<open>The buffers with \<open>adv\<close> and \<open>resp\<close> written and \<open>j\<close> and \<open>k\<close> bytes left.\<close>

definition filled :: "bytes \<Rightarrow> nat \<Rightarrow> bytes \<Rightarrow> nat \<Rightarrow> advert_memory" where
  "filled adv j resp k =
     \<lparr>adv_data = adv @ replicate j 0, adv_data_len = of_nat (length adv),
      scan_response_data = resp @ replicate k 0, scan_response_data_len = of_nat (length resp)\<rparr>"

lemma buffer_append_filled:
  assumes "length data \<le> k" and "length done \<le> 31"
  shows "buffer_append (of_nat (length done)) data (done @ replicate k 0) =
    Some ((done @ data) @ replicate (k - length data) 0)"
proof -
  have "unat (of_nat (length done) :: u8) = length done" using assms(2) by (simp add: unat_of_nat)
  then show ?thesis using assms(1) by (simp add: buffer_append_def)
qed

lemma filled_len [simp]: "adv_data_len (filled adv j resp k) = of_nat (length adv)"
  by (simp add: filled_def)

lemma append_filled:
  "length data \<le> j \<Longrightarrow> length adv \<le> 31 \<Longrightarrow>
     adv_append data (filled adv j resp k) = Some (filled (adv @ data) (j - length data) resp k)"
  "length data \<le> k \<Longrightarrow> length resp \<le> 31 \<Longrightarrow>
     scan_response_append data (filled adv j resp k) = Some (filled adv j (resp @ data) (k - length data))"
  by (simp_all add: adv_append_def scan_response_append_def filled_def buffer_append_filled)

lemma populate_first:
  "populate_advertising_memory ad sender advert_memory_init =
     Some (filled ([2, ad_flags ad, 6] @ [17, ad_incomplete_128 ad] @ packet_service_uuid_reversed @
             [9, ad_short_name ad] @ ascii ''SmokeDet'') 0
            ([25, ad_service_data_128 ad] @ packet_service_uuid_reversed @ write_uint64 [] sender) 5)"
proof -
  have init: "advert_memory_init = filled [] 31 [] 31" by (simp add: advert_memory_init_def filled_def)
  have name: "length (ascii ''SmokeDet'') = 8" by (simp add: ascii_def)
  show ?thesis
    unfolding populate_advertising_memory_def init
    by (simp add: append_filled advert_lengths name Let_def)
qed

text \<open>
  C33: The advertising buffers can be filled once. On the first event that the stack works, the
  stack is given an advertisement of exactly 31 bytes (flags, service, as much of the name as
  fits) and a scan response of 26 (service and all eight bytes of the sender id), and the scan
  starts. The lengths are never reset: on a second such event, after the stack was restarted,
  the first write already lies behind the array.
\<close>

theorem adverts_written_once:
  "\<exists>calls s u.
     on_stack_state env ad True advert_memory_init d = Some (calls, s, u) \<and>
     GapAdvData 31 ([2, ad_flags ad, 6] @ [17, ad_incomplete_128 ad] @ packet_service_uuid_reversed @
       [9, ad_short_name ad] @ ascii ''SmokeDet'') \<in> set calls \<and>
     GapScanResponse 26 ([25, ad_service_data_128 ad] @ packet_service_uuid_reversed @
       write_uint64 [] (env_board_id env) @ replicate 5 0) \<in> set calls \<and>
     GapStartScan \<in> set calls \<and> scanning u \<and>
     (\<forall>v. on_stack_state env ad True s v = None)"
proof -
  define adv where "adv = [2, ad_flags ad, 6] @ [17, ad_incomplete_128 ad] @
      packet_service_uuid_reversed @ [9, ad_short_name ad] @ ascii ''SmokeDet''"
  define resp where "resp = [25, ad_service_data_128 ad] @ packet_service_uuid_reversed @
      write_uint64 [] (env_board_id env)"
  have len: "length adv = 31" "length resp = 26" by (simp_all add: adv_def resp_def advert_lengths ascii_def)
  have "populate_advertising_memory ad (env_board_id env) advert_memory_init = Some (filled adv 0 resp 5)"
    by (simp only: populate_first adv_def resp_def)
  moreover have "populate_advertising_memory ad (env_board_id env) (filled adv 0 resp 5) = None"
    by (simp add: populate_advertising_memory_def adv_append_def buffer_append_def filled_def len)
  moreover have "scanning (hci_packet_handler env (StackState True) d)"
    by (simp add: hci_packet_handler_def Let_def setup_scanning_def start_scanning_for_local_nodes_def)
  ultimately have "\<exists>calls s u. on_stack_state env ad True advert_memory_init d = Some (calls, s, u) \<and>
      GapAdvData 31 adv \<in> set calls \<and> GapScanResponse 26 (resp @ replicate 5 0) \<in> set calls \<and>
      GapStartScan \<in> set calls \<and> scanning u \<and> (\<forall>v. on_stack_state env ad True s v = None)"
    by (simp add: on_stack_state_def setup_advertisements_def setup_scanning_calls_def
        start_scanning_calls_def) (simp add: filled_def len)
  then show ?thesis unfolding adv_def resp_def append_assoc .
qed

text \<open>
  \<open>ad_iterator\<close> is code of the Bluetooth stack, so what it yields is a parameter: a function from
  an advertisement to the types and the memory from each data on. The hypothesis is the format of
  an advertisement in the Bluetooth specification: a length byte, which counts the type and the
  data, the type, the data, and the next structure behind.
\<close>

definition ad_iterates :: "(bytes \<Rightarrow> (u8 \<times> bytes) list) \<Rightarrow> bool" where
  "ad_iterates entries \<longleftrightarrow> entries [] = [] \<and>
     (\<forall>len ty data rest. unat len = length data + 1 \<longrightarrow>
        entries (len # ty # data @ rest) = (ty, data @ rest) # entries rest)"

lemma ad_iteratesD:
  assumes "ad_iterates entries"
  shows "entries [] = []"
    and "unat len = length data + 1 \<Longrightarrow> entries (len # ty # data @ rest) = (ty, data @ rest) # entries rest"
  using assms by (simp_all add: ad_iterates_def)

lemma detector_advert_fields:
  assumes "ad_iterates entries"
  shows "entries (fst (populate_advertising_data ad sender)) =
      [(ad_flags ad, [6, 17, ad_incomplete_128 ad] @ packet_service_uuid_reversed @
          [9, ad_short_name ad] @ ascii ''SmokeDet''),
       (ad_incomplete_128 ad, packet_service_uuid_reversed @ [9, ad_short_name ad] @ ascii ''SmokeDet''),
       (ad_short_name ad, ascii ''SmokeDet'')]"
proof -
  have name: "length (ascii ''SmokeDet'') = 8" by (simp add: ascii_def)
  note parse = ad_iteratesD(2) [OF assms]
  have "fst (populate_advertising_data ad sender) =
      2 # ad_flags ad # [6] @ 17 # ad_incomplete_128 ad # packet_service_uuid_reversed @
      9 # ad_short_name ad # ascii ''SmokeDet'' @ []"
    by (simp add: populate_advertising_data_def Let_def advert_lengths)
  then show ?thesis
    using parse [of 2 "[6]"] parse [of 17 packet_service_uuid_reversed]
      parse [of 9 "ascii ''SmokeDet''" "ad_short_name ad" "[]"] ad_iteratesD(1) [OF assms]
    by (simp add: advert_lengths name)
qed

lemma detector_advert_status:
  assumes "distinct [ad_flags ad, ad_incomplete_128 ad, ad_short_name ad, ad_complete_name ad,
      complete_128, solicitation_128]" and "ad_iterates entries"
  shows "check_for_uuid ad complete_128 solicitation_128
    (entries (fst (populate_advertising_data ad sender))) = ServiceUUIDFound"
proof -
  have "take (length packet_service_name) (ascii ''SmokeDet'') \<noteq> packet_service_name"
    by code_simp
  then show ?thesis
    using assms(1)
    unfolding detector_advert_fields [OF assms(2)] by (auto simp: check_for_uuid_def advert_lengths)
qed

text \<open>
  C21: Detectors find each other, but only one that knows the time connects. The advertisement of
  one board splits into flags, service and shortened name. Reported to another that has not seen
  it, it makes a neighbour whose service was found, and that neighbour is among those the other
  board may connect to exactly when this board knows the time and the address is not a random
  one. If it is the only neighbour, not connected already, and the stack accepts, then
  \<open>connect_to_first_neighbour\<close> starts a connection in exactly those cases. A detector without the
  time waits for a repeater or for being connected to.
\<close>

theorem detector_is_seen:
  assumes "distinct [ad_flags ad, ad_incomplete_128 ad, ad_short_name ad, ad_complete_name ad,
      complete_128, solicitation_128]"
    and "ad_iterates entries"
    and "tracker_ok (connection_tracker d)"
    and "map_find (take 6 address) (available_neighbours (connection_tracker d)) = None"
    and "adv = fst (populate_advertising_data ad sender)"
    and "services = check_for_uuid ad complete_128 solicitation_128 (entries adv)"
  shows "let seen = hci_packet_handler env (AdvertisingReport address address_type strength services) d;
             u = connection_tracker seen;
             connects = (weHaveTheTime (connection_tracker d) \<and> address_type \<noteq> BD_ADDR_TYPE_LE_RANDOM)
    in map fst (entries adv) = [ad_flags ad, ad_incomplete_128 ad, ad_short_name ad] \<and>
       (\<exists>c. map_find (take 6 address) (available_neighbours u) = Some c \<and>
          services_found c = ServiceUUIDFound \<and> rssi c = strength) \<and>
       (take 6 address \<in> set (getConnectableNeighbours u) \<longleftrightarrow> connects) \<and>
       (available_neighbours (connection_tracker d) = [] \<and>
          getConnectionForAddress address (connection_tracker d) = None \<longrightarrow>
        fst (connect_to_first_neighbour 0 seen) = connects \<and>
        (connects \<longrightarrow> connection_in_progress (snd (connect_to_first_neighbour 0 seen))))"
proof -
  let ?t = "connection_tracker d"
  define a where "a = take 6 address"
  define c where "c = setUseCodedPhy (setTimestamp (setRssi (setServices (setBleAddress
      BleConnection_blank address address_type) services) strength) (env_time_us env)) False"
  define seen where "seen = hci_packet_handler env (AdvertisingReport address address_type strength services) d"
  define u where "u = connection_tracker seen"
  have types: "map fst (entries adv) = [ad_flags ad, ad_incomplete_128 ad, ad_short_name ad]"
    unfolding assms(5) detector_advert_fields [OF assms(2)] by simp
  have found: "services = ServiceUUIDFound"
    using detector_advert_status [OF assms(1,2)] assms(5,6) by simp
  have c: "services_found c = ServiceUUIDFound" "rssi c = strength" "\<not> connected c" "fail_reason c = 0"
    "isRandom c \<longleftrightarrow> address_type = BD_ADDR_TYPE_LE_RANDOM" "\<not> isRepeater c" "bt_address c = a"
    by (simp_all add: c_def found setUseCodedPhy_def setTimestamp_def setRssi_def setServices_def
        setBleAddress_def BleConnection_blank_def isRandom_def isRepeater_def a_def)
  have u: "u = addAvailablePeer env address address_type services strength False ?t"
    by (simp add: u_def seen_def hci_packet_handler_def Let_def found on_tracker_def bump_activity_def)
  have neighbour: "map_find a (available_neighbours u) = Some c"
    using assms(4)
    by (simp add: u addAvailablePeer_def Let_def updateRssiForActiveConnections_def a_def c_def
        map_at_def)
  have time: "weHaveTheTime u = weHaveTheTime ?t"
    by (simp add: u addAvailablePeer_def Let_def updateRssiForActiveConnections_def weHaveTheTime_def)
  have sorted: "map_sorted (available_neighbours u)"
    using addAvailablePeer_stores [OF ok_stores [OF assms(3)]] by (simp add: u stores_ok_def)
  have only: "(a, b) \<in> set (available_neighbours u) \<longleftrightarrow> b = c" for b
    using neighbour map_find_Some_iff [OF sorted, of a b] by auto
  have "a \<in> set (getConnectableNeighbours u) \<longleftrightarrow> weHaveTheTime u \<and> \<not> isRandom c"
    unfolding getConnectableNeighbours_def
    by (auto simp: image_iff Bex_def only c(3,4,6))
  then have may: "a \<in> set (getConnectableNeighbours u) \<longleftrightarrow>
      weHaveTheTime ?t \<and> address_type \<noteq> BD_ADDR_TYPE_LE_RANDOM"
    using c(5) time by simp
  have "fst (connect_to_first_neighbour 0 seen) =
        (weHaveTheTime ?t \<and> address_type \<noteq> BD_ADDR_TYPE_LE_RANDOM) \<and>
      (weHaveTheTime ?t \<and> address_type \<noteq> BD_ADDR_TYPE_LE_RANDOM \<longrightarrow>
        connection_in_progress (snd (connect_to_first_neighbour 0 seen)))"
    if first: "available_neighbours ?t = []" and new: "getConnectionForAddress address ?t = None"
  proof -
    have "available_neighbours u = [(a, c)]"
      using first by (simp add: u addAvailablePeer_def Let_def updateRssiForActiveConnections_def
          map_alter_def map_at_def map_find_def a_def c_def)
    then have list: "getConnectableNeighbours u =
        (if weHaveTheTime ?t \<and> address_type \<noteq> BD_ADDR_TYPE_LE_RANDOM then [a] else [])"
      by (simp add: getConnectableNeighbours_def time c)
    have "getConnectionForAddress (bt_address c) u = None"
      using new
      by (auto simp: getConnectionForAddress_def find_None_iff c(7) u addAvailablePeer_def Let_def
          updateRssiForActiveConnections_def setRssi_def a_def split: if_split_asm)
    then show ?thesis
      by (simp add: connect_to_first_neighbour_def Let_def u_def [symmetric] list map_at_def neighbour)
  qed
  then show ?thesis
    using types neighbour c(1,2) may by (simp add: Let_def u_def seen_def a_def)
qed

text \<open>
  The witness: the assigned numbers of the Bluetooth specification, a board that was just started,
  and an iterator that reads the format.
\<close>

fun ad_structures :: "nat \<Rightarrow> bytes \<Rightarrow> (u8 \<times> bytes) list" where
  "ad_structures (Suc n) (len # ty # rest) =
     (ty, rest) # ad_structures n (drop (unat len - 1) rest)"
| "ad_structures n adv = []"

lemma ad_structures_short [simp]: "ad_structures n [] = []" "ad_structures n [b] = []"
  by (cases n; simp)+

lemma ad_structures_fuel:
  "length adv \<le> n \<Longrightarrow> length adv \<le> m \<Longrightarrow> ad_structures n adv = ad_structures m adv"
proof (induction n arbitrary: adv m)
  case (Suc n)
  consider "adv = []" | b where "adv = [b]" | len ty rest where "adv = len # ty # rest"
    by (metis list.exhaust)
  then show ?case
  proof cases
    case 3
    then obtain k where "m = Suc k" using Suc.prems by (cases m) auto
    then show ?thesis using 3 Suc by simp
  qed simp_all
qed simp

lemma ad_structures_iterates: "ad_iterates (\<lambda>adv. ad_structures (length adv) adv)"
  by (auto simp: ad_iterates_def intro: ad_structures_fuel)

theorem detector_is_seen_witness:
  "\<exists>c. map_find [1, 2, 3, 4, 5, 6] (available_neighbours (connection_tracker (hci_packet_handler
     sample_env (AdvertisingReport [1, 2, 3, 4, 5, 6] 0 200
       (check_for_uuid \<lparr>ad_flags = 1, ad_incomplete_128 = 6, ad_short_name = 8, ad_complete_name = 9,
          ad_service_data_128 = 0x21\<rparr> 7 0x15 (ad_structures 31 (fst (populate_advertising_data
        \<lparr>ad_flags = 1, ad_incomplete_128 = 6, ad_short_name = 8, ad_complete_name = 9,
          ad_service_data_128 = 0x21\<rparr> 0x0102030405060708))))) Device_init))) = Some c"
proof -
  let ?ad = "\<lparr>ad_flags = 1, ad_incomplete_128 = 6, ad_short_name = 8, ad_complete_name = 9,
      ad_service_data_128 = 0x21\<rparr>"
  let ?adv = "fst (populate_advertising_data ?ad 0x0102030405060708)"
  have types: "distinct [ad_flags ?ad, ad_incomplete_128 ?ad, ad_short_name ?ad, ad_complete_name ?ad,
      7, 0x15]" by simp
  have ok: "tracker_ok (connection_tracker Device_init)"
    by (simp add: Device_init_def Tracker_init_def tracker_ok_def stores_ok_def refs_ok_def
        mm_sorted_def)
  have new: "map_find (take 6 [1, 2, 3, 4, 5, 6]) (available_neighbours (connection_tracker Device_init)) =
      None"
    by (simp add: Device_init_def Tracker_init_def)
  have "length ?adv = 31" by code_simp
  then show ?thesis
    using detector_is_seen [OF types ad_structures_iterates ok new refl refl,
      where env = sample_env and address_type = 0 and strength = 200 and sender = "0x0102030405060708"]
    by (auto simp: Let_def)
qed

subsection \<open>Pins\<close>

text \<open>The calls that set a pin up.\<close>

definition concerns_pin :: "u32 \<Rightarrow> sdk_call \<Rightarrow> bool" where
  "concerns_pin pin c \<longleftrightarrow>
     (case c of GpioInit p \<Rightarrow> p = pin | GpioSetDirIn p \<Rightarrow> p = pin | GpioPullUp p \<Rightarrow> p = pin
      | GpioPullDown p \<Rightarrow> p = pin | GpioIrqWithCallback p e on \<Rightarrow> p = pin | _ \<Rightarrow> False)"

text \<open>
  The pins that \<open>gpio_callback\<close> reacts to are exactly those \<open>main\<close> enables interrupts for.
  Each is first initialised, made an input and pulled up, and only a falling edge counts: an
  interrupt without it changes nothing but the activity counter, so that a pin that is pulled up
  to indicate smoke, as the description of the smoke pin says, would not be noticed rising.
\<close>

theorem pins_armed:
  assumes "edge_fall_bit b \<noteq> 0"
  shows "((\<exists>d events. gpio_callback (edge_fall_bit b) pin events d \<noteq> bump_activity d) \<longleftrightarrow>
          filter (concerns_pin pin) (main_before_arch b) =
            [GpioInit pin, GpioSetDirIn pin, GpioPullUp pin,
             GpioIrqWithCallback pin (edge_fall_bit b) True]) \<and>
         (events AND edge_fall_bit b = 0 \<longrightarrow>
            gpio_callback (edge_fall_bit b) pin events d = bump_activity d)"
proof -
  have handled: "(\<exists>d events. gpio_callback (edge_fall_bit b) pin events d \<noteq> bump_activity d) \<longleftrightarrow>
      pin \<in> {EXIT_GPIO_PIN, SMOKE_SEEN_PIN, LIFE_CHECK_PIN}"
  proof
    assume "\<exists>d events. gpio_callback (edge_fall_bit b) pin events d \<noteq> bump_activity d"
    then show "pin \<in> {EXIT_GPIO_PIN, SMOKE_SEEN_PIN, LIFE_CHECK_PIN}"
      by (auto simp: gpio_callback_def Let_def split: if_splits)
  next
    assume "pin \<in> {EXIT_GPIO_PIN, SMOKE_SEEN_PIN, LIFE_CHECK_PIN}"
    then have "gpio_callback (edge_fall_bit b) pin (edge_fall_bit b) Device_init \<noteq>
        bump_activity Device_init"
      using assms
      by (auto simp: gpio_callback_def Let_def bump_activity_def Device_init_def)
    then show "\<exists>d events. gpio_callback (edge_fall_bit b) pin events d \<noteq> bump_activity d" by blast
  qed
  have armed: "filter (concerns_pin pin) (main_before_arch b) =
        [GpioInit pin, GpioSetDirIn pin, GpioPullUp pin, GpioIrqWithCallback pin (edge_fall_bit b) True]
      \<longleftrightarrow> pin \<in> {EXIT_GPIO_PIN, SMOKE_SEEN_PIN, LIFE_CHECK_PIN}"
    by (auto simp: main_before_arch_def reduce_clock_def setup_keep_alive_pin_def setup_gpio_callback_def
        concerns_pin_def)
  show ?thesis
    unfolding handled armed by (simp add: gpio_callback_def Let_def)
qed

theorem pins_armed_witness:
  "\<exists>d. gpio_callback 4 SMOKE_SEEN_PIN 4 d \<noteq> bump_activity d \<and>
       gpio_callback 4 SMOKE_SEEN_PIN 8 d = bump_activity d"
proof -
  let ?b = "\<lparr>khz_constant = 1000, edge_fall_bit = 4, is_rp2040 = True, debug_build = False,
      arch_init_result = 0, power_on_result = 0\<rparr>"
  have fall: "edge_fall_bit ?b \<noteq> 0" by simp
  have "filter (concerns_pin SMOKE_SEEN_PIN) (main_before_arch ?b) =
      [GpioInit SMOKE_SEEN_PIN, GpioSetDirIn SMOKE_SEEN_PIN, GpioPullUp SMOKE_SEEN_PIN,
       GpioIrqWithCallback SMOKE_SEEN_PIN (edge_fall_bit ?b) True]"
    by (simp add: main_before_arch_def reduce_clock_def setup_keep_alive_pin_def setup_gpio_callback_def
        concerns_pin_def)
  with pins_armed [OF fall, of SMOKE_SEEN_PIN 8 Device_init] have
    "\<exists>d events. gpio_callback 4 SMOKE_SEEN_PIN events d \<noteq> bump_activity d" by simp
  then have "gpio_callback 4 SMOKE_SEEN_PIN 4 Device_init \<noteq> bump_activity Device_init"
    by (simp add: gpio_callback_def Let_def bump_activity_def Device_init_def)
  moreover have "gpio_callback 4 SMOKE_SEEN_PIN 8 Device_init = bump_activity Device_init"
    using pins_armed [OF fall, of SMOKE_SEEN_PIN 8 Device_init] by simp
  ultimately show ?thesis by blast
qed

subsection \<open>main up to its loop\<close>

definition exit_edge :: "u32 \<Rightarrow> (u32 \<times> u32) list \<Rightarrow> bool" where
  "exit_edge edge_fall irqs \<longleftrightarrow>
     list_ex (\<lambda>(gpio, events). gpio = EXIT_GPIO_PIN \<and> events AND edge_fall \<noteq> 0) irqs"

lemma gpio_callback_simps [simp]:
  "connection_tracker (gpio_callback f g e d) = connection_tracker d"
  "keep_running (gpio_callback f g e d) \<longleftrightarrow>
     keep_running d \<and> \<not> (g = EXIT_GPIO_PIN \<and> e AND f \<noteq> 0)"
  by (auto simp: gpio_callback_def Let_def bump_activity_def)

lemma interrupts_fold:
  "connection_tracker (fold (\<lambda>(g, e). gpio_callback f g e) irqs d) = connection_tracker d"
  "keep_running (fold (\<lambda>(g, e). gpio_callback f g e) irqs d) \<longleftrightarrow> keep_running d \<and> \<not> exit_edge f irqs"
  by (induction irqs arbitrary: d) (auto simp: exit_edge_def)

lemma wait_facts:
  assumes "wait_for_exit f irqs d = (ended, rest, u)"
  shows "connection_tracker u = connection_tracker d"
    and "ended \<longleftrightarrow> \<not> keep_running d \<or> exit_edge f irqs" and "ended \<longleftrightarrow> \<not> keep_running u"
  using assms
  by (induction f irqs d rule: wait_for_exit.induct) (auto simp: exit_edge_def split: if_splits)

lemma stopped_loop: "\<not> keep_running (dev s) \<Longrightarrow> main_loop inputs s = Some s"
  by (cases inputs) auto

lemma updatePreferences_messages: "messages (updatePreferences env p save t) = messages t"
  by (simp add: updatePreferences_def Let_def bt_invoke_def)

lemma boot_messages: "boot_preferences env fl sector t = Some u \<Longrightarrow> messages u = messages t"
  by (auto simp: boot_preferences_def Let_def split_def updatePreferences_messages
      split: if_splits option.splits)

text \<open>
  \<open>main\<close> turns Bluetooth on last: in every run that gets there, every layer has been
  initialised and every handler registered before, the power is turned on once, and that is the
  last call before the loop or the wait.
\<close>

theorem power_on_last:
  "let (phase, calls, d) = main_setup env b fl sector early irqs d0
   in (HciPowerOn \<in> set calls \<longleftrightarrow> phase \<in> {EntersLoop, WaitsAtPower}) \<and>
      (phase \<in> {EntersLoop, WaitsAtPower} \<longrightarrow>
        (\<exists>before. calls = before @ [HciPowerOn] \<and> HciPowerOn \<notin> set before \<and>
           {Cyw43ArchInit, L2capInit, GattClientInit, SmInit, AttServerInit, HciAddEventHandler,
            SmAddEventHandler, AttRegisterPacketHandler, ScanTimerProcess} \<subseteq> set before))"
proof -
  have front: "HciPowerOn \<notin> set (main_before_arch b)" "Cyw43ArchInit \<in> set (main_before_arch b)"
    by (simp_all add: main_before_arch_def reduce_clock_def setup_keep_alive_pin_def
        setup_gpio_callback_def)
  have power: "main_bluetooth = butlast main_bluetooth @ [HciPowerOn]"
    "HciPowerOn \<notin> set (butlast main_bluetooth)"
    "{L2capInit, GattClientInit, SmInit, AttServerInit, HciAddEventHandler,
      SmAddEventHandler, AttRegisterPacketHandler, ScanTimerProcess} \<subseteq> set (butlast main_bluetooth)"
    by (simp_all add: main_bluetooth_def)
  have "\<exists>before. main_before_arch b @ main_bluetooth = before @ [HciPowerOn] \<and>
      HciPowerOn \<notin> set before \<and> {Cyw43ArchInit, L2capInit, GattClientInit, SmInit, AttServerInit,
        HciAddEventHandler, SmAddEventHandler, AttRegisterPacketHandler, ScanTimerProcess} \<subseteq> set before"
    using front power by (intro exI [of _ "main_before_arch b @ butlast main_bluetooth"]) auto
  moreover have "HciPowerOn \<in> set main_bluetooth" by (simp add: main_bluetooth_def)
  ultimately show ?thesis
    using front(1) by (auto simp: main_setup_def Let_def split: prod.split option.split)
qed

text \<open>
  C34: A start that fails is silent. When the driver does not initialise, \<open>main\<close> waits for
  ever unless the exit pin falls: no run of the loop is made and no message is ever stored, even
  when the smoke pin falls meanwhile. When the exit pin does fall, \<open>main\<close> goes on regardless,
  turns Bluetooth on without the driver, and ends before the first round of its loop.
\<close>

theorem failed_start_is_silent:
  assumes "arch_init_result b \<noteq> 0"
  shows "let (phase, calls, d, result) = main_program env b fl sector early irqs now inputs
    in (phase = WaitsAtArch \<longleftrightarrow> \<not> exit_edge (edge_fall_bit b) (early @ irqs)) \<and>
       messages (connection_tracker d) = [] \<and> phase \<noteq> WaitsAtPower \<and>
       (phase = WaitsAtArch \<longrightarrow> HciPowerOn \<notin> set calls) \<and>
       (phase = EntersLoop \<longrightarrow> HciPowerOn \<in> set calls \<and> result = Some (main_init now d))"
proof -
  let ?f = "edge_fall_bit b"
  let ?d0 = "fold (\<lambda>(g, e). gpio_callback ?f g e) early Device_init"
  obtain ended rest d1 where wait: "wait_for_exit ?f irqs ?d0 = (ended, rest, d1)"
    by (cases "wait_for_exit ?f irqs ?d0")
  have start: "keep_running ?d0 \<longleftrightarrow> \<not> exit_edge ?f early" "connection_tracker ?d0 = Tracker_init"
    by (simp_all add: interrupts_fold Device_init_def)
  have ended: "ended \<longleftrightarrow> exit_edge ?f (early @ irqs)"
    using wait_facts(2) [OF wait] start(1) by (auto simp: exit_edge_def)
  have d1: "messages (connection_tracker d1) = []" "ended \<Longrightarrow> \<not> keep_running d1"
    using wait_facts(1,3) [OF wait] start(2) by (simp_all add: Tracker_init_def)
  have on: "HciPowerOn \<in> set main_bluetooth" "HciPowerOn \<notin> set (main_before_arch b)"
    by (simp_all add: main_bluetooth_def main_before_arch_def reduce_clock_def setup_keep_alive_pin_def
        setup_gpio_callback_def)
  have again: "wait_for_exit ?f rest d = (True, rest, d)" if "\<not> keep_running d" for d
    using that by (cases "(?f, rest, d)" rule: wait_for_exit.cases) simp_all
  have set_up: "main_setup env b fl sector early irqs Device_init =
     (if \<not> ended then (WaitsAtArch, main_before_arch b, d1)
      else case boot_preferences env fl sector (connection_tracker d1) of
             None \<Rightarrow> (CrashesAtPreferences, main_before_arch b @ [LedPut True], d1)
           | Some t \<Rightarrow> (EntersLoop, main_before_arch b @ main_bluetooth, d1\<lparr>connection_tracker := t\<rparr>))"
    using assms d1(2) wait
    by (auto simp: main_setup_def Let_def again split: option.split)
  show ?thesis
    unfolding main_program_def set_up Let_def
    using d1 ended on boot_messages by (auto simp: stopped_loop main_init_def split: option.split)
qed

text \<open>The witness: smoke is seen during the wait, then the exit pin falls.\<close>

theorem failed_start_is_silent_witness:
  "\<forall>fl inputs. messages (connection_tracker (fst (snd (snd (main_program sample_env
     \<lparr>khz_constant = 1000, edge_fall_bit = 4, is_rp2040 = True, debug_build = False,
      arch_init_result = -1, power_on_result = 0\<rparr> fl [] [] [(17, 4), (28, 4)] 0 inputs))))) = []"
proof (intro allI)
  fix fl inputs
  let ?b = "\<lparr>khz_constant = 1000, edge_fall_bit = 4, is_rp2040 = True, debug_build = False,
      arch_init_result = -1, power_on_result = 0\<rparr>"
  have "arch_init_result ?b \<noteq> 0" by simp
  from failed_start_is_silent [OF this, of sample_env fl "[]" "[]" "[(17, 4), (28, 4)]" 0 inputs]
  show "messages (connection_tracker (fst (snd (snd (main_program sample_env ?b fl [] []
      [(17, 4), (28, 4)] 0 inputs))))) = []"
    by (simp add: Let_def split_def)
qed

end
