(* ===== verification/Advert_Dump.thy ===== *)
theory Advert_Dump
  imports Setup_Properties Log_Properties
begin

section \<open>main.cpp: advertisements and services as text\<close>

text \<open>
  \<open>dump_advertisement_data\<close>, \<open>dump_service\<close> and \<open>dump_characteristic\<close> put what the radio saw into
  the log; each element of a result is the text of one \<open>LOG_DEBUG\<close>. The stack's functions that
  read and print numbers of several bytes are fields of \<open>stack_text\<close>, with its classification
  of the assigned numbers of data types.
\<close>

subsection \<open>Numbers\<close>

function digits :: "nat \<Rightarrow> nat \<Rightarrow> nat list" where
  "digits base n = (if base < 2 \<or> n < base then [n] else digits base (n div base) @ [n mod base])"
  by pat_completeness auto
termination by (relation "measure snd") auto

declare digits.simps [simp del]

definition format_number :: "(nat \<Rightarrow> u8) \<Rightarrow> u8 \<Rightarrow> nat \<Rightarrow> nat \<Rightarrow> nat \<Rightarrow> bytes" where
  "format_number digit pad width base n =
     (let ds = map digit (digits base n) in replicate (width - length ds) pad @ ds)"

definition hex_char_upper :: "nat \<Rightarrow> u8" where
  "hex_char_upper n = of_nat (if n < 10 then 48 + n else 55 + n)"

abbreviation (input) format_04X :: "nat \<Rightarrow> bytes" where
  "format_04X n \<equiv> format_number hex_char_upper (of_char CHR ''0'') 4 16 n"
abbreviation (input) format_02X :: "nat \<Rightarrow> bytes" where
  "format_02X n \<equiv> format_number hex_char_upper (of_char CHR ''0'') 2 16 n"
abbreviation (input) format_04x :: "nat \<Rightarrow> bytes" where
  "format_04x n \<equiv> format_number hex_char (of_char CHR ''0'') 4 16 n"
abbreviation (input) format_2x :: "nat \<Rightarrow> bytes" where
  "format_2x n \<equiv> format_number hex_char (of_char CHR '' '') 2 16 n"
abbreviation (input) format_u :: "nat \<Rightarrow> bytes" where
  "format_u n \<equiv> format_number hex_char (of_char CHR ''0'') 1 10 n"

definition format_d :: "int \<Rightarrow> bytes" where
  "format_d i = (if i < 0 then ascii ''-'' @ format_u (nat (- i)) else format_u (nat i))"

subsection \<open>The code\<close>

definition ad_types :: "bytes list" where
  "ad_types = map ascii
     ['''', ''Flags'',
      ''Incomplete List of 16-bit Service Class UUIDs'',
      ''Complete List of 16-bit Service Class UUIDs'',
      ''Incomplete List of 32-bit Service Class UUIDs'',
      ''Complete List of 32-bit Service Class UUIDs'',
      ''Incomplete List of 128-bit Service Class UUIDs'',
      ''Complete List of 128-bit Service Class UUIDs'',
      ''Shortened Local Name'', ''Complete Local Name'', ''Tx Power Level'', '''', '''',
      ''Class of Device'', ''Simple Pairing Hash C'', ''Simple Pairing Randomizer R'', ''Device ID'',
      ''Security Manager TK Value'', ''Slave Connection Interval Range'', '''',
      ''List of 16-bit Service Solicitation UUIDs'', ''List of 128-bit Service Solicitation UUIDs'',
      ''Service Data'', ''Public Target Address'', ''Random Target Address'', ''Appearance'',
      ''Advertising Interval'']"

definition flags :: "bytes list" where
  "flags = map ascii
     [''LE Limited Discoverable Mode'', ''LE General Discoverable Mode'', ''BR/EDR Not Supported'',
      ''Simultaneous LE and BR/EDR to Same Device Capable (Controller)'',
      ''Simultaneous LE and BR/EDR to Same Device Capable (Host)'',
      ''Reserved'', ''Reserved'', ''Reserved'']"

datatype ad_kind =
    AdFlags | AdUuids16 | AdUuids32 | AdUuids128 | AdName | AdTxPower | AdConnectionInterval
  | AdServiceData | AdTargetAddress | AdAppearance | AdInterval | Ad3dInformation | AdNotHandled

record stack_text =
  ad_kind_of :: "u8 \<Rightarrow> ad_kind"
  little_endian_read_16 :: "bytes \<Rightarrow> nat \<Rightarrow> u16"
  little_endian_read_32 :: "bytes \<Rightarrow> nat \<Rightarrow> u32"
  reverse_128 :: "bytes \<Rightarrow> bytes"
  reverse_bd_addr :: "bytes \<Rightarrow> bytes"
  uuid128_to_str :: "bytes \<Rightarrow> bytes"
  address_to_str :: "bytes \<Rightarrow> bytes"

text \<open>The values of \<open>i\<close> in \<open>for (i = 0; i < size; i += step)\<close>.\<close>

definition steps :: "nat \<Rightarrow> nat \<Rightarrow> nat list" where
  "steps step len = filter (\<lambda>i. i mod step = 0) [0..<len]"

definition dump_field_body :: "stack_text \<Rightarrow> u8 \<Rightarrow> nat \<Rightarrow> bytes \<Rightarrow> bytes list" where
  "dump_field_body st data_type len data =
     (let le16 = (\<lambda>i. unat (little_endian_read_16 st data i))
      in case ad_kind_of st data_type of
           AdFlags \<Rightarrow> map (\<lambda>i. flags ! i @ ascii ''; '') (filter (\<lambda>i. bit (data ! 0) i) [0..<8])
         | AdUuids16 \<Rightarrow> map (\<lambda>i. format_04X (le16 i) @ ascii '' '') (steps 2 len)
         | AdUuids32 \<Rightarrow> map (\<lambda>i. format_04x (unat (little_endian_read_32 st data i))) (steps 4 len)
         | AdUuids128 \<Rightarrow> [uuid128_to_str st (reverse_128 st data)]
         | AdName \<Rightarrow> map (\<lambda>i. [data ! i]) [0..<len]
         | AdTxPower \<Rightarrow> [format_d (sint (data ! 0)) @ ascii '' dBm'']
         | AdConnectionInterval \<Rightarrow>
             [ascii ''Connection Interval Min = '' @ format_u (le16 0 * 5 div 4) @
              ascii '' ms, Max = '' @ format_u (le16 2 * 5 div 4) @ ascii '' ms'']
         | AdServiceData \<Rightarrow> ascii ''ServiceData: '' #
             map (\<lambda>i. format_02X (unat (data ! i)) @ ascii '' '') (steps 2 len)
         | AdTargetAddress \<Rightarrow> [address_to_str st (reverse_bd_addr st data)]
         | AdAppearance \<Rightarrow> [format_02X (le16 0)]
         | AdInterval \<Rightarrow> [format_u (le16 0 * 5 div 8) @ ascii '' ms'']
         | Ad3dInformation \<Rightarrow> map (\<lambda>i. format_02X (unat (data ! i)) @ ascii '' '') (steps 2 len)
         | AdNotHandled \<Rightarrow> [ascii ''    Advertising Data Type 0x'' @ format_2x (unat data_type) @
             ascii '' not handled yet''])"

text \<open>The fields are those the iterator yields: type, length, and the memory from the data on.\<close>

definition dump_advertisement_data :: "stack_text \<Rightarrow> (u8 \<times> u8 \<times> bytes) list \<Rightarrow> bytes list" where
  "dump_advertisement_data st ad_entries =
     concat (map (\<lambda>(data_type, len, data).
       (if 0 < data_type \<and> data_type < 0x1B
        then [ascii ''    '' @ ad_types ! unat data_type @ ascii '': ''] else []) @
       dump_field_body st data_type (unat len) data @ [[newline]]) ad_entries) @ [[newline]]"

definition printUUID :: "stack_text \<Rightarrow> bytes \<Rightarrow> u16 \<Rightarrow> bytes list" where
  "printUUID st uuid short_uuid =
     [if short_uuid \<noteq> 0 then format_04x (unat short_uuid) else uuid128_to_str st uuid]"

definition dump_service :: "stack_text \<Rightarrow> gatt_service \<Rightarrow> bytes list" where
  "dump_service st service =
     [ascii ''    * service: [0x'' @ format_04x (unat (start_group_handle service)) @ ascii ''-0x'' @
      format_04x (unat (end_group_handle service)) @ ascii ''], uuid ''] @
     printUUID st (uuid128 service) (uuid16 service) @ [[newline]]"

text \<open>The arguments are the fields of \<open>gatt_client_characteristic_t\<close>.\<close>

definition dump_characteristic :: "stack_text \<Rightarrow> u16 \<Rightarrow> u16 \<Rightarrow> u16 \<Rightarrow> u16 \<Rightarrow> u16 \<Rightarrow> bytes \<Rightarrow> bytes list" where
  "dump_characteristic st start val end_handle properties short_uuid uuid =
     [ascii ''    * characteristic: [0x'' @ format_04x (unat start) @ ascii ''-0x'' @
      format_04x (unat val) @ ascii ''-0x'' @ format_04x (unat end_handle) @
      ascii ''], properties 0x'' @
      format_number hex_char (of_char CHR ''0'') 2 16 (unat properties) @ ascii '', uuid ''] @
     printUUID st uuid short_uuid @ [[newline]]"

subsection \<open>What the text shows\<close>

text \<open>The guards keep within the tables, and only every other byte of service data is printed.\<close>

lemma dump_in_tables:
  "0 < t \<Longrightarrow> t < (0x1B :: u8) \<Longrightarrow> unat t < length ad_types"
  "i \<in> set (filter (\<lambda>i. bit (b :: u8) i) [0..<8]) \<Longrightarrow> i < length flags"
  by (simp_all add: ad_types_def flags_def word_less_nat_alt)

lemma service_data_half_printed:
  assumes "ad_kind_of st data_type = AdServiceData" and "\<And>i. even i \<Longrightarrow> i < len \<Longrightarrow> data ! i = data' ! i"
  shows "dump_field_body st data_type len data = dump_field_body st data_type len data'"
  using assms by (auto simp: dump_field_body_def Let_def steps_def even_iff_mod_2_eq_zero)

text \<open>The digits of a number are digits, and give the number back.\<close>

lemma digits_value:
  assumes "2 \<le> base"
  shows "foldl (\<lambda>a d. a * base + d) 0 (digits base n) = n \<and> (\<forall>d \<in> set (digits base n). d < base)"
  using assms
proof (induction base n rule: digits.induct)
  case (1 base n)
  then show ?case by (subst (1 2) digits.simps) auto
qed

end
