(* ===== verification/Esp_Tracker.thy ===== *)
theory Esp_Tracker
  imports Protocol_Processor
begin

section \<open>The tracker as the Arduino sketch builds it\<close>

text \<open>
  \<^verbatim>\<open>BleConnectionTracker.cpp\<close> has parts that depend on the board. The other theories model the
  parts for the board of \<^verbatim>\<open>main.cpp\<close>; here are those under \<open>ARDUINO_ARCH_ESP32\<close>, for
  \<^verbatim>\<open>ble-smoke-detector.ino\<close>: packets are handed to the NimBLE stack at once, no raw packets are
  kept, and the stack's notifications need no registration.

  NimBLE is a parameter: what it says about a connection is an \<open>esp_stack\<close>, whether it takes a
  packet may depend on everything it was given before, and what it was given is the list of
  \<open>esp_call\<close>s, in order. The state is the tracker with that list.
\<close>

datatype esp_call = WriteValue u16 bytes | NotifyValue u16 bytes

record esp_client =
  has_service :: bool
  has_characteristic :: bool
  can_write :: bool

record esp_stack =
  client_for :: "u16 \<Rightarrow> esp_client option"
  server_has_characteristic :: bool
  takes :: "esp_call list \<Rightarrow> bool"

type_synonym esp_tracker = "tracker \<times> esp_call list"

definition esp_invoke :: "esp_stack \<Rightarrow> esp_call \<Rightarrow> esp_tracker \<Rightarrow> bool \<times> esp_tracker" where
  "esp_invoke stack c s = (takes stack (snd s @ [c]), (fst s, snd s @ [c]))"

subsection \<open>Sending\<close>

text \<open>The part of \<open>SendPacketToConnection\<close> under \<open>ARDUINO_ARCH_ESP32\<close>.\<close>

definition esp_deliver :: "esp_stack \<Rightarrow> u16 \<Rightarrow> bytes \<Rightarrow> esp_tracker \<Rightarrow> bool \<times> esp_tracker" where
  "esp_deliver stack con_handle packet_data s =
     (case client_for stack con_handle of
        Some client \<Rightarrow>
          if has_service client \<and> has_characteristic client \<and> can_write client
          then esp_invoke stack (WriteValue con_handle packet_data) s
          else (False, s)
      | None \<Rightarrow>
          if server_has_characteristic stack
          then esp_invoke stack (NotifyValue con_handle packet_data) s
          else (False, s))"

definition esp_SendPacketToConnection ::
  "esp_stack \<Rightarrow> packet_ref \<Rightarrow> u16 \<Rightarrow> esp_tracker \<Rightarrow> bool \<times> esp_tracker" where
  "esp_SendPacketToConnection stack p con s =
     (case (packet_base (fst s) p, connection_at (fst s) con) of
        (Some b, Some c) \<Rightarrow>
          if sending_connection_handle b > 0 \<and> sending_connection_handle b = connection_handle c
          then (True, s)
          else
            let (packet_data, t1) = packet_write p (fst s)
            in if bt_mtu c \<noteq> 0 \<and> length packet_data > unat (bt_mtu c) then (False, (t1, snd s))
               else esp_deliver stack (connection_handle c) packet_data (t1, snd s)
      | _ \<Rightarrow> (False, s))"

definition esp_available_connections :: "tracker \<Rightarrow> (u16 \<times> ble_connection) list" where
  "esp_available_connections t = filter (\<lambda>e. connected (snd e)) (connections t)"

fun esp_send_targeted :: "environment \<Rightarrow> esp_stack \<Rightarrow> (packet_ref \<times> u16) list \<Rightarrow> esp_tracker
    \<Rightarrow> packet_ref list \<times> esp_tracker" where
  "esp_send_targeted env stack [] s = ([], s)"
| "esp_send_targeted env stack ((p, con) # rest) s =
     (if packet_needed (fst s) (p, con)
      then let (ok, s1) = esp_SendPacketToConnection stack p con s
           in if ok
              then let (removed, s2) = esp_send_targeted env stack rest
                         (mark_sent env p con (fst s1), snd s1)
                   in (p # removed, s2)
              else esp_send_targeted env stack rest s1
      else esp_send_targeted env stack rest s)"

fun esp_broadcast_to :: "environment \<Rightarrow> esp_stack \<Rightarrow> packet_ref \<Rightarrow> (u16 \<times> ble_connection) list
    \<Rightarrow> esp_tracker \<Rightarrow> esp_tracker" where
  "esp_broadcast_to env stack p [] s = s"
| "esp_broadcast_to env stack p ((con, c) # rest) s =
     esp_broadcast_to env stack p rest
       (if broadcast_sendable (fst s) p c
        then let s1 = snd (esp_SendPacketToConnection stack p con s)
             in (mark_sent env p con (fst s1), snd s1)
        else s)"

fun esp_send_broadcast :: "environment \<Rightarrow> esp_stack \<Rightarrow> packet_ref list \<Rightarrow> esp_tracker
    \<Rightarrow> packet_ref option \<times> esp_tracker" where
  "esp_send_broadcast env stack [] s = (None, s)"
| "esp_send_broadcast env stack (p # rest) s =
     (if esp_available_connections (fst s) = [] then esp_send_broadcast env stack rest s
      else (Some p, esp_broadcast_to env stack p (esp_available_connections (fst s)) s))"

definition esp_sendPackets :: "environment \<Rightarrow> esp_stack \<Rightarrow> esp_tracker \<Rightarrow> bool \<times> esp_tracker" where
  "esp_sendPackets env stack s =
     (if \<not> havePacketsToSend (fst s) then (False, s)
      else
        let (targeted_packets_to_remove, (t1, c1)) =
              esp_send_targeted env stack (targeted_packets_to_send_list (fst s)) s;
            t2 = t1\<lparr>targeted_packets_to_send_list :=
                   erase_if (\<lambda>e. fst e \<in> set targeted_packets_to_remove)
                     (targeted_packets_to_send_list t1)\<rparr>;
            (sent, (t3, c3)) =
              esp_send_broadcast env stack (broadcast_packets_to_send_list t2) (t2, c1)
        in (True, (t3\<lparr>broadcast_packets_to_send_list :=
                        erase_if (\<lambda>p. sent = Some p) (broadcast_packets_to_send_list t3)\<rparr>, c3)))"

subsection \<open>The node's own announce\<close>

text \<open>The name ends with the bytes of the six-byte address that are last in memory.\<close>

definition esp_setupAnnounceIfNeeded :: "environment \<Rightarrow> tracker \<Rightarrow> tracker" where
  "esp_setupAnnounceIfNeeded env t =
     (let a1 = Announce_setAltitude (Announce_setLongitudeI (Announce_setLatitudeI
                 (own_announce t) (latitude_i (prefs t))) (longitude_i (prefs t)))
                 (altitude (prefs t))
      in if packet_ttl a1 = 3 then t\<lparr>own_announce := a1\<rparr>
         else
           let sender = getMySenderId env;
               a2 = setPacketSenderId (setPacketFlags (setPacketTtl a1 3) 0) sender;
               b1 = write_data [] ble_smoke_detector_service_name
                      (of_nat (length ble_smoke_detector_service_name));
               b2 = write_data b1 (ascii '':'') 1;
               b3 = write_uint8_hex16 b2 (ucast (drop_bit 32 sender));
               b4 = write_uint8_hex16 b3 (ucast (drop_bit 40 sender))
           in t\<lparr>own_announce := setName a2 b4\<rparr>)"

definition esp_announceToConnections :: "environment \<Rightarrow> tracker \<Rightarrow> tracker" where
  "esp_announceToConnections env t =
     (let t1 = esp_setupAnnounceIfNeeded env t
      in fold (announce_to env)
           (filter (\<lambda>c. (connected c \<and> weHaveTheTime t1) \<and> not_announced_to t1 c)
              (map snd (connections t1))) t1)"

subsection \<open>Connections\<close>

definition esp_reportConnection ::
  "environment \<Rightarrow> u16 \<Rightarrow> bytes \<Rightarrow> u8 \<Rightarrow> u8 \<Rightarrow> tracker \<Rightarrow> tracker" where
  "esp_reportConnection env h address address_type the_role t =
     alter_connection h (\<lambda>c. setRole c the_role) (reportConnection env h address address_type t)"

definition esp_reportDisconnection :: "u16 \<Rightarrow> tracker \<Rightarrow> tracker" where
  "esp_reportDisconnection h t =
     (let t1 = alter_connection h (\<lambda>c. setConnected (setNotificationEnabled c False) False) t;
          t2 = t1\<lparr>peers := map_touch Peer_blank (ucast h) (peers t1)\<rparr>;
          t4 = t2\<lparr>handle_peer_map := map_erase h (handle_peer_map t2)\<rparr>
      in t4\<lparr>packets_connections_sent_list :=
              erase_if (announced_to_connection t4 h) (packets_connections_sent_list t4),
            targeted_packets_to_send_list :=
              erase_if (announced_to_connection t4 h) (targeted_packets_to_send_list t4),
            packets_peers_sent_list :=
              erase_if (\<lambda>_. False) (packets_peers_sent_list t4)\<rparr>)"

subsection \<open>Preferences\<close>

text \<open>
  The sketch keeps the preferences in the ESP32's non-volatile storage, entry by entry. Strings
  go in and come out through \<open>c_str()\<close>, so they end at their first 0 (the setters cut them). An entry that was never
  written reads as the empty string or 0.
\<close>

record nvs =
  nvs_key :: bytes
  nvs_ssid :: bytes
  nvs_password :: bytes
  nvs_latitude_i :: i32
  nvs_longitude_i :: i32
  nvs_altitude :: i32

definition nvs_erased :: nvs where
  "nvs_erased = \<lparr>nvs_key = [], nvs_ssid = [], nvs_password = [], nvs_latitude_i = 0,
     nvs_longitude_i = 0, nvs_altitude = 0\<rparr>"

definition esp_savePreferencesToFlash :: "preferences \<Rightarrow> nvs" where
  "esp_savePreferencesToFlash p =
     \<lparr>nvs_key = c_str (key p), nvs_ssid = c_str (ssid p), nvs_password = c_str (password p),
      nvs_latitude_i = latitude_i p, nvs_longitude_i = longitude_i p, nvs_altitude = altitude p\<rparr>"

definition esp_load_preferences :: "nvs \<Rightarrow> tracker \<Rightarrow> tracker" where
  "esp_load_preferences n t =
     (let p1 = setKey (prefs t) (nvs_key n);
          p2 = setSsid p1 (nvs_ssid n);
          p3 = setPassword p2 (nvs_password n);
          p4 = setLatitudeI p3 (nvs_latitude_i n);
          p5 = setLongitudeI p4 (nvs_longitude_i n)
      in t\<lparr>prefs := setAltitude p5 (nvs_altitude n)\<rparr>)"

definition esp_updatePreferences :: "environment \<Rightarrow> preferences \<Rightarrow> bool \<Rightarrow> tracker \<Rightarrow> tracker" where
  "esp_updatePreferences env new_prefs save t =
     (if packet_recipient_id new_prefs \<noteq> getMySenderId env then t
      else if key (prefs t) \<noteq> [] \<and> key (prefs t) \<noteq> key new_prefs then t
      else if preferences_eq (prefs t) new_prefs \<and> save then t
      else let t1 = t\<lparr>prefs := new_prefs\<rparr>
           in if save then snd (bt_invoke env (SaveFlash (prefs t1)) t1) else t1)"

definition esp_processWrite ::
  "environment \<Rightarrow> ble_connection \<Rightarrow> u16 \<Rightarrow> bytes \<Rightarrow> u16 \<Rightarrow> tracker \<Rightarrow> tracker option" where
  "esp_processWrite env con offset buffer buffer_size t =
     processWrite_with (esp_updatePreferences env) env con offset buffer buffer_size t"

end
