(* ===== verification/Sketch_Main.thy ===== *)
theory Sketch_Main
  imports Esp_Tracker Device_Main Device_Loop
begin

section \<open>ble-smoke-detector.ino: the Arduino sketch\<close>

text \<open>
  The globals of the sketch with the tracker and what was given to NimBLE; \<open>pBLEScan\<close> is
  whether the pointer is set, \<open>pin_state\<close> is \<open>inputD0smoke.state\<close>, \<open>False\<close> for low. The globals
  \<open>keep_running\<close>, \<open>smoke_seen\<close> and \<open>bootCount\<close> are never read. NimBLE runs the callbacks in a
  task of its own; here they run where the loop waits.
\<close>

record sketch =
  sk_fresh_boot :: bool
  sk_life_check :: bool
  sk_activity :: u16
  sk_conn_count :: u8
  sk_connection_in_progress :: bool
  pBLEScan :: bool
  numberChanges :: u32
  pin_state :: bool
  sk_tracker :: tracker
  sk_calls :: "esp_call list"

definition Sketch_init :: sketch where
  "Sketch_init =
     \<lparr>sk_fresh_boot = True, sk_life_check = False, sk_activity = 0, sk_conn_count = 0,
      sk_connection_in_progress = False, pBLEScan = False, numberChanges = 0, pin_state = True,
      sk_tracker = Tracker_init, sk_calls = []\<rparr>"

definition sk_bump :: "sketch \<Rightarrow> sketch" where
  "sk_bump s = s\<lparr>sk_activity := sk_activity s + 1\<rparr>"

definition sk_on_tracker :: "(tracker \<Rightarrow> tracker) \<Rightarrow> sketch \<Rightarrow> sketch" where
  "sk_on_tracker f s = s\<lparr>sk_tracker := f (sk_tracker s)\<rparr>"

text \<open>\<open>micros()\<close> of the board is a 32-bit counter.\<close>

definition sketch_time_us_64 :: "u32 \<Rightarrow> u64" where
  "sketch_time_us_64 micros = ucast micros"

subsection \<open>Events\<close>

text \<open>\<open>level\<close> is what \<open>digitalRead\<close> returns.\<close>

definition isr :: "bool \<Rightarrow> sketch \<Rightarrow> sketch" where
  "isr level s = sk_bump (s\<lparr>numberChanges := numberChanges s + 1, pin_state := level\<rparr>)"

definition sketch_event_marker :: "bool \<Rightarrow> bool \<Rightarrow> bool \<Rightarrow> u8" where
  "sketch_event_marker boot smoke life =
     (if boot \<and> smoke \<and> life then of_char CHR ''*''
      else if boot \<and> smoke then of_char CHR ''=''
      else if smoke then of_char CHR ''!''
      else if life then of_char CHR ''-''
      else of_char CHR ''?'')"

definition sketch_nickname :: "bytes \<Rightarrow> bytes" where
  "sketch_nickname local_addr =
     (let b1 = write_data [] ble_smoke_detector_service_name
                 (of_nat (length ble_smoke_detector_service_name));
          b2 = write_data b1 (ascii '':'') 1;
          b3 = write_uint8_hex16 b2 (local_addr ! 4)
      in write_uint8_hex16 b3 (local_addr ! 5))"

text \<open>The content is composed as in \<^verbatim>\<open>main.cpp\<close>; the marker and the nickname are the sketch's.\<close>

definition sketch_event_message ::
  "environment \<Rightarrow> bytes \<Rightarrow> bool \<Rightarrow> bool \<Rightarrow> bool \<Rightarrow> tracker \<Rightarrow> message" where
  "sketch_event_message env local_addr boot smoke life t =
     (let sender = env_board_id env;
          timestamp_ms = whole_minute (getTimeMs env t);
          m1 = setContent (Message_init5 3 timestamp_ms 0 sender 0) (event_content boot smoke life);
          i1 = write_uint64 [] timestamp_ms;
          i2 = write_uint8 i1 (sketch_event_marker boot smoke life);
          i3 = write_uint64 i2 sender;
          m2 = setChannel (setMessageId m1 i3) (ascii ''#smoke'');
          m3 = Message_setLatitudeI m2 (latitude_i (prefs t));
          m4 = Message_setLongitudeI m3 (longitude_i (prefs t));
          m5 = Message_setAltitude m4 (altitude (prefs t))
      in setSenderNickname m5 (sketch_nickname local_addr))"

text \<open>\<open>pin_level\<close> is \<open>digitalRead(D0)\<close>.\<close>

definition sketch_generateMessageIfNeeded ::
  "environment \<Rightarrow> bytes \<Rightarrow> bool \<Rightarrow> sketch \<Rightarrow> sketch" where
  "sketch_generateMessageIfNeeded env local_addr pin_level s =
     (let copy_fresh_boot = sk_fresh_boot s;
          copy_smoke_seen = (\<not> pin_state s \<or> \<not> pin_level);
          copy_life_check = sk_life_check s;
          t = sk_tracker s
      in if weHaveTheTime t \<and> (copy_fresh_boot \<or> copy_smoke_seen \<or> copy_life_check)
         then
           let s1 = (if copy_fresh_boot then s\<lparr>sk_fresh_boot := False\<rparr> else s);
               s2 = (if copy_life_check then s1\<lparr>sk_life_check := False\<rparr> else s1);
               s3 = (if copy_smoke_seen then s2\<lparr>pin_state := True\<rparr> else s2);
               m = sketch_event_message env local_addr copy_fresh_boot copy_smoke_seen
                     copy_life_check t;
               (stored, t1) = storeMessageAndReturnIfNew m t
           in case stored of
                None \<Rightarrow> s3\<lparr>sk_tracker := t1\<rparr>
              | Some p \<Rightarrow>
                  (sk_bump (s3\<lparr>sk_tracker := enqueueBroadcastPacket p t1\<rparr>))\<lparr>sk_fresh_boot := False\<rparr>
         else s)"

subsection \<open>Callbacks of NimBLE\<close>

text \<open>What a scan reports of a neighbour; the address is in the order of the other boards.\<close>

record advertised_device =
  adv_name :: "bytes option"
  adv_primary_phy :: u8
  adv_secondary_phy :: u8
  adv_service :: bool
  adv_address :: bytes
  adv_address_type :: u8
  adv_rssi :: "8 word"

definition onResult :: "environment \<Rightarrow> u8 \<Rightarrow> advertised_device \<Rightarrow> sketch \<Rightarrow> sketch" where
  "onResult env phy_coded adv s =
     (let foundName = (case adv_name adv of
            None \<Rightarrow> False
          | Some n \<Rightarrow> take (length packet_service_name) (n @ [0]) = packet_service_name);
          foundCoded = (adv_secondary_phy adv > 0 \<and>
            (adv_primary_phy adv = phy_coded \<or> adv_secondary_phy adv = phy_coded))
      in if adv_service adv
         then sk_on_tracker (addAvailablePeer env (adv_address adv) (adv_address_type adv)
                (if foundName then ServiceUUIDAndNameFound else ServiceUUIDFound)
                (adv_rssi adv) foundCoded) s
         else s)"

definition sketch_receive :: "environment \<Rightarrow> u16 \<Rightarrow> bytes \<Rightarrow> u16 \<Rightarrow> sketch \<Rightarrow> sketch option" where
  "sketch_receive env h data n s =
     (let (p, t) = connectionForConnHandle h (sk_tracker s);
          con = map_at BleConnection_blank p (connections t)
      in map_option (\<lambda>t. s\<lparr>sk_tracker := t\<rparr>) (esp_processWrite env con 0 data n t))"

definition notifyCB :: "environment \<Rightarrow> u16 \<Rightarrow> bytes \<Rightarrow> u16 \<Rightarrow> sketch \<Rightarrow> sketch option" where
  "notifyCB env h data n s = sketch_receive env h data n s"

definition onWrite :: "environment \<Rightarrow> u16 \<Rightarrow> bytes \<Rightarrow> u16 \<Rightarrow> sketch \<Rightarrow> sketch option" where
  "onWrite env h data n s = map_option sk_bump (sketch_receive env h data n s)"

definition role_of :: "bool \<Rightarrow> bool \<Rightarrow> u8" where
  "role_of is_master is_slave =
     (let r = HCI_ROLE_INVALID;
          r = (if is_master then HCI_ROLE_MASTER else r)
      in if is_slave then HCI_ROLE_SLAVE else r)"

definition client_onConnect :: "environment \<Rightarrow> u16 \<Rightarrow> bytes \<Rightarrow> u8 \<Rightarrow> bool \<Rightarrow> bool \<Rightarrow> sketch \<Rightarrow> sketch" where
  "client_onConnect env h address address_type is_master is_slave s =
     (let s1 = sk_on_tracker (esp_reportConnection env h address address_type
                 (role_of is_master is_slave)) s
      in (sk_bump (s1\<lparr>sk_connection_in_progress := False\<rparr>))\<lparr>sk_conn_count := sk_conn_count s + 1\<rparr>)"

definition client_onConnectFail :: "sketch \<Rightarrow> sketch" where
  "client_onConnectFail s = sk_bump (s\<lparr>sk_connection_in_progress := False\<rparr>)"

definition client_onDisconnect :: "u16 \<Rightarrow> sketch \<Rightarrow> sketch" where
  "client_onDisconnect h s =
     (sk_bump ((sk_on_tracker (esp_reportDisconnection h) s)\<lparr>sk_connection_in_progress := False\<rparr>))
       \<lparr>sk_conn_count := sk_conn_count s - 1\<rparr>"

definition server_onConnect :: "environment \<Rightarrow> u16 \<Rightarrow> bytes \<Rightarrow> u8 \<Rightarrow> bool \<Rightarrow> bool \<Rightarrow> sketch \<Rightarrow> sketch" where
  "server_onConnect env h address address_type is_master is_slave s =
     (sk_bump (sk_on_tracker (esp_reportConnection env h address address_type
        (role_of is_master is_slave)) s))\<lparr>sk_conn_count := sk_conn_count s + 1\<rparr>"

definition server_onDisconnect :: "u16 \<Rightarrow> sketch \<Rightarrow> sketch" where
  "server_onDisconnect h s =
     (sk_bump (sk_on_tracker (esp_reportDisconnection h) s))\<lparr>sk_conn_count := sk_conn_count s - 1\<rparr>"

text \<open>\<open>reason\<close> 0 restarts the advertising and returns.\<close>

definition advertising_onStopped :: "int \<Rightarrow> sketch \<Rightarrow> sketch" where
  "advertising_onStopped reason s = (if reason = 0 then s else sk_bump s)"

subsection \<open>Connecting and scanning\<close>

definition sketch_start_scanning :: "sketch \<Rightarrow> sketch" where
  "sketch_start_scanning s = sk_bump (s\<lparr>pBLEScan := True\<rparr>)"

text \<open>
  \<open>connect()\<close> blocks; \<open>blocked\<close> is what the callbacks do meanwhile, and its results are the
  fields of \<open>connect_result\<close>. \<open>neighbour\<close> points into \<open>available_neighbours\<close>: \<open>None\<close> is a read
  through it when its element is gone.
\<close>

record connect_result =
  client_created :: bool
  did_connect :: bool
  last_error :: int
  still_connected :: bool

definition sketch_connect ::
  "connect_result \<Rightarrow> (sketch \<Rightarrow> sketch option) \<Rightarrow> sketch \<Rightarrow> (bool \<times> sketch) option" where
  "sketch_connect r blocked s =
     (case getConnectableNeighbours (sk_tracker s) of
        [] \<Rightarrow> Some (False, s)
      | a # _ \<Rightarrow>
          let neighbour = map_at BleConnection_blank a (available_neighbours (sk_tracker s))
          in if getConnectionForAddress (bt_address neighbour) (sk_tracker s) \<noteq> None
             then Some (False, s)
             else if \<not> client_created r then Some (False, s)
             else
               (case blocked s of
                  None \<Rightarrow> None
                | Some s1 \<Rightarrow>
                    (case map_find a (available_neighbours (sk_tracker s1)) of
                       None \<Rightarrow> None
                     | Some neighbour \<Rightarrow>
                         if \<not> did_connect r
                         then Some (False, sk_on_tracker
                                (reportConnectionFailure (bt_address neighbour) (last_error r)) s1)
                         else
                           let s2 = sk_on_tracker (setConnectionStarted neighbour) s1;
                               s3 = (if still_connected r then s2
                                     else s2\<lparr>sk_connection_in_progress := True\<rparr>)
                           in Some (True, sk_bump s3))))"

subsection \<open>The loop\<close>

text \<open>
  The statics of the sketch. \<open>boot_time\<close> is 32 bits wide; \<open>asleep\<close> is the deep sleep, from
  which the board restarts.
\<close>

record sketch_state =
  sk :: sketch
  sk_boot_time :: u32
  sk_lastAnnounce :: u64
  sk_lastSendPackets :: u64
  sk_lastConnection :: u64
  sk_lastFlash :: u64
  sk_lastScan :: u64
  sk_last_activity :: u16
  asleep :: bool

definition sketch_statics :: "u64 \<Rightarrow> sketch_state" where
  "sketch_statics now =
     \<lparr>sk = Sketch_init, sk_boot_time = 0, sk_lastAnnounce = now, sk_lastSendPackets = now,
      sk_lastConnection = now, sk_lastFlash = - two_seconds_in_us,
      sk_lastScan = - five_minutes_in_us, sk_last_activity = sk_activity Sketch_init,
      asleep = False\<rparr>"

text \<open>What \<open>setup\<close> leaves: the stored preferences and the time of the boot.\<close>

definition sketch_setup :: "nvs \<Rightarrow> u64 \<Rightarrow> sketch_state \<Rightarrow> sketch_state" where
  "sketch_setup n now s =
     s\<lparr>sk := sk_on_tracker (esp_load_preferences n) (sk s), sk_boot_time := ucast now\<rparr>"

text \<open>What the surroundings do in one round: the readings of the pins, NimBLE's answers and callbacks.\<close>

record sketch_round =
  r_env :: environment
  r_clock :: "clock_point \<Rightarrow> u64"
  r_local_addr :: bytes
  r_pin_level :: bool
  r_sleep_allowed :: bool
  r_stack :: esp_stack
  r_connect :: connect_result
  r_scan :: "sketch \<Rightarrow> sketch option"
  r_blocked :: "sketch \<Rightarrow> sketch option"
  r_pause :: "sketch \<Rightarrow> sketch option"
  r_delay :: "sketch \<Rightarrow> sketch option"

definition sketch_scan_results :: "sketch_round \<Rightarrow> sketch_state \<Rightarrow> (u64 \<times> sketch_state) option" where
  "sketch_scan_results r s =
     (if pBLEScan (sk s)
      then (case r_scan r (sk s) of
              None \<Rightarrow> None
            | Some u \<Rightarrow> Some (r_clock r LoopAfterScan,
                s\<lparr>sk := sk_bump (u\<lparr>pBLEScan := False\<rparr>), sk_lastScan := r_clock r AfterScan\<rparr>))
      else Some (r_clock r LoopStart, s))"

definition sketch_announce :: "sketch_round \<Rightarrow> u64 \<Rightarrow> sketch_state \<Rightarrow> sketch_state" where
  "sketch_announce r loopStart s =
     (if \<not> pBLEScan (sk s) \<and> weHaveTheTime (sk_tracker (sk s)) \<and>
         loopStart - sk_lastAnnounce s > two_seconds_in_us
      then s\<lparr>sk := sk_on_tracker (esp_announceToConnections
                      ((r_env r)\<lparr>env_time_us := r_clock r AtAnnounce\<rparr>)) (sk s),
             sk_lastAnnounce := r_clock r AfterAnnounce\<rparr>
      else s)"

definition sketch_connecting :: "sketch_round \<Rightarrow> u64 \<Rightarrow> sketch_state \<Rightarrow> (u64 \<times> sketch_state) option" where
  "sketch_connecting r loopStart s =
     (if \<not> pBLEScan (sk s) \<and> \<not> sk_connection_in_progress (sk s) \<and>
         loopStart - sk_lastConnection s > three_seconds_in_us
      then (case sketch_connect (r_connect r) (r_blocked r) (sk s) of
              None \<Rightarrow> None
            | Some (connecting, u) \<Rightarrow>
                let s1 = s\<lparr>sk := u, sk_lastConnection := r_clock r AtConnect\<rparr>;
                    s2 = (if connecting then s1\<lparr>sk_lastAnnounce := r_clock r AfterConnect\<rparr> else s1)
                in Some (r_clock r LoopAfterConnect,
                         s2\<lparr>sk_lastSendPackets := r_clock r SendAfterConnect\<rparr>))
      else Some (loopStart, s))"

definition sketch_send :: "sketch_round \<Rightarrow> u64 \<Rightarrow> sketch_state \<Rightarrow> sketch_state" where
  "sketch_send r loopStart s =
     (if \<not> pBLEScan (sk s) \<and> \<not> sk_connection_in_progress (sk s) \<and>
         loopStart - sk_lastSendPackets s > one_second_in_us
      then let (active, (t, calls)) =
                 esp_sendPackets ((r_env r)\<lparr>env_time_us := r_clock r AtSend\<rparr>) (r_stack r)
                   (sk_tracker (sk s), sk_calls (sk s));
               u = (sk s)\<lparr>sk_tracker := t, sk_calls := calls\<rparr>
           in s\<lparr>sk := if active then sk_bump u else u,
                sk_lastSendPackets := r_clock r AfterSend\<rparr>
      else s)"

definition sketch_flash :: "sketch_round \<Rightarrow> u64 \<Rightarrow> sketch_state \<Rightarrow> sketch_state" where
  "sketch_flash r loopStart s =
     (if loopStart - sk_lastFlash s >
         (if sk_conn_count (sk s) > 0 then one_second_in_us else three_seconds_in_us)
      then s\<lparr>sk_lastFlash := r_clock r AfterFlash\<rparr> else s)"

definition sketch_rescan :: "sketch_round \<Rightarrow> u64 \<Rightarrow> sketch_state \<Rightarrow> u64 \<times> sketch_state" where
  "sketch_rescan r loopStart s =
     (if \<not> pBLEScan (sk s) \<and> \<not> sk_connection_in_progress (sk s) \<and>
         loopStart - sk_lastScan s >
           (if sk_conn_count (sk s) = 0 then five_seconds_in_us else thirty_seconds_in_us)
      then (r_clock r LoopAfterScan,
            s\<lparr>sk := sketch_start_scanning (sk s), sk_lastScan := r_clock r AfterScan,
              sk_lastSendPackets := r_clock r SendAfterScan\<rparr>)
      else (loopStart, s))"

text \<open>The pause of two seconds before the sleep, in which callbacks and the interrupt can run.\<close>

definition sketch_sleep :: "sketch_round \<Rightarrow> u64 \<Rightarrow> sketch_state \<Rightarrow> sketch_state option" where
  "sketch_sleep r loopStart s =
     (let t = sk_tracker (sk s)
      in if r_sleep_allowed r \<and>
            (weHaveTheTime t \<and> \<not> pBLEScan (sk s) \<and> \<not> sk_connection_in_progress (sk s) \<and>
               \<not> havePacketsToSend t \<or>
             loopStart - ucast (sk_boot_time s) > five_minutes_in_us)
         then map_option (\<lambda>u. s\<lparr>sk := u, asleep := (sk_last_activity s = sk_activity u)\<rparr>)
                (r_pause r (sk s))
         else Some s)"

definition sketch_loop :: "sketch_round \<Rightarrow> sketch_state \<Rightarrow> sketch_state option" where
  "sketch_loop r s =
     (let s1 = s\<lparr>sk := sketch_generateMessageIfNeeded
                 ((r_env r)\<lparr>env_time_us := r_clock r AtGenerate\<rparr>) (r_local_addr r)
                 (r_pin_level r) (sk s)\<rparr>
      in Option.bind (sketch_scan_results r s1) (\<lambda>(loopStart, s2).
         Option.bind (sketch_connecting r loopStart (sketch_announce r loopStart s2))
           (\<lambda>(loopStart, s3).
             let s4 = sketch_flash r loopStart (sketch_send r loopStart s3);
                 (loopStart, s5) = sketch_rescan r loopStart s4;
                 s6 = s5\<lparr>sk_last_activity := sk_activity (sk s5)\<rparr>
             in Option.bind (sketch_sleep r loopStart s6) (\<lambda>s7.
                  if asleep s7 then Some s7
                  else map_option (\<lambda>u. s7\<lparr>sk := u\<rparr>) (r_delay r (sk s7))))))"

fun sketch_run :: "sketch_round list \<Rightarrow> sketch_state \<Rightarrow> sketch_state option" where
  "sketch_run [] s = Some s"
| "sketch_run (r # rs) s =
     (if asleep s then Some s else Option.bind (sketch_loop r s) (sketch_run rs))"

end
