(* ===== verification/Sketch_Properties.thy ===== *)
theory Sketch_Properties
  imports Sketch_Main Processor_Properties Tracker_Invariant
begin

section \<open>Properties of the sketch\<close>

subsection \<open>Alarms\<close>

lemma sketch_event_message_simps [simp]:
  "malformed (sketch_event_message env a b s l t) = False"
  "packet_ttl (sketch_event_message env a b s l t) = 3"
  "content (sketch_event_message env a b s l t) = event_content b s l"
  "message_id (sketch_event_message env a b s l t) =
     write_uint64 [] (whole_minute (getTimeMs env t)) @
       (sketch_event_marker b s l # write_uint64 [] (env_board_id env))"
  by (simp_all add: sketch_event_message_def Let_def setContent_def setMessageId_def setChannel_def
      setSenderNickname_def Message_setLatitudeI_def Message_setLongitudeI_def
      Message_setAltitude_def Message_init5_def Base_init6_def Base_init4_def Base_init_def Message_blank_def
      setPayloadLength_def write_uint8_def u64c.put_append [of "_ @ _"])

lemma whole_buffer_at: "length xs < 65536 \<Longrightarrow> reader_at (BinaryReader 0 xs (of_nat (length xs))) xs"
  by (simp add: reader_at_def BinaryReader_def unat_of_nat take_bit_eq_mod)

lemma write_uint64_inject:
  assumes "write_uint64 [] x @ xs = write_uint64 [] y @ ys"
  shows "x = y"
proof -
  have same: "write_uint64 [] x = write_uint64 [] y"
    using assms by (simp add: append_eq_append_conv u64c.put_length)
  have "fst (read_uint64 (BinaryReader 0 (write_uint64 [] z) 8)) = z" for z
    using u64c.get_put [of _ z "[]"] whole_buffer_at [of "write_uint64 [] z"]
    by (simp add: u64c.put_length)
  then show ?thesis using same by metis
qed

lemma minute_in_id:
  "message_id (sketch_event_message env a b s l t) = message_id (sketch_event_message env' a' b' s' l' t')
    \<Longrightarrow> whole_minute (getTimeMs env t) = whole_minute (getTimeMs env' t')"
  unfolding sketch_event_message_simps by (rule write_uint64_inject)

text \<open>One round with an alarm pending, or the pin low, whose message is new.\<close>

lemma sketch_generate_new:
  fixes s :: sketch
  defines "t \<equiv> sk_tracker s"
  assumes "weHaveTheTime t" and "\<not> pin_state s \<or> \<not> level"
    and "m = sketch_event_message env a (sk_fresh_boot s) True (sk_life_check s) t"
    and "map_find (message_id m) (messages t) = None"
  shows "let u = sketch_generateMessageIfNeeded env a level s; v = sk_tracker u
    in messages v = map_put (message_id m) m (messages t) \<and>
       broadcast_packets_to_send_list v = broadcast_packets_to_send_list t @ [MessageRef (message_id m)] \<and>
       timestamp_offset_ms v = timestamp_offset_ms t \<and> pin_state u \<and> \<not> sk_fresh_boot u \<and>
       \<not> sk_life_check u"
proof -
  have ok: "\<not> malformed m" "packet_ttl m = 3" by (simp_all add: assms(4))
  have store: "storeMessageAndReturnIfNew m t = (Some (MessageRef (message_id m)),
      t\<lparr>messages := map_put (message_id m) m (messages t)\<rparr>)"
    using assms(5) ok(1) by (simp add: storeMessageAndReturnIfNew_def)
  have smoke: "(\<not> pin_state s \<or> \<not> level) = True" using assms(3) by simp
  show ?thesis
    unfolding sketch_generateMessageIfNeeded_def Let_def smoke t_def [symmetric] assms(4) [symmetric] store
    using assms(2) ok(2)
    by (simp add: enqueueBroadcastPacket_def packet_base_def base_of_def sk_bump_def)
qed

lemma smoke_in_content: "\<exists>before. event_content b True l = before @ ascii ''Smoke seen''"
  by (auto simp: event_content_def Let_def write_data_take ascii_def)

text \<open>
  C29: An alarm that lasts is reported again. While the smoke pin of the sketch reads low, a
  round of the loop in another minute stores and queues another alert: the first one is kept,
  both end with the text that smoke was seen, and both are at the end of the broadcast queue
  in the order of the rounds. (On the board of \<^verbatim>\<open>main.cpp\<close> only a falling edge counts.)
\<close>

theorem lasting_alarm_repeats:
  assumes "weHaveTheTime (sk_tracker s)"
    and "m1 = sketch_event_message env a (sk_fresh_boot s) True (sk_life_check s) (sk_tracker s)"
    and "map_find (message_id m1) (messages (sk_tracker s)) = None"
    and "s1 = sketch_generateMessageIfNeeded env a False s"
    and "m2 = sketch_event_message env' a False True False (sk_tracker s1)"
    and "map_find (message_id m2) (messages (sk_tracker s)) = None"
    and "whole_minute (getTimeMs env' (sk_tracker s)) \<noteq> whole_minute (getTimeMs env (sk_tracker s))"
  shows "let u = sk_tracker (sketch_generateMessageIfNeeded env' a False s1)
    in map_find (message_id m1) (messages u) = Some m1 \<and>
       map_find (message_id m2) (messages u) = Some m2 \<and> message_id m1 \<noteq> message_id m2 \<and>
       (\<exists>b1 b2. content m1 = b1 @ ascii ''Smoke seen'' \<and> content m2 = b2 @ ascii ''Smoke seen'') \<and>
       broadcast_packets_to_send_list u = broadcast_packets_to_send_list (sk_tracker s) @
         [MessageRef (message_id m1), MessageRef (message_id m2)]"
proof -
  have low: "\<not> pin_state s \<or> \<not> False" for s by simp
  note one = sketch_generate_new [OF assms(1) low assms(2,3), folded assms(4), unfolded Let_def]
  have time: "weHaveTheTime (sk_tracker s1)" "getTimeMs env' (sk_tracker s1) = getTimeMs env' (sk_tracker s)"
    using assms(1) one by (simp_all add: weHaveTheTime_def getTimeMs_def)
  have ids: "message_id m1 \<noteq> message_id m2"
    using assms(7) time(2) minute_in_id unfolding assms(2,5) by metis
  have m2: "m2 = sketch_event_message env' a (sk_fresh_boot s1) True (sk_life_check s1) (sk_tracker s1)"
    using one by (simp add: assms(5))
  have new: "map_find (message_id m2) (messages (sk_tracker s1)) = None"
    using assms(6) ids one by simp
  note two = sketch_generate_new [OF time(1) low m2 new, unfolded Let_def]
  have "\<exists>b1 b2. content m1 = b1 @ ascii ''Smoke seen'' \<and> content m2 = b2 @ ascii ''Smoke seen''"
    using smoke_in_content by (simp add: assms(2,5))
  then show ?thesis using one two ids by (simp add: Let_def)
qed

definition sample_sketch :: sketch where
  "sample_sketch = Sketch_init\<lparr>sk_fresh_boot := False,
     sk_tracker := Tracker_init\<lparr>timestamp_offset_ms := 1781273466000\<rparr>\<rparr>"

lemma sample_sketch_state:
  "weHaveTheTime (sk_tracker sample_sketch)" "messages (sk_tracker sample_sketch) = []"
  "\<not> sk_fresh_boot sample_sketch" "\<not> sk_life_check sample_sketch" "\<not> pBLEScan sample_sketch"
  "\<not> sk_connection_in_progress sample_sketch" "\<not> havePacketsToSend (sk_tracker sample_sketch)"
  by code_simp+

theorem lasting_alarm_repeats_witness:
  "let later = sample_env\<lparr>env_time_us := 65000000\<rparr>;
       s1 = sketch_generateMessageIfNeeded sample_env [1, 2, 3, 4, 5, 6] False sample_sketch
   in length (broadcast_packets_to_send_list (sk_tracker
        (sketch_generateMessageIfNeeded later [1, 2, 3, 4, 5, 6] False s1))) = 2"
proof -
  let ?later = "sample_env\<lparr>env_time_us := 65000000\<rparr>"
  have minutes: "whole_minute (getTimeMs ?later (sk_tracker sample_sketch)) \<noteq>
      whole_minute (getTimeMs sample_env (sk_tracker sample_sketch))"
    by (simp add: whole_minute_def getTimeMs_def sample_env_def sample_sketch_def Let_def)
  have "broadcast_packets_to_send_list (sk_tracker sample_sketch) = []"
    using sample_sketch_state(7) by (simp add: havePacketsToSend_def)
  then show ?thesis
    using lasting_alarm_repeats [OF sample_sketch_state(1) refl _ refl refl _ minutes,
        of "[1, 2, 3, 4, 5, 6]"] sample_sketch_state(2)
    by (simp add: Let_def)
qed

subsection \<open>Connecting\<close>

text \<open>
  C36: The sketch follows a dangling pointer when it connects. \<open>connect()\<close> blocks until the link
  is up, and NimBLE calls \<open>onConnect\<close> meanwhile, which reports the connection and takes the
  neighbour out of \<open>available_neighbours\<close>; the code after it reads the neighbour through a pointer
  into that map. Only when the callback comes after \<open>connect()\<close> has returned does the function
  get to its end, count as connecting and forget the neighbour.
\<close>

theorem connect_follows_dangling_pointer:
  assumes "getConnectableNeighbours (sk_tracker s) = take 6 address # rest"
    and "map_find (take 6 address) (available_neighbours (sk_tracker s)) = Some neighbour"
    and "getConnectionForAddress (bt_address neighbour) (sk_tracker s) = None"
    and "client_created r" and "did_connect r"
  shows "sketch_connect r (\<lambda>s. Some (client_onConnect env h address ty master slave s)) s = None \<and>
    (\<exists>u. sketch_connect r Some s = Some (True, u) \<and>
       map_find (bt_address neighbour) (available_neighbours (sk_tracker u)) = None)"
proof -
  have "map_find (take 6 address)
      (available_neighbours (sk_tracker (client_onConnect env h address ty master slave s))) = None"
    by (simp add: client_onConnect_def sk_bump_def sk_on_tracker_def esp_reportConnection_def
        reportConnection_def alter_connection_def Let_def)
  then have "sketch_connect r (\<lambda>s. Some (client_onConnect env h address ty master slave s)) s = None"
    using assms by (simp add: sketch_connect_def Let_def)
  moreover have "\<exists>u. sketch_connect r Some s = Some (True, u) \<and>
       map_find (bt_address neighbour) (available_neighbours (sk_tracker u)) = None"
    using assms by (simp add: sketch_connect_def Let_def sk_bump_def sk_on_tracker_def
        setConnectionStarted_def)
  ultimately show ?thesis by blast
qed

theorem connect_follows_dangling_pointer_witness:
  "sketch_connect \<lparr>client_created = True, did_connect = True, last_error = 0, still_connected = True\<rparr>
     (\<lambda>s. Some (client_onConnect sample_env 0x41 [1, 2, 3, 4, 5, 6] 0 True False s))
     (sk_on_tracker (addAvailablePeer sample_env [1, 2, 3, 4, 5, 6] 0 ServiceUUIDAndNameFound 200 False)
        sample_sketch) = None"
proof -
  let ?s = "sk_on_tracker (addAvailablePeer sample_env [1, 2, 3, 4, 5, 6] 0 ServiceUUIDAndNameFound 200 False)
        sample_sketch"
  have "getConnectableNeighbours (sk_tracker ?s) = take 6 [1, 2, 3, 4, 5, 6] # []"
    "map_find (take 6 [1, 2, 3, 4, 5, 6]) (available_neighbours (sk_tracker ?s)) \<noteq> None"
    "connections (sk_tracker ?s) = []"
    by code_simp+
  then show ?thesis
    using connect_follows_dangling_pointer [of ?s "[1, 2, 3, 4, 5, 6]" "[]"]
    by (fastforce simp: getConnectionForAddress_def)
qed

subsection \<open>Sleeping\<close>

lemma esp_processWrite_message:
  assumes "packet_version m = 1" and "packet_type m = type_message" and "\<not> hasSignature m"
    and "payload_length m = 0 \<or>
         payload_length m = of_nat (length (Message_writePacketPayload [] m))"
    and "channel m = [] \<or> content m \<noteq> []"
    and "Message_writePacketPayload [] m \<noteq> []"
    and "Message_writePacket m = (packet, m')"
  shows "esp_processWrite env con 0 packet (of_nat (length packet)) t =
     processWrite env con 0 packet (of_nat (length packet)) t"
proof -
  have "length packet < 65536"
    using message_packet_short [OF assms(1-5)] assms(7) by simp
  from message_round_trip_lemma [OF assms, of "length packet" "[]"] this obtain r1 r2 where
    "read_uint8 (BinaryReader 0 packet (of_nat (length packet))) = (1, r1)"
    "read_uint8 r1 = (type_message, r2)"
    by (auto simp: packet_reader_def)
  then show ?thesis
    by (simp add: esp_processWrite_def processWrite_def processWrite_with_def Let_def)
qed

text \<open>
  C38: The sketch can fall asleep on an alert. It looks for activity for two seconds before the
  deep sleep, but \<open>notifyCB\<close> does not count as activity: a message that a neighbour notifies in
  that pause, new and with hops to go, is stored and queued for relaying, and the board goes
  to sleep with it, losing both.
\<close>

theorem sleeps_on_alert:
  assumes "packet_version m = 1" and "packet_type m = type_message" and "\<not> hasSignature m"
    and "payload_length m = 0 \<or>
         payload_length m = of_nat (length (Message_writePacketPayload [] m))"
    and "channel m = [] \<or> content m \<noteq> []"
    and "Message_writePacketPayload [] m \<noteq> []"
    and "Message_writePacket m = (packet, m')" and "packet_ttl m > 1"
    and "map_find (take 255 (message_id m)) (messages (sk_tracker (sk s))) = None"
    and "r_sleep_allowed r" and "r_pause r = notifyCB env h packet (of_nat (length packet))"
    and "weHaveTheTime (sk_tracker (sk s))" and "\<not> pBLEScan (sk s)"
    and "\<not> sk_connection_in_progress (sk s)" and "\<not> havePacketsToSend (sk_tracker (sk s))"
    and "sk_last_activity s = sk_activity (sk s)"
  shows "\<exists>u. sketch_sleep r loopStart s = Some u \<and> asleep u \<and>
     map_find (take 255 (message_id m)) (messages (sk_tracker (sk u))) \<noteq> None \<and>
     broadcast_packets_to_send_list (sk_tracker (sk u)) = [MessageRef (take 255 (message_id m))]"
proof -
  let ?t = "snd (connectionForConnHandle h (sk_tracker (sk s)))"
  have t: "messages ?t = messages (sk_tracker (sk s))"
    "broadcast_packets_to_send_list ?t = broadcast_packets_to_send_list (sk_tracker (sk s))"
    by (simp_all add: connectionForConnHandle_def alter_connection_def split: option.split)
  have new: "map_find (take 255 (message_id m)) (messages ?t) = None" using assms(9) t by simp
  obtain p v where c: "connectionForConnHandle h (sk_tracker (sk s)) = (p, v)"
    by (cases "connectionForConnHandle h (sk_tracker (sk s))")
  from message_travels_lemma [OF assms(1-7) new, of env "map_at BleConnection_blank p (connections v)"]
  obtain w where w: "processWrite env (map_at BleConnection_blank p (connections v)) 0 packet
      (of_nat (length packet)) v = Some w"
    "map_find (take 255 (message_id m)) (messages w) \<noteq> None"
    "broadcast_packets_to_send_list w =
      broadcast_packets_to_send_list (sk_tracker (sk s)) @ [MessageRef (take 255 (message_id m))]"
    using assms(8) t by (auto simp: c)
  have "notifyCB env h packet (of_nat (length packet)) (sk s) = Some ((sk s)\<lparr>sk_tracker := w\<rparr>)"
    by (simp add: notifyCB_def sketch_receive_def c Let_def w(1) esp_processWrite_message [OF assms(1-7)])
  then show ?thesis
    using assms(10-16) w(2,3) by (simp add: sketch_sleep_def Let_def havePacketsToSend_def)
qed

definition sample_round :: sketch_round where
  "sample_round = \<lparr>r_env = sample_env, r_clock = (\<lambda>_. 0), r_local_addr = [1, 2, 3, 4, 5, 6],
     r_pin_level = True, r_sleep_allowed = True,
     r_stack = \<lparr>client_for = (\<lambda>_. None), server_has_characteristic = True, takes = (\<lambda>_. True)\<rparr>,
     r_connect = \<lparr>client_created = False, did_connect = False, last_error = 0,
       still_connected = False\<rparr>,
     r_scan = Some, r_blocked = Some,
     r_pause = notifyCB sample_env 0x41 sample_packet (of_nat (length sample_packet)),
     r_delay = Some\<rparr>"

theorem sleeps_on_alert_witness:
  "\<exists>u. sketch_sleep sample_round 0 ((sketch_statics 0)\<lparr>sk := sample_sketch\<rparr>) = Some u \<and> asleep u"
proof -
  let ?s = "(sketch_statics 0)\<lparr>sk := sample_sketch\<rparr>"
  have ttl: "packet_ttl sample_message > 1" by (simp add: sample_message_valid)
  have new: "map_find (take 255 (message_id sample_message)) (messages (sk_tracker (sk ?s))) = None"
    by (simp add: sample_sketch_state)
  have round: "r_sleep_allowed sample_round"
    "r_pause sample_round = notifyCB sample_env 0x41 sample_packet (of_nat (length sample_packet))"
    by (simp_all add: sample_round_def)
  have idle: "weHaveTheTime (sk_tracker (sk ?s))" "\<not> pBLEScan (sk ?s)"
    "\<not> sk_connection_in_progress (sk ?s)" "\<not> havePacketsToSend (sk_tracker (sk ?s))"
    "sk_last_activity ?s = sk_activity (sk ?s)"
    using sample_sketch_state
    by (simp_all add: sketch_statics_def) (simp_all add: sample_sketch_def Sketch_init_def)
  from sleeps_on_alert [OF sample_message_valid(1-3) disjI1 [OF sample_message_valid(4)]
      disjI1 [OF sample_message_valid(5)] sample_message_valid(6) sample_message_written ttl new
      round idle]
  show ?thesis by blast
qed

subsection \<open>Preferences and the clock\<close>

lemma c_str_whole: "0 \<notin> set s \<Longrightarrow> c_str s = s"
  by (auto simp: c_str_def takeWhile_eq_all_conv)

lemma esp_preferences_restart:
  assumes "0 \<notin> set (key p)" "0 \<notin> set (ssid p)" "0 \<notin> set (password p)"
  shows "preferences_eq (prefs (esp_load_preferences (esp_savePreferencesToFlash p) t)) p"
  using assms by (simp add: esp_load_preferences_def esp_savePreferencesToFlash_def Let_def c_str_whole
      preferences_eq_def setKey_def setSsid_def setPassword_def setLatitudeI_def setLongitudeI_def
      setAltitude_def)

text \<open>
  The ESP32 stores strings through \<open>c_str()\<close>, so a key with a zero byte behind its first
  byte comes back from its storage cut there. From then on the node is lost to its owner:
  preferences with the key that was stored change nothing.
\<close>

theorem truncated_key_refuses_owner:
  assumes "key p = k @ 0 # rest" and "k \<noteq> []" and "0 \<notin> set k" and "key q = key p"
  shows "let u = esp_load_preferences (esp_savePreferencesToFlash p) t
         in key (prefs u) = k \<and> esp_updatePreferences env q save u = u"
proof -
  have "c_str (key p) = k"
    using assms(1,3) by (auto simp: c_str_def takeWhile_append takeWhile_eq_all_conv)
  moreover have "c_str k = k" using assms(3) by (rule c_str_whole)
  ultimately have "key (prefs (esp_load_preferences (esp_savePreferencesToFlash p) t)) = k"
    by (simp add: esp_load_preferences_def esp_savePreferencesToFlash_def Let_def setKey_def setSsid_def
        setPassword_def setLatitudeI_def setLongitudeI_def setAltitude_def)
  then show ?thesis using assms(1,2,4) by (simp add: esp_updatePreferences_def)
qed

theorem truncated_key_refuses_owner_witness:
  "let p = Preferences_blank\<lparr>key := [7, 0, 9], packet_recipient_id := getMySenderId sample_env\<rparr>;
       u = esp_load_preferences (esp_savePreferencesToFlash p) Tracker_init
   in key (prefs u) = [7] \<and> esp_updatePreferences sample_env (p\<lparr>ssid := [1]\<rparr>) True u = u"
  using truncated_key_refuses_owner [where k = "[7]" and rest = "[9]" and t = Tracker_init
      and p = "Preferences_blank\<lparr>key := [7, 0, 9], packet_recipient_id := getMySenderId sample_env\<rparr>"
      and q = "Preferences_blank\<lparr>key := [7, 0, 9], packet_recipient_id := getMySenderId sample_env,
         ssid := [1]\<rparr>" and env = sample_env and save = True]
  by (simp add: Let_def)

text \<open>The clock of the sketch goes back by 71 minutes when the 32-bit counter wraps.\<close>

lemma sketch_clock_goes_back:
  assumes "env_time_us env = sketch_time_us_64 0xFFFFFFFF" and "env_time_us env' = sketch_time_us_64 (0xFFFFFFFF + 1)"
  shows "getTimeMs env' t = getTimeMs env t - 4294967"
  using assms by (simp add: getTimeMs_def sketch_time_us_64_def)

end
