(* ===== verification/Alert_Delivery.thy ===== *)
theory Alert_Delivery
  imports Mesh_Network Send_Properties
begin

section \<open>From the pin to the stack\<close>

text \<open>
  The parts of \<^verbatim>\<open>main.cpp\<close> and the tracker composed in the order the main loop runs them: an
  alert is generated, sent in one round of \<open>sendPackets\<close>, and handed to the stack when the
  stack calls back.
\<close>

lemma packet_not_listed:
  assumes "tracker_ok t" and "map_find i (messages t) = None"
  shows "mm_find_on (MessageRef i) (packets_connections_sent_list t) = []"
proof -
  have "\<forall>e \<in> set (packets_connections_sent_list t). fst e \<noteq> MessageRef i"
    using assms by (auto simp: tracker_ok_def refs_ok_def live_packet_def packet_base_def)
  then show ?thesis by (simp add: mm_find_on_def dropWhile_eq_Nil_conv)
qed

lemma send_one_broadcast:
  assumes "broadcast_packets_to_send_list t = [p]" and "targeted_packets_to_send_list t = []"
    and "available_connections t = [(h, c)]" and "broadcast_sendable t p c"
  shows "snd (sendPackets env t) =
    (mark_sent env p h (snd (SendPacketToConnection env p h t)))\<lparr>broadcast_packets_to_send_list := []\<rparr>"
proof -
  have "t\<lparr>targeted_packets_to_send_list := []\<rparr> = t" using assms(2) by simp
  then show ?thesis
    using assms by (simp add: sendPackets_def havePacketsToSend_def Let_def erase_if_def)
qed

text \<open>What sending one packet to a notified connection leaves to be called back for.\<close>

lemma SendPacket_to_slave:
  assumes "packet_base t p = Some b" and "connection_at t h = Some c" and "connection_handle c = h"
    and "role c = HCI_ROLE_SLAVE" and "sending_connection_handle b = 0"
    and "bt_mtu c = 0 \<or> length (fst (packet_write p t)) \<le> unat (bt_mtu c)"
    and "u = snd (SendPacketToConnection env p h t)"
  shows "notify_registration u = h"
    and "raw_packet_to_notify u =
      mm_emplace (\<lambda>h. h) h (fst (packet_write p t)) (raw_packet_to_notify t)"
    and "has_data_to_send (map_at BleConnection_blank h (connections u))"
proof -
  obtain data t1 where data: "packet_write p t = (data, t1)" by (cases "packet_write p t")
  then have t1: "raw_packet_to_notify t1 = raw_packet_to_notify t" "bt_calls t1 = bt_calls t"
    using packet_write_queues [of p t] by simp_all
  have fits: "(bt_mtu c \<noteq> 0 \<and> unat (bt_mtu c) < length data) = False" using assms(6) data by auto
  have u: "u = snd (queue_raw_packet env h c data t1)"
    by (simp only: assms(1-5,7) SendPacketToConnection_def data fits Let_def prod.case option.case
        if_False snd_conv) simp
  show "notify_registration u = h"
    and "raw_packet_to_notify u = mm_emplace (\<lambda>h. h) h (fst (packet_write p t)) (raw_packet_to_notify t)"
    and "has_data_to_send (map_at BleConnection_blank h (connections u))"
    unfolding u data
    by (simp_all add: queue_raw_packet_def assms(3,4) t1 Let_def split_def bt_invoke_def
        alter_connection_def map_alter_def map_at_def map_find_put setHasData_def split: option.split)
qed

lemma SendPacket_asks:
  assumes "packet_base t p = Some b" and "connection_at t h = Some c" and "connection_handle c = h"
    and "role c = HCI_ROLE_SLAVE" and "sending_connection_handle b = 0"
    and "bt_mtu c = 0 \<or> length (fst (packet_write p t)) \<le> unat (bt_mtu c)"
    and "u = snd (SendPacketToConnection env p h t)"
  shows "RequestNotification h \<in> set (bt_calls u)"
  using assms
  by (auto simp: SendPacketToConnection_def queue_raw_packet_def Let_def split_def bt_invoke_def)

text \<open>One broadcast packet, one notified connection: a round and the callback of the stack.\<close>

lemma broadcast_and_callback:
  assumes "tracker_ok t" and "broadcast_packets_to_send_list t = [p]"
    and "targeted_packets_to_send_list t = []" and "available_connections t = [(h, c)]"
    and "connection_handle c = h" and "role c = HCI_ROLE_SLAVE"
    and "packet_base t p = Some b" and "sending_connection_handle b = 0"
    and "bt_mtu c = 0 \<or> length (fst (packet_write p t)) \<le> unat (bt_mtu c)"
    and "mm_find_on p (packets_connections_sent_list t) = []"
    and "mm_values h (raw_packet_to_notify t) = []"
  shows "\<exists>u v later. packet_can_send_notification_handler env (snd (sendPackets env t)) = Some u \<and>
    bt_calls u = bt_calls (snd (sendPackets env t)) @ ServerNotify h v (fst (packet_write p t)) # later"
proof -
  define u where "u = snd (SendPacketToConnection env p h t)"
  define w where "w = snd (sendPackets env t)"
  have at: "connection_at t h = Some c"
    using available_connection_at(1) [OF ok_stores [OF assms(1)], of h c] assms(4) by simp
  have "broadcast_sendable t p c" by (simp add: broadcast_sendable_def assms(10))
  then have w: "w = (mark_sent env p h u)\<lparr>broadcast_packets_to_send_list := []\<rparr>"
    using send_one_broadcast [OF assms(2,3,4)] by (simp add: w_def u_def)
  note sent = SendPacket_to_slave [OF assms(7) at assms(5,6,8,9) u_def]
  have reg: "notify_registration w = h" using sent(1) by (simp add: w mark_sent_def)
  have "mm_values h (raw_packet_to_notify w) = [fst (packet_write p t)]"
    using mm_values_emplace [OF raw_queue_sorted(1) [OF assms(1)]] assms(11)
    by (simp add: w mark_sent_def sent(2))
  moreover have "raw_asserted env h w"
    using sent(3) by (simp add: raw_asserted_def ASSERT_DEBUG_def w mark_sent_def)
  ultimately show ?thesis
    using notify_front [OF sendPackets_ok [OF assms(1), of env, folded w_def], of h _ "[]" env h]
    by (auto simp: packet_can_send_notification_handler_def w_def [symmetric] reg Let_def)
qed

text \<open>What a board does with the notification of a message it does not know.\<close>

lemma notified_stores:
  assumes "sound m" and "map_find (message_id m) (messages (connection_tracker e)) = None"
  shows "\<exists>u r. handle_gatt_client_value_update_event env (Notification k (fst (Message_writePacket m))
      (of_nat (length (fst (Message_writePacket m))))) e = Some u \<and>
    map_find (message_id m) (messages (connection_tracker u)) = Some r \<and> alike r m"
proof -
  let ?t = "snd (connectionForConnHandle k (connection_tracker (bump_activity e)))"
  have "messages ?t = messages (connection_tracker e)"
    by (simp add: connectionForConnHandle_def alter_connection_def bump_activity_def split: option.split)
  then have "map_find (message_id m) (messages ?t) = None" using assms(2) by simp
  from relayed_sound [OF assms(1) this, of env "map_at BleConnection_blank k (connections ?t)"]
  obtain u r where u: "processWrite env (map_at BleConnection_blank k (connections ?t)) 0
      (fst (Message_writePacket m)) (of_nat (length (fst (Message_writePacket m)))) ?t = Some u"
    "map_find (message_id m) (messages u) = Some r" "alike r m" by blast
  have "fst (connectionForConnHandle k t) = k" for t
    by (simp add: connectionForConnHandle_def split: option.split)
  then have "handle_gatt_client_value_update_event env (Notification k (fst (Message_writePacket m))
      (of_nat (length (fst (Message_writePacket m))))) e = Some ((bump_activity e)\<lparr>connection_tracker := u\<rparr>)"
    using u(1) by (simp add: handle_gatt_client_value_update_event_def Let_def split_def)
  then show ?thesis using u(2,3) by simp
qed

text \<open>What generating an alert leaves in an empty broadcast queue.\<close>

lemma event_message_header:
  "\<not> malformed (event_message env boot smoke life t)" "packet_ttl (event_message env boot smoke life t) = 3"
  "sending_connection_handle (event_message env boot smoke life t) = 0"
  by simp_all (simp add: event_message_def Let_def setSenderNickname_def
      Message_setAltitude_def Message_setLongitudeI_def Message_setLatitudeI_def setChannel_def
      setMessageId_def setContent_def Message_init5_def Base_init6_def Base_init_def Message_blank_def
      setPayloadLength_def)

lemma alert_queued:
  assumes "weHaveTheTime (connection_tracker d)" and "fresh_boot d \<or> smoke_seen d \<or> life_check d"
    and "m = event_message env (fresh_boot d) (smoke_seen d) (life_check d) (connection_tracker d)"
    and "map_find (message_id m) (messages (connection_tracker d)) = None"
    and "broadcast_packets_to_send_list (connection_tracker d) = []"
  shows "generateMessageIfNeeded env d =
    bump_activity (d\<lparr>fresh_boot := False, life_check := False, smoke_seen := False,
      connection_tracker := (connection_tracker d)
        \<lparr>messages := map_put (message_id m) m (messages (connection_tracker d)),
         broadcast_packets_to_send_list := [MessageRef (message_id m)]\<rparr>\<rparr>)"
proof -
  let ?t = "connection_tracker d" and ?i = "message_id m"
  have ok: "\<not> malformed m" "packet_ttl m = 3" unfolding assms(3) by (rule event_message_header)+
  have "storeMessageAndReturnIfNew m ?t =
      (Some (MessageRef ?i), ?t\<lparr>messages := map_put ?i m (messages ?t)\<rparr>)"
    using assms(4) ok(1) by (simp add: storeMessageAndReturnIfNew_def)
  note gen = generate_form [OF assms(1,2), of env, folded assms(3), unfolded this Let_def
      prod.case option.case]
  show ?thesis
    using ok(2) assms(5)
    by (simp add: gen enqueueBroadcastPacket_def packet_base_def base_of_def bump_activity_def)
qed

text \<open>
  C4: A smoke alarm reaches the neighbour. When the smoke pin has fallen on a node that knows
  the time, is connected to one neighbour that it notifies and has nothing else to send, then
  after one round of generating, sending and the callback of the stack, which does not run into
  its assertion, the stack has been handed a packet for that neighbour. Its text says that smoke was seen, and any board that is
  notified of those bytes and does not know the message stores it with that text.
\<close>

theorem alarm_leaves_board:
  assumes "tracker_ok (connection_tracker d)" and "weHaveTheTime (connection_tracker d)"
    and "smoke_seen d"
    and "m = event_message env (fresh_boot d) (smoke_seen d) (life_check d) (connection_tracker d)"
    and "map_find (message_id m) (messages (connection_tracker d)) = None"
    and "broadcast_packets_to_send_list (connection_tracker d) = []"
    and "targeted_packets_to_send_list (connection_tracker d) = []"
    and "available_connections (connection_tracker d) = [(h, c)]"
    and "connection_handle c = h" and "role c = HCI_ROLE_SLAVE"
    and "bt_mtu c = 0 \<or> length (fst (Message_writePacket m)) \<le> unat (bt_mtu c)"
    and "mm_values h (raw_packet_to_notify (connection_tracker d)) = []"
  shows "let t = snd (sendPackets env (connection_tracker (generateMessageIfNeeded env d)))
         in \<exists>u v data later. packet_can_send_notification_handler env t = Some u \<and>
              bt_calls u = bt_calls t @ ServerNotify h v data # later \<and>
              (\<exists>before. content m = before @ ascii ''Smoke seen'') \<and>
              (\<forall>env' k e. map_find (message_id m) (messages (connection_tracker e)) = None \<longrightarrow>
                 (\<exists>e' r. handle_gatt_client_value_update_event env'
                     (Notification k data (of_nat (length data))) e = Some e' \<and>
                   map_find (message_id m) (messages (connection_tracker e')) = Some r \<and>
                   content r = content m))"
proof -
  let ?t0 = "connection_tracker d"
  define i where "i = message_id m"
  define t1 where "t1 = connection_tracker (generateMessageIfNeeded env d)"
  have pending: "fresh_boot d \<or> smoke_seen d \<or> life_check d" using assms(3) by simp
  have origin: "sending_connection_handle m = 0" unfolding assms(4) by (rule event_message_header)
  have t1: "t1 = ?t0\<lparr>messages := map_put i m (messages ?t0),
      broadcast_packets_to_send_list := [MessageRef i]\<rparr>"
    unfolding t1_def i_def alert_queued [OF assms(2) pending assms(4-6)] by simp
  have t1_ok: "tracker_ok t1" using generate_ok [OF assms(1)] by (simp add: t1_def)
  have bytes: "fst (packet_write (MessageRef i) t1) = fst (Message_writePacket m)"
    by (simp add: packet_write_def t1 split_def Let_def)
  have base: "packet_base t1 (MessageRef i) = Some (base_of m)"
    by (simp add: packet_base_def t1)
  have "mm_find_on (MessageRef i) (packets_connections_sent_list t1) = []"
    using packet_not_listed [OF assms(1,5)] by (simp add: t1 i_def)
  from broadcast_and_callback [OF t1_ok _ _ _ assms(9,10) base _ _ this, of env]
  have "\<exists>u v later. packet_can_send_notification_handler env (snd (sendPackets env t1)) = Some u \<and>
      bt_calls u = bt_calls (snd (sendPackets env t1)) @ ServerNotify h v (fst (Message_writePacket m)) # later"
    using assms(7,8,11,12) origin bytes
    by (simp add: t1 available_connections_def base_of_def)
  moreover have "content m = event_content (fresh_boot d) (smoke_seen d) (life_check d)"
    by (simp add: assms(4))
  moreover have "sound m"
    using event_genuine [OF pending, of env ?t0 "{}"] by (simp add: assms(4) genuine_def)
  ultimately show ?thesis
    using event_content_smoke [OF pending] assms(3) notified_stores [of m]
    unfolding t1_def Let_def alike_def by (metis (no_types, lifting))
qed

text \<open>
  The witness: \<open>sample_alarm\<close> with one neighbour connected as handle \<open>0x40\<close>, no MTU agreed yet.
\<close>

definition connected_alarm :: device where
  "connected_alarm = sample_alarm\<lparr>connection_tracker := (connection_tracker sample_alarm)
     \<lparr>connections := [(0x40, sample_connection)]\<rparr>\<rparr>"

lemma connected_alarm_state:
  "weHaveTheTime (connection_tracker connected_alarm)" "smoke_seen connected_alarm"
  "messages (connection_tracker connected_alarm) = []"
  "broadcast_packets_to_send_list (connection_tracker connected_alarm) = []"
  "targeted_packets_to_send_list (connection_tracker connected_alarm) = []"
  "available_connections (connection_tracker connected_alarm) = [(0x40, sample_connection)]"
  "raw_packet_to_notify (connection_tracker connected_alarm) = []"
  "connection_handle sample_connection = 0x40" "role sample_connection = HCI_ROLE_SLAVE"
  "bt_mtu sample_connection = 0"
  by code_simp+

lemma connected_alarm_ok: "tracker_ok (connection_tracker connected_alarm)"
  by (simp add: tracker_ok_def stores_ok_def refs_ok_def connected_alarm_def sample_alarm_def
      Tracker_init_def map_sorted_def mm_sorted_def)

theorem alarm_leaves_board_witness:
  "\<exists>u h v data. packet_can_send_notification_handler sample_env (snd (sendPackets sample_env
       (connection_tracker (generateMessageIfNeeded sample_env connected_alarm)))) = Some u \<and>
     ServerNotify h v data \<in> set (bt_calls u)"
proof -
  let ?m = "event_message sample_env (fresh_boot connected_alarm) (smoke_seen connected_alarm)
      (life_check connected_alarm) (connection_tracker connected_alarm)"
  note s = connected_alarm_state
  have new: "map_find (message_id ?m) (messages (connection_tracker connected_alarm)) = None"
    by (simp add: s(3))
  have mtu: "bt_mtu sample_connection = 0 \<or>
      length (fst (Message_writePacket ?m)) \<le> unat (bt_mtu sample_connection)"
    by (simp add: s(10))
  have idle: "mm_values 0x40 (raw_packet_to_notify (connection_tracker connected_alarm)) = []"
    by (simp add: s(7))
  show ?thesis
    using alarm_leaves_board [OF connected_alarm_ok s(1,2) refl new s(4-6,8,9) mtu idle]
    by (simp only: Let_def) (fastforce simp del: event_message_simps)
qed

section \<open>One registration for every connection\<close>

text \<open>
  \<open>notifyRawPacket\<close> looks no lower than its own handle, so whatever waits for a lower handle than
  the one registered waits on.
\<close>

lemma mm_values_erase_lower:
  assumes "k < h"
  shows "mm_values k (mm_erase_first (\<lambda>h. h) h m) = mm_values k m"
proof (induction m)
  case (Cons e m)
  then show ?case using assms by (auto simp: mm_erase_first_def mm_lower_bound_def)
qed (simp add: mm_erase_first_def mm_lower_bound_def)

lemma notify_keeps_lower:
  assumes "k < h" and "notifyRawPacket env h t = Some u"
  shows "mm_values k (raw_packet_to_notify u) = mm_values k (raw_packet_to_notify t)"
    and "\<exists>later. bt_calls u = bt_calls t @ later \<and> (\<forall>v d. ServerNotify k v d \<notin> set later)"
  using assms
  by (auto simp: notifyRawPacket_def Let_def split_def bt_invoke_def alter_connection_def
      mm_values_erase_lower split: list.splits if_split_asm)

lemma notify_keeps:
  assumes "notifyRawPacket env h t = Some u"
  shows "notify_registration t = h \<Longrightarrow> notify_registration u = h"
    and "raw_asserted env k u = raw_asserted env k t"
  using assms
  by (auto simp: notifyRawPacket_def raw_asserted_def Let_def split_def bt_invoke_def
      alter_connection_def split: list.splits if_split_asm)

text \<open>The stack calls back \<open>n\<close> times; the result is \<open>None\<close> when one of the callbacks aborts.\<close>

fun notify_callbacks :: "environment \<Rightarrow> nat \<Rightarrow> tracker \<Rightarrow> tracker option" where
  "notify_callbacks env 0 t = Some t"
| "notify_callbacks env (Suc n) t =
     Option.bind (packet_can_send_notification_handler env t) (notify_callbacks env n)"

lemma lower_handles_wait:
  assumes "k < notify_registration t" and "raw_asserted env (notify_registration t) t"
  shows "\<exists>u. notify_callbacks env n t = Some u \<and>
    mm_values k (raw_packet_to_notify u) = mm_values k (raw_packet_to_notify t) \<and>
    (\<exists>later. bt_calls u = bt_calls t @ later \<and> (\<forall>v d. ServerNotify k v d \<notin> set later))"
  using assms
proof (induction n arbitrary: t)
  case (Suc n)
  let ?h = "notify_registration t"
  obtain v where v: "notifyRawPacket env ?h t = Some v"
    using Suc.prems(2) notify_aborts [of env ?h t] by (cases "notifyRawPacket env ?h t") auto
  note kept = notify_keeps [OF v, simplified]
  from Suc.IH [of v] Suc.prems obtain u later where u: "notify_callbacks env n v = Some u"
      "mm_values k (raw_packet_to_notify u) = mm_values k (raw_packet_to_notify v)"
      "bt_calls u = bt_calls v @ later" "\<forall>x d. ServerNotify k x d \<notin> set later"
    by (auto simp: kept)
  note low = notify_keeps_lower [OF Suc.prems(1) v]
  obtain more where "bt_calls v = bt_calls t @ more" "\<forall>x d. ServerNotify k x d \<notin> set more"
    using low(2) by blast
  then show ?case
    using u low(1) v
    by (auto simp: packet_can_send_notification_handler_def intro!: exI [of _ "more @ later"])
qed simp

lemma notify_hands_over:
  assumes "tracker_ok t" and "mm_values h (raw_packet_to_notify t) = d # ds"
    and "notifyRawPacket env h t = Some u"
  shows "handed u = handed t @ [d]"
proof -
  obtain rest where front: "mm_lower_bound (\<lambda>h. h) h (raw_packet_to_notify t) = (h, d) # rest"
    using raw_front [OF raw_queue_sorted(1) [OF assms(1)] assms(2)] by blast
  show ?thesis
    using assms(3)
    by (auto simp: notifyRawPacket_def Let_def split_def front bt_invoke_def alter_connection_def
        handed_def split: if_split_asm)
qed

text \<open>
  C27: The callbacks empty the queue. When the stack takes what it is given, and the link has its
  \<open>hasData\<close> flag, which the callbacks assert, as many callbacks for the link as packets wait for
  it hand the stack all of them, in the order they were queued, and leave none; none of them
  aborts, and the packets of other connections stay.
\<close>

theorem callbacks_drain:
  assumes "tracker_ok t" and "notify_registration t = h" and "\<forall>calls. env_status env calls = 0"
    and "mm_values h (raw_packet_to_notify t) = ds"
    and "env_asserts env \<longrightarrow> has_data_to_send (map_at BleConnection_blank h (connections t))"
  shows "\<exists>u. notify_callbacks env (length ds) t = Some u \<and>
     handed u = handed t @ ds \<and> mm_values h (raw_packet_to_notify u) = [] \<and>
     (j = h \<or> mm_values j (raw_packet_to_notify u) = mm_values j (raw_packet_to_notify t))"
proof -
  have "raw_asserted env h t" using assms(5) by (simp add: raw_asserted_def ASSERT_DEBUG_def)
  then show ?thesis
    using assms(1-4)
  proof (induction ds arbitrary: t)
    case (Cons d ds)
    have done1: "raw_done (env_status env calls)" for calls
      using Cons.prems(4) by (simp add: raw_done_def)
    obtain v where v: "notifyRawPacket env h t = Some v" "mm_values h (raw_packet_to_notify v) = ds"
      "j = h \<or> mm_values j (raw_packet_to_notify v) = mm_values j (raw_packet_to_notify t)"
      using notify_front [OF Cons.prems(2,5,1), of j] done1 by (auto simp: Let_def)
    have "\<exists>u. notify_callbacks env (length ds) v = Some u \<and>
       handed u = handed v @ ds \<and> mm_values h (raw_packet_to_notify u) = [] \<and>
       (j = h \<or> mm_values j (raw_packet_to_notify u) = mm_values j (raw_packet_to_notify v))"
      using Cons.prems notify_keeps [OF v(1)] notifyRawPacket_ok [OF _ v(1)] v(2)
      by (intro Cons.IH) auto
    then show ?case
      using v notify_hands_over [OF Cons.prems(2,5) v(1)] Cons.prems(3)
      by (auto simp: packet_can_send_notification_handler_def)
  qed simp
qed

theorem callbacks_drain_witness:
  "\<exists>u. notify_callbacks sample_env 2 (busy_tracker [(0x40, [1]), (0x40, [2]), (0x41, [3])]) = Some u \<and>
     handed u = handed (busy_tracker [(0x40, [1]), (0x40, [2]), (0x41, [3])]) @ [[1], [2]]"
proof -
  let ?t = "busy_tracker [(0x40, [1]), (0x40, [2]), (0x41, [3])]"
  have ok: "tracker_ok ?t" by (rule busy_tracker_ok) (simp add: mm_sorted_def)
  have taken: "\<forall>calls. env_status sample_env calls = 0" by (simp add: sample_env_status)
  have waiting: "mm_values 0x40 (raw_packet_to_notify ?t) = [[1], [2]]" by simp
  have flag: "env_asserts sample_env \<longrightarrow> has_data_to_send (map_at BleConnection_blank 0x40 (connections ?t))"
    using busy_tracker_asserted by (simp add: raw_asserted_def ASSERT_DEBUG_def)
  show ?thesis
    using callbacks_drain [OF ok busy_tracker_fields(2) taken waiting flag, of "0x40"]
    by (auto simp: numeral_2_eq_2)
qed

text \<open>Sending a packet leaves it where it is, with the connection it came from.\<close>

lemma write_sending_handle:
  "sending_connection_handle (snd (Message_writePacket m)) = sending_connection_handle m"
  "sending_connection_handle (snd (Announce_writePacket a)) = sending_connection_handle a"
  by (simp_all add: Message_writePacket_def Announce_writePacket_def writePacket_def
      Message_getPayloadLength_def Announce_getPayloadLength_def setPayloadLength_def Let_def
      split: prod.split)

lemma packet_base_send:
  assumes "packet_base t p = Some b"
  shows "\<exists>b'. packet_base (snd (SendPacketToConnection env p h t)) p = Some b' \<and>
    sending_connection_handle b' = sending_connection_handle b"
proof -
  have "\<exists>b'. packet_base (snd (packet_write p t)) p = Some b' \<and>
      sending_connection_handle b' = sending_connection_handle b"
    using assms
    by (auto simp: packet_write_def packet_base_def Let_def split_def base_of_def write_sending_handle
        split: packet_ref.splits option.splits)
  moreover have "packet_base (snd (queue_raw_packet env con c data s)) p = packet_base s p" for con c data s
    by (simp add: queue_raw_packet_def Let_def bt_invoke_def packet_base_def alter_connection_def
        split: packet_ref.split)
  ultimately show ?thesis
    using assms by (cases rule: SendPacketToConnection_cases [of env p h t]) simp_all
qed

lemma connection_at_send:
  assumes "h \<noteq> con"
  shows "connection_at (snd (SendPacketToConnection env p con t)) h = connection_at t h"
  using assms
  by (cases rule: SendPacketToConnection_cases [of env p con t])
    (simp_all add: connection_at_def queue_raw_packet_def Let_def bt_invoke_def alter_connection_def)

lemma packet_write_sent_list [simp]:
  "packets_connections_sent_list (snd (packet_write p t)) = packets_connections_sent_list t"
  by (auto simp: packet_write_def Let_def split: packet_ref.split option.split prod.split)

text \<open>Sending one packet to two notified connections, in the order of their handles.\<close>

lemma send_two_broadcast:
  assumes "broadcast_packets_to_send_list t = [p]" and "targeted_packets_to_send_list t = []"
    and "available_connections t = [(h1, c1), (h2, c2)]" and "h1 \<noteq> h2"
    and "handle_of t h1 = Some h1" and "connection_handle c2 = h2"
    and "packets_connections_sent_list t = []"
    and "u = mark_sent env p h1 (snd (SendPacketToConnection env p h1 t))"
  shows "snd (sendPackets env t) =
    (mark_sent env p h2 (snd (SendPacketToConnection env p h2 u)))\<lparr>broadcast_packets_to_send_list := []\<rparr>"
proof -
  have targeted: "t\<lparr>targeted_packets_to_send_list := []\<rparr> = t" using assms(2) by simp
  have first: "broadcast_sendable t p c1" by (simp add: broadcast_sendable_def assms(7) mm_find_on_def)
  have "packets_connections_sent_list u = [(p, h1)]"
    by (cases rule: SendPacketToConnection_cases [of env p h1 t])
      (simp_all add: assms(7,8) mark_sent_def queue_raw_packet_def Let_def bt_invoke_def
        alter_connection_def)
  then have second: "broadcast_sendable u p c2"
    using assms(4-6,8) by (simp add: broadcast_sendable_def mm_find_on_def)
  show ?thesis
    using assms(1-3) first second targeted
    by (simp add: sendPackets_def havePacketsToSend_def Let_def erase_if_def assms(8))
qed

text \<open>
  C19: With two neighbours to notify, only the one with the higher handle is served. The tracker
  has one registration for the callbacks of the stack, and a round of \<open>sendPackets\<close> registers it
  for each neighbour in turn. However often the stack then calls back, no callback aborts, the packet of the first
  neighbour stays in its queue and the stack is handed nothing for it.
\<close>

theorem first_neighbour_starves:
  assumes "tracker_ok t" and "broadcast_packets_to_send_list t = [p]"
    and "targeted_packets_to_send_list t = []" and "packets_connections_sent_list t = []"
    and "available_connections t = [(h1, c1), (h2, c2)]"
    and "connection_handle c1 = h1" and "connection_handle c2 = h2"
    and "role c1 = HCI_ROLE_SLAVE" and "role c2 = HCI_ROLE_SLAVE"
    and "bt_mtu c1 = 0" and "bt_mtu c2 = 0"
    and "packet_base t p = Some b" and "sending_connection_handle b = 0"
  shows "let w = snd (sendPackets env t)
         in \<exists>u. notify_callbacks env n w = Some u \<and>
            mm_values h1 (raw_packet_to_notify u) =
              mm_values h1 (raw_packet_to_notify t) @ [fst (packet_write p t)] \<and>
            (\<exists>later. bt_calls u = bt_calls w @ later \<and> (\<forall>v d. ServerNotify h1 v d \<notin> set later))"
proof -
  have stores: "stores_ok t" by (rule ok_stores [OF assms(1)])
  have at: "connection_at t h1 = Some c1" "connection_at t h2 = Some c2"
    using available_connection_at(1) [OF stores, of h1 c1]
      available_connection_at(1) [OF stores, of h2 c2] assms(5) by simp_all
  have "sorted_wrt (<) (map fst (available_connections t))"
    using stores by (simp add: available_connections_def stores_ok_def map_sorted_def sorted_wrt_map
        sorted_wrt_filter)
  then have less: "h1 < h2" by (simp add: assms(5))
  define s where "s = snd (SendPacketToConnection env p h1 t)"
  define u where "u = mark_sent env p h1 s"
  define v where "v = snd (SendPacketToConnection env p h2 u)"
  define w where "w = snd (sendPackets env t)"
  obtain b' where base: "packet_base u p = Some b'" "sending_connection_handle b' = 0"
    using packet_base_send [OF assms(12), of env h1] assms(13) by (auto simp: u_def s_def mark_sent_def)
  have at_u: "connection_at u h2 = Some c2"
    using connection_at_send [of h2 h1 env p t] less at(2) by (simp add: u_def s_def mark_sent_def)
  note one = SendPacket_to_slave [OF assms(12) at(1) assms(6,8,13) _ s_def]
  note two = SendPacket_to_slave [OF base(1) at_u assms(7,9) base(2) _ v_def]
  have w: "w = (mark_sent env p h2 v)\<lparr>broadcast_packets_to_send_list := []\<rparr>"
    using send_two_broadcast [OF assms(2,3,5) _ _ assms(7,4) u_def [unfolded s_def]] less at(1) assms(6)
    by (simp add: w_def v_def handle_of_def)
  have queue: "mm_sorted (\<lambda>h. h) (raw_packet_to_notify s)"
    using simple_op_ok(13) [OF assms(1), of env p h1] raw_queue_sorted(1) by (simp add: s_def)
  have "mm_values h1 (raw_packet_to_notify w) =
      mm_values h1 (raw_packet_to_notify t) @ [fst (packet_write p t)]"
    using less assms(10,11) mm_values_emplace [OF queue]
      mm_values_emplace [OF raw_queue_sorted(1) [OF assms(1)]] two(2) one(2)
    by (simp add: w mark_sent_def u_def)
  moreover have "notify_registration w = h2" "raw_asserted env h2 w"
    using two(1,3) assms(11) by (simp_all add: w mark_sent_def raw_asserted_def ASSERT_DEBUG_def)
  ultimately show ?thesis
    using lower_handles_wait [of h1 w env n] less unfolding Let_def w_def [symmetric] by simp
qed

text \<open>The witness: the alarm of above with a second neighbour, as handle \<open>0x41\<close>.\<close>

definition two_neighbours :: tracker where
  "two_neighbours = Tracker_init\<lparr>messages := [(ascii ''X1'', sample_message)],
     connections := [(0x40, sample_connection), (0x41, sample_connection\<lparr>connection_handle := 0x41\<rparr>)],
     broadcast_packets_to_send_list := [MessageRef (ascii ''X1'')]\<rparr>"

lemma two_neighbours_ok: "tracker_ok two_neighbours"
  by (simp add: tracker_ok_def stores_ok_def refs_ok_def two_neighbours_def Tracker_init_def
      map_sorted_def mm_sorted_def live_packet_def packet_base_def map_find_def sample_message_valid)
    code_simp

lemma two_neighbours_state:
  "broadcast_packets_to_send_list two_neighbours = [MessageRef (ascii ''X1'')]"
  "targeted_packets_to_send_list two_neighbours = []"
  "packets_connections_sent_list two_neighbours = []"
  "available_connections two_neighbours =
     [(0x40, sample_connection), (0x41, sample_connection\<lparr>connection_handle := 0x41\<rparr>)]"
  "connection_handle sample_connection = 0x40"
  "connection_handle (sample_connection\<lparr>connection_handle := 0x41\<rparr>) = 0x41"
  "role sample_connection = HCI_ROLE_SLAVE"
  "role (sample_connection\<lparr>connection_handle := 0x41\<rparr>) = HCI_ROLE_SLAVE"
  "bt_mtu sample_connection = 0" "bt_mtu (sample_connection\<lparr>connection_handle := 0x41\<rparr>) = 0"
  "packet_base two_neighbours (MessageRef (ascii ''X1'')) = Some (base_of sample_message)"
  "sending_connection_handle (base_of sample_message) = 0"
  by code_simp+

theorem first_neighbour_starves_witness:
  "\<forall>n. \<exists>u. notify_callbacks sample_env n (snd (sendPackets sample_env two_neighbours)) = Some u \<and>
     mm_values 0x40 (raw_packet_to_notify u) \<noteq> []"
proof
  fix n
  show "\<exists>u. notify_callbacks sample_env n (snd (sendPackets sample_env two_neighbours)) = Some u \<and>
     mm_values 0x40 (raw_packet_to_notify u) \<noteq> []"
    using first_neighbour_starves [OF two_neighbours_ok two_neighbours_state, of sample_env n]
    by (auto simp: Let_def)
qed

end
