(* ===== verification/Platform_Types.thy ===== *)
theory Platform_Types
  imports Alert_Delivery
begin

section \<open>ble\_types.h and the statistics of the tracker\<close>

text \<open>
  \<^verbatim>\<open>ble_types.h\<close> stands in for the headers of the Pico SDK on the other boards: constants,
  structures, and the printing of Bluetooth addresses, which is modelled here. \<open>printStats\<close>
  is the line the main loop prints after a round in which something happened.
\<close>

subsection \<open>Addresses as text\<close>

definition char_for_nibble :: "u8 \<Rightarrow> u8" where
  "char_for_nibble nibble =
     (if nibble < 16 then ascii ''0123456789ABCDEF'' ! unat nibble else of_char CHR ''?'')"

definition char_for_high_nibble :: "u32 \<Rightarrow> u8" where
  "char_for_high_nibble val = char_for_nibble (ucast (drop_bit 4 val AND 0x0f))"

definition char_for_low_nibble :: "u32 \<Rightarrow> u8" where
  "char_for_low_nibble val = char_for_nibble (ucast (val AND 0x0f))"

text \<open>
  The buffer of 18 characters: the loop writes three for each byte, and the last delimiter is
  overwritten by the terminator. The string is what lies before it.
\<close>

definition bd_addr_to_str_with_delimiter :: "bytes \<Rightarrow> u8 \<Rightarrow> bytes" where
  "bd_addr_to_str_with_delimiter addr delimiter =
     (let written = concat (map (\<lambda>i. let byte = addr ! i
            in [char_for_high_nibble (ucast byte), char_for_low_nibble (ucast byte), delimiter]) [0..<6])
      in takeWhile (\<lambda>c. c \<noteq> 0) (written[length written - 1 := 0]))"

definition bd_addr_to_str :: "bytes \<Rightarrow> bytes" where
  "bd_addr_to_str addr = bd_addr_to_str_with_delimiter addr (of_char CHR '':'')"

lemma nibble_chars:
  assumes "a < 16" and "b < 16"
  shows "char_for_nibble a = char_for_nibble b \<longleftrightarrow> a = b" and "char_for_nibble a \<noteq> 0"
proof -
  have table: "distinct (ascii ''0123456789ABCDEF'')" "length (ascii ''0123456789ABCDEF'') = 16"
    "0 \<notin> set (ascii ''0123456789ABCDEF'')"
    by code_simp+
  have less: "unat a < 16" "unat b < 16" using assms by (simp_all add: word_less_nat_alt)
  show "char_for_nibble a = char_for_nibble b \<longleftrightarrow> a = b"
    using assms nth_eq_iff_index_eq [OF table(1)] less table(2)
    by (simp add: char_for_nibble_def word_unat_eq_iff)
  show "char_for_nibble a \<noteq> 0"
    using assms(1) less(1) table(3) nth_mem [of "unat a" "ascii ''0123456789ABCDEF''"]
    by (simp only: char_for_nibble_def if_True table(2)) metis
qed

definition nibbles :: "u8 \<Rightarrow> u8 \<times> u8" where
  "nibbles b = (drop_bit 4 b, b AND 0x0f)"

lemma low_bits:
  "unat (b AND 0x0f) = unat b mod 16" "unat (v AND 0x0f) = unat v mod 16" for b :: u8 and v :: u32
proof -
  have mask: "w AND 0x0f = take_bit 4 w" for w :: "'a::len word"
    by (simp add: take_bit_eq_mask mask_eq_exp_minus_1)
  show "unat (b AND 0x0f) = unat b mod 16" "unat (v AND 0x0f) = unat v mod 16"
    unfolding mask by (simp_all add: unsigned_take_bit_eq take_bit_eq_mod unat_mod_distrib)
qed

lemma nibbles_unat: "unat (fst (nibbles b)) = unat b div 16" "unat (snd (nibbles b)) = unat b mod 16"
  by (simp_all add: nibbles_def low_bits drop_bit_eq_div unat_div_distrib)

lemma nibbles_facts:
  shows "fst (nibbles b) < 16" and "snd (nibbles b) < 16" and "nibbles a = nibbles b \<longleftrightarrow> a = b"
    and "char_for_high_nibble (ucast b) = char_for_nibble (fst (nibbles b))"
    and "char_for_low_nibble (ucast b) = char_for_nibble (snd (nibbles b))"
proof -
  have byte: "unat b < 256" using unsigned_less [of b] by simp
  then show small: "fst (nibbles b) < 16" "snd (nibbles b) < 16"
    by (simp_all add: word_less_nat_alt nibbles_unat)
  show "nibbles a = nibbles b \<longleftrightarrow> a = b"
    using nibbles_unat [of a] nibbles_unat [of b] div_mult_mod_eq [of "unat a" 16]
      div_mult_mod_eq [of "unat b" 16] word_unat_eq_iff [of a b] by metis
  have wide: "unat (ucast b :: u32) = unat b" using byte by (simp add: unsigned_ucast_eq take_bit_eq_mod)
  have "(ucast (drop_bit 4 (ucast b :: u32) AND 0x0f) :: u8) = fst (nibbles b)"
    using byte by (simp add: word_unat_eq_iff nibbles_unat unsigned_ucast_eq take_bit_eq_mod low_bits drop_bit_eq_div
        unat_div_distrib wide)
  then show "char_for_high_nibble (ucast b) = char_for_nibble (fst (nibbles b))"
    by (simp add: char_for_high_nibble_def)
  have "(ucast ((ucast b :: u32) AND 0x0f) :: u8) = snd (nibbles b)"
    using byte by (simp add: word_unat_eq_iff nibbles_unat unsigned_ucast_eq take_bit_eq_mod low_bits wide)
  then show "char_for_low_nibble (ucast b) = char_for_nibble (snd (nibbles b))"
    by (simp add: char_for_low_nibble_def)
qed

text \<open>
  An address can be read back from the text it is printed as: the text of a six-byte address
  has 17 characters, and two addresses with the same text are the same.
\<close>

theorem address_text_unique:
  assumes "length a = 6" and "length b = 6"
  shows "length (bd_addr_to_str a) = 17 \<and> (bd_addr_to_str a = bd_addr_to_str b \<longleftrightarrow> a = b)"
proof -
  define hi where "hi = (\<lambda>b. char_for_nibble (fst (nibbles b)))"
  define lo where "lo = (\<lambda>b. char_for_nibble (snd (nibbles b)))"
  have hi_lo: "char_for_nibble (fst (nibbles x)) = hi x" "char_for_nibble (snd (nibbles x)) = lo x" for x
    by (simp_all add: hi_def lo_def)
  have inj: "hi x = hi y \<and> lo x = lo y \<longleftrightarrow> x = y" for x y
    using nibbles_facts(1,2,3) nibble_chars(1) by (simp add: hi_def lo_def) (metis prod_eq_iff)
  have nonzero: "hi x \<noteq> 0" "lo x \<noteq> 0" "of_char CHR '':'' \<noteq> (0 :: u8)" for x
    using nibbles_facts(1,2) nibble_chars(2) [of _ 0] by (simp_all add: hi_def lo_def)
  have printed: "bd_addr_to_str [x0, x1, x2, x3, x4, x5] =
      (let d = of_char CHR '':'' in [hi x0, lo x0, d, hi x1, lo x1, d, hi x2, lo x2, d,
         hi x3, lo x3, d, hi x4, lo x4, d, hi x5, lo x5])" for x0 x1 x2 x3 x4 x5
    by (simp add: bd_addr_to_str_def bd_addr_to_str_with_delimiter_def Let_def nibbles_facts(4,5)
        upt_rec hi_lo nonzero)
  obtain a0 a1 a2 a3 a4 a5 where a: "a = [a0, a1, a2, a3, a4, a5]"
    using assms(1) by (auto simp: length_Suc_conv numeral_eq_Suc)
  obtain b0 b1 b2 b3 b4 b5 where b: "b = [b0, b1, b2, b3, b4, b5]"
    using assms(2) by (auto simp: length_Suc_conv numeral_eq_Suc)
  show ?thesis
    using inj [of a0 b0] inj [of a1 b1] inj [of a2 b2] inj [of a3 b3] inj [of a4 b4] inj [of a5 b5]
    by (simp only: a b printed Let_def) auto
qed

theorem address_text_unique_witness:
  "bd_addr_to_str [1, 2, 3, 4, 5, 0xAF] \<noteq> bd_addr_to_str [1, 2, 3, 4, 5, 0xFA]"
  using address_text_unique [of "[1, 2, 3, 4, 5, 0xAF]" "[1, 2, 3, 4, 5, 0xFA]"] by simp

subsection \<open>printStats\<close>

text \<open>
  The numbers of the line, with those of \<open>printTime\<close> in front; the heap is counted from the two
  symbols of the linker and what the allocator has in use.
\<close>

record stats =
  st_time :: "u16 \<times> u16 \<times> u16 \<times> u16"
  st_have_time :: bool
  st_used_heap :: u32
  st_free_heap :: u32
  st_active :: nat
  st_sizes :: "nat list"

definition printStats :: "environment \<Rightarrow> u32 \<Rightarrow> u32 \<Rightarrow> u32 \<Rightarrow> tracker \<Rightarrow> stats" where
  "printStats env stack_limit bss_end used_heap t =
     (let total_heap = stack_limit - bss_end;
          free_heap = total_heap - used_heap
      in \<lparr>st_time = printTime env t, st_have_time = weHaveTheTime t, st_used_heap = used_heap,
          st_free_heap = free_heap, st_active = getActiveConnectionCount t,
          st_sizes = [length (connections t), length (available_neighbours t), length (announces t),
            length (messages t), length (broadcast_packets_to_send_list t),
            length (targeted_packets_to_send_list t)]\<rparr>)"

end
