(* ===== verification/Sketch_Setup.thy ===== *)
theory Sketch_Setup
  imports Sketch_Properties Platform_Types
begin

section \<open>ble-smoke-detector.ino: setup\<close>

text \<open>
  The calls \<open>setup\<close> makes to Arduino and NimBLE, in their order, with the advertisements it puts
  together; what it changes of the sketch is \<open>sketch_setup\<close>. Serial output is left out, but for
  the reason of a wake-up. The pins and the numbers of the PHYs and flags are constants of the
  board and of NimBLE, collected in \<open>sketch_constants\<close>; its constructor of advertisements is the
  argument \<open>fresh\<close>, for the fields that \<open>setup\<close> does not set.
\<close>

record sketch_constants =
  pin_D0 :: u8
  pin_D6 :: u8
  pin_D10 :: u8
  phy_1m :: u8
  phy_coded :: u8
  adv_f_disc_gen :: u8

record ext_advertisement =
  ext_primary_phy :: u8
  ext_secondary_phy :: u8
  ext_connectable :: bool
  ext_scannable :: bool
  ext_legacy :: bool
  ext_flags :: u8
  ext_complete_services :: "bytes option"
  ext_name :: bytes
  ext_service_data :: "(bytes \<times> bytes) option"

datatype nimble_call =
    SetCpuFrequencyMhz u32
  | DeepSleepWakeUpLow u8 | PinModeOutput u8 | DigitalWriteLow u8 | PinModeInputPullup u8
  | AttachInterruptFalling u8
  | DeviceInit bytes | DeviceSetMtu u16
  | CreateServer | SetServerCallbacks | CreateService bytes | CreateCharacteristic bytes
  | SetCharacteristicValue bytes | SetCharacteristicCallbacks
  | SetAdvertisingCallbacks | SetInstanceData u8 ext_advertisement
  | SetScanResponseData u8 ext_advertisement | AdvertisingStart u8

definition sketch_legacyAdv :: "(u8 \<Rightarrow> u8 \<Rightarrow> ext_advertisement) \<Rightarrow> sketch_constants \<Rightarrow> ext_advertisement" where
  "sketch_legacyAdv fresh k =
     (fresh (phy_1m k) (phy_1m k))
       \<lparr>ext_connectable := True, ext_scannable := True, ext_legacy := True,
        ext_flags := adv_f_disc_gen k, ext_complete_services := Some packet_service_uuid,
        ext_name := take 8 ble_smoke_detector_service_name\<rparr>"

definition sketch_legacyAdvResponse :: "(u8 \<Rightarrow> u8 \<Rightarrow> ext_advertisement) \<Rightarrow> sketch_constants \<Rightarrow> bytes \<Rightarrow> ext_advertisement" where
  "sketch_legacyAdvResponse fresh k serviceData =
     (fresh (phy_1m k) (phy_1m k))
       \<lparr>ext_service_data := Some (packet_service_uuid, serviceData)\<rparr>"

definition sketch_extAdv :: "(u8 \<Rightarrow> u8 \<Rightarrow> ext_advertisement) \<Rightarrow> sketch_constants \<Rightarrow> bytes \<Rightarrow> ext_advertisement" where
  "sketch_extAdv fresh k serviceData =
     (fresh (phy_coded k) (phy_1m k))
       \<lparr>ext_connectable := True, ext_scannable := False, ext_flags := adv_f_disc_gen k,
        ext_complete_services := Some packet_service_uuid,
        ext_name := ble_smoke_detector_service_name,
        ext_service_data := Some (packet_service_uuid, serviceData)\<rparr>"

text \<open>
  \<open>started\<close> is what \<open>start\<close> returns for an instance: the second is started only if the first was.
\<close>

definition sketch_setup_calls :: "(u8 \<Rightarrow> u8 \<Rightarrow> ext_advertisement) \<Rightarrow> sketch_constants \<Rightarrow> u64 \<Rightarrow> (u8 \<Rightarrow> bool) \<Rightarrow> nimble_call list" where
  "sketch_setup_calls fresh k sender started =
     (let serviceData = write_uint64 [] sender
      in [SetCpuFrequencyMhz 80, DeepSleepWakeUpLow (pin_D0 k), PinModeOutput (pin_D6 k),
          DigitalWriteLow (pin_D6 k), PinModeInputPullup (pin_D10 k), PinModeInputPullup (pin_D0 k),
          AttachInterruptFalling (pin_D0 k), DeviceInit ble_smoke_detector_service_name,
          DeviceSetMtu (256 + 5), CreateServer, SetServerCallbacks,
          CreateService packet_service_uuid, CreateCharacteristic packet_characteristic_uuid,
          SetCharacteristicValue [], SetCharacteristicCallbacks, SetAdvertisingCallbacks,
          SetInstanceData 0 (sketch_legacyAdv fresh k), SetInstanceData 1 (sketch_extAdv fresh k serviceData),
          SetScanResponseData 0 (sketch_legacyAdvResponse fresh k serviceData), AdvertisingStart 0] @
         (if started 0 then [AdvertisingStart 1] else []))"

text \<open>\<open>setup\<close>: the calls and the state of the sketch; \<open>bootCount\<close> is only printed.\<close>

definition sketch_setup_run :: "(u8 \<Rightarrow> u8 \<Rightarrow> ext_advertisement) \<Rightarrow> sketch_constants \<Rightarrow> u64 \<Rightarrow>
    (u8 \<Rightarrow> bool) \<Rightarrow> nvs \<Rightarrow> u64 \<Rightarrow> sketch_state \<Rightarrow> nimble_call list \<times> sketch_state" where
  "sketch_setup_run fresh k sender started n now s =
     (sketch_setup_calls fresh k sender started, sketch_setup n now s)"

text \<open>An advertisement that stopped because a client connects is started again.\<close>

definition onStopped_calls :: "int \<Rightarrow> u8 \<Rightarrow> nimble_call list" where
  "onStopped_calls reason inst = (if reason = 0 then [AdvertisingStart inst] else [])"

text \<open>What \<open>print_wakeup_reason\<close> prints; the constructors are the enumerators of the ESP-IDF.\<close>

datatype wakeup_cause =
    WakeupExt0 | WakeupExt1 | WakeupTimer | WakeupTouchpad | WakeupUlp | WakeupGpio | WakeupOther

definition print_wakeup_reason :: "wakeup_cause \<Rightarrow> bytes" where
  "print_wakeup_reason wakeup_reason =
     ascii (case wakeup_reason of
        WakeupExt0 \<Rightarrow> ''Wakeup caused by external signal using RTC_IO''
      | WakeupExt1 \<Rightarrow> ''Wakeup caused by external signal using RTC_CNTL''
      | WakeupTimer \<Rightarrow> ''Wakeup caused by timer''
      | WakeupTouchpad \<Rightarrow> ''Wakeup caused by touchpad''
      | WakeupUlp \<Rightarrow> ''Wakeup caused by ULP program''
      | WakeupGpio \<Rightarrow> ''Wakeup caused by GPIO''
      | WakeupOther \<Rightarrow> ''Wakeup was not caused by deep sleep: '')"

text \<open>
  What the callbacks of the characteristic only print: \<open>onSubscribe\<close> by the value a peer wrote.
\<close>

definition onSubscribe :: "bytes \<Rightarrow> bytes \<Rightarrow> u16 \<Rightarrow> bytes" where
  "onSubscribe address uuid subValue =
     ascii ''Address: '' @ address @
     ascii (if subValue = 0 then '', unsubscribed to ''
            else if subValue = 1 then '', subscribed to notifications for ''
            else if subValue = 2 then '', subscribed to indications for ''
            else if subValue = 3 then '', subscribed to notifications and indications for ''
            else '''') @ uuid"

end
