(* ===== verification/Sketch_Reachable.thy ===== *)
theory Sketch_Reachable
  imports Sketch_Main Tracker_Invariant
begin

section \<open>The states the sketch can reach\<close>

text \<open>
  The operations that the sketch has instead of those for the board of \<^verbatim>\<open>main.cpp\<close> keep the
  invariant of the tracker, and so does every step of the sketch; the rounds of its loop are
  made of such steps.
\<close>

subsection \<open>Sending\<close>

text \<open>What a packet handed to NimBLE changes of the tracker: at most the packet itself.\<close>

lemma esp_SendPacketToConnection_cases:
  obtains (none) "fst (snd (esp_SendPacketToConnection stack p con s)) = fst s"
    | (written) "fst (snd (esp_SendPacketToConnection stack p con s)) = snd (packet_write p (fst s))"
proof -
  have "fst (snd (esp_SendPacketToConnection stack p con s)) = fst s \<or>
      fst (snd (esp_SendPacketToConnection stack p con s)) = snd (packet_write p (fst s))"
    by (auto simp: esp_SendPacketToConnection_def esp_deliver_def esp_invoke_def split_def Let_def
        split: option.split)
  then show ?thesis using that by blast
qed

lemma esp_SendPacketToConnection_facts:
  fixes stack p con and s :: esp_tracker
  defines "t \<equiv> fst s" and "u \<equiv> fst (snd (esp_SendPacketToConnection stack p con s))"
  shows "grows t u" and "tracker_ok t \<Longrightarrow> tracker_ok u" and "connections u = connections t"
    and "packets_connections_sent_list u = packets_connections_sent_list t"
    and "handle_of u = handle_of t"
proof -
  have written: "connections (snd (packet_write p t)) = connections t" by simp
  have list: "packets_connections_sent_list (snd (packet_write p t)) = packets_connections_sent_list t"
    by (auto simp: packet_write_def Let_def split: packet_ref.split option.split prod.split)
  have ok: "tracker_ok (snd (packet_write p t))" if "tracker_ok t"
    by (rule ok_grows [OF that]) (use that in \<open>simp_all add: packet_write_facts packet_write_stores
      ok_stores\<close>)
  have cases: "u = t \<or> u = snd (packet_write p t)"
    unfolding u_def t_def by (cases rule: esp_SendPacketToConnection_cases [of stack p con s]) auto
  then show "grows t u" "connections u = connections t"
    "packets_connections_sent_list u = packets_connections_sent_list t"
    using packet_write_facts(1) [of t p] written list by auto
  then show "handle_of u = handle_of t" by (simp add: handle_of_def connection_at_def fun_eq_iff)
  show "tracker_ok u" if "tracker_ok t" using cases ok [OF that] that by auto
qed

lemma esp_available_at:
  assumes "stores_ok t" and "(h, c) \<in> set (esp_available_connections t)"
  shows "connection_at t h = Some c" and "connected c"
  using assms map_find_Some_iff [of "connections t" h c]
  by (simp_all add: esp_available_connections_def connection_at_def stores_ok_def)

text \<open>The ESP32 sends through the walks of \<open>sendPackets\<close> that the board has.\<close>

interpretation esp: sound_port env fst "\<lambda>t s. (t, snd s)" "esp_SendPacketToConnection stack"
  esp_available_connections "esp_send_targeted env stack" "esp_broadcast_to env stack"
  "esp_send_broadcast env stack" "esp_sendPackets env stack"
  for env stack
  by unfold_locales
    (simp_all add: esp_sendPackets_def esp_SendPacketToConnection_facts esp_available_at Let_def split_def)

lemma esp_sendPackets_ok:
  fixes s :: esp_tracker
  shows "tracker_ok (fst s) \<Longrightarrow> tracker_ok (fst (snd (esp_sendPackets env stack s)))"
  by (rule esp.round_ok)

subsection \<open>The other operations\<close>

lemma esp_announceToConnections_ok:
  "tracker_ok t \<Longrightarrow> tracker_ok (esp_announceToConnections env t)"
  unfolding esp_announceToConnections_def Let_def
  by (rule fold_invariant)
    (simp_all add: esp_setupAnnounceIfNeeded_def Let_def announce_to_def enqueueTargetedPacket_ok
      own_announce_ok)

lemma esp_reportConnection_ok:
  "tracker_ok t \<Longrightarrow> tracker_ok (esp_reportConnection env h a ty r t)"
  unfolding esp_reportConnection_def by (intro simple_op_ok)

lemma esp_reportDisconnection_ok:
  assumes "tracker_ok t"
  shows "tracker_ok (esp_reportDisconnection h t)"
proof -
  have drop: "tracker_ok (u\<lparr>handle_peer_map := map_erase h (handle_peer_map u),
        packets_connections_sent_list := erase_if P (packets_connections_sent_list u),
        targeted_packets_to_send_list := erase_if P (targeted_packets_to_send_list u),
        packets_peers_sent_list := erase_if Q (packets_peers_sent_list u)\<rparr>)"
    if "tracker_ok u" for u P Q
    by (rule ok_grows [OF that]) (use that in \<open>auto simp: tracker_ok_def stores_ok_def grows_def
        queues_within_def erase_if_def map_erase_def\<close>)
  from drop [OF touch_peer_ok [OF simple_op_ok(14) [OF assms]]]
  show ?thesis by (simp add: esp_reportDisconnection_def Let_def)
qed

lemma prefs_update_ok: "tracker_ok t \<Longrightarrow> tracker_ok (t\<lparr>prefs := p\<rparr>)"
  by (rule ok_grows) (auto simp: tracker_ok_def stores_ok_def grows_def queues_within_def)

lemma esp_load_preferences_ok: "tracker_ok t \<Longrightarrow> tracker_ok (esp_load_preferences n t)"
  by (simp add: esp_load_preferences_def Let_def prefs_update_ok)

lemma esp_updatePreferences_ok:
  "tracker_ok t \<Longrightarrow> tracker_ok (esp_updatePreferences env p save t)"
  by (simp add: esp_updatePreferences_def Let_def prefs_update_ok simple_op_ok)

lemma processWrite_with_ok:
  assumes "tracker_ok t" and "\<And>p save u. tracker_ok u \<Longrightarrow> tracker_ok (upd p save u)"
    and "processWrite_with upd env con offset buffer buffer_size t = Some u"
  shows "tracker_ok u"
  using assms
  by (auto simp: processWrite_with_def Let_def split_def split: if_splits option.splits prod.splits
      intro!: relay_stored_ok simple_op_ok updateOrStorePeerName_ok)

lemma sketch_receive_ok:
  assumes "tracker_ok (sk_tracker s)" and "sketch_receive env h data n s = Some u"
  shows "tracker_ok (sk_tracker u)"
  using assms simple_op_ok(1) [OF assms(1), of h]
  by (auto simp: sketch_receive_def Let_def split_def esp_processWrite_def
      intro: processWrite_with_ok esp_updatePreferences_ok)

end
