(* ===== verification/Broadcast_Properties.thy ===== *)
theory Broadcast_Properties
  imports Send_Properties
begin

section \<open>What a call of sendPackets does with the broadcast queue\<close>

text \<open>
  The packet at the head goes to every link that can be sent to and does not count as served.
  The lemmas follow the bytes of one packet through the sends of others, and the queues of one
  link through the walk over the links.
\<close>

subsection \<open>Writing a packet again gives the same bytes\<close>

lemma payload_length_form:
  "snd (Message_getPayloadLength m) =
     (if payload_length m > 0 then m else setPayloadLength m (fst (Message_getPayloadLength m)))"
  "snd (Announce_getPayloadLength a) =
     (if payload_length a > 0 then a else setPayloadLength a (fst (Announce_getPayloadLength a)))"
  "payload_length m > 0 \<Longrightarrow> Message_getPayloadLength m = (payload_length m, m)"
  "payload_length a > 0 \<Longrightarrow> Announce_getPayloadLength a = (payload_length a, a)"
proof -
  show pos: "Message_getPayloadLength m = (payload_length m, m)" if "payload_length m > 0"
    using that by (simp add: Message_getPayloadLength_def)
  show pos': "Announce_getPayloadLength a = (payload_length a, a)" if "payload_length a > 0"
    using that by (simp add: Announce_getPayloadLength_def)
  show "snd (Message_getPayloadLength m) =
     (if payload_length m > 0 then m else setPayloadLength m (fst (Message_getPayloadLength m)))"
  proof (cases "payload_length m > 0")
    case False
    then show ?thesis
      by (simp only: Message_getPayloadLength_def Let_def if_False fst_conv snd_conv)
  qed (simp add: pos)
  show "snd (Announce_getPayloadLength a) =
     (if payload_length a > 0 then a else setPayloadLength a (fst (Announce_getPayloadLength a)))"
  proof (cases "payload_length a > 0")
    case False
    then show ?thesis
      by (simp only: Announce_getPayloadLength_def Let_def if_False fst_conv snd_conv)
  qed (simp add: pos')
qed

lemma payload_length_again:
  "Message_getPayloadLength (snd (Message_getPayloadLength m)) = Message_getPayloadLength m"
  "Announce_getPayloadLength (snd (Announce_getPayloadLength a)) = Announce_getPayloadLength a"
proof -
  have same: "p\<lparr>payload_length := l\<rparr> = p" if "\<not> 0 < payload_length p" "\<not> 0 < l"
    for p :: "'a base_scheme" and l
    using that by (simp add: word_gt_0)
  have "Message_getPayloadLength (setPayloadLength m l) = (l, setPayloadLength m l)" if "0 < l" for l
    using payload_length_form(3) [of "setPayloadLength m l"] that by (simp add: setPayloadLength_def)
  then show "Message_getPayloadLength (snd (Message_getPayloadLength m)) = Message_getPayloadLength m"
    using payload_length_form(1) [of m] same [of m "fst (Message_getPayloadLength m)"]
    by (cases "0 < fst (Message_getPayloadLength m)") (auto simp: prod_eq_iff setPayloadLength_def split: if_splits)
  have "Announce_getPayloadLength (setPayloadLength a l) = (l, setPayloadLength a l)" if "0 < l" for l
    using payload_length_form(4) [of "setPayloadLength a l"] that by (simp add: setPayloadLength_def)
  then show "Announce_getPayloadLength (snd (Announce_getPayloadLength a)) = Announce_getPayloadLength a"
    using payload_length_form(2) [of a] same [of a "fst (Announce_getPayloadLength a)"]
    by (cases "0 < fst (Announce_getPayloadLength a)") (auto simp: prod_eq_iff setPayloadLength_def split: if_splits)
qed

lemma payload_length_header:
  "packet_version (snd (Message_getPayloadLength m)) = packet_version m"
  "packet_type (snd (Message_getPayloadLength m)) = packet_type m"
  "packet_ttl (snd (Message_getPayloadLength m)) = packet_ttl m"
  "packet_timestamp_ms (snd (Message_getPayloadLength m)) = packet_timestamp_ms m"
  "packet_flags (snd (Message_getPayloadLength m)) = packet_flags m"
  "sending_connection_handle (snd (Message_getPayloadLength m)) = sending_connection_handle m"
  "packet_version (snd (Announce_getPayloadLength a)) = packet_version a"
  "packet_type (snd (Announce_getPayloadLength a)) = packet_type a"
  "packet_ttl (snd (Announce_getPayloadLength a)) = packet_ttl a"
  "packet_timestamp_ms (snd (Announce_getPayloadLength a)) = packet_timestamp_ms a"
  "packet_flags (snd (Announce_getPayloadLength a)) = packet_flags a"
  "sending_connection_handle (snd (Announce_getPayloadLength a)) = sending_connection_handle a"
  unfolding payload_length_form(1,2) by (simp_all add: setPayloadLength_def)

lemma write_again:
  "fst (Message_writePacket (snd (Message_writePacket m))) = fst (Message_writePacket m)"
  "fst (Announce_writePacket (snd (Announce_writePacket a))) = fst (Announce_writePacket a)"
  by (simp_all add: Message_writePacket_def Announce_writePacket_def writePacket_def Let_def split_def
      payload_length_again payload_length_header)

lemma packet_write_same:
  assumes "messages u = messages t" and "announces u = announces t" and "own_announce u = own_announce t"
  shows "fst (packet_write p u) = fst (packet_write p t)"
    and "packet_base u p = packet_base t p"
  using assms
  by (auto simp: packet_write_def packet_base_def Let_def split_def split: packet_ref.split option.split)

lemma packet_write_again:
  "fst (packet_write p (snd (packet_write q t))) = fst (packet_write p t)"
  by (auto simp: packet_write_def Let_def split_def map_find_put write_again
      split: packet_ref.splits option.splits)

subsection \<open>What sending leaves alone\<close>

lemma write_origin:
  "sending_connection_handle (snd (Message_writePacket m)) = sending_connection_handle m"
  "sending_connection_handle (snd (Announce_writePacket a)) = sending_connection_handle a"
  by (simp_all add: Message_writePacket_def Announce_writePacket_def writePacket_def Let_def split_def
      payload_length_header)

definition origin_of :: "tracker \<Rightarrow> packet_ref \<Rightarrow> u16 option" where
  "origin_of t p = map_option sending_connection_handle (packet_base t p)"

lemma origin_write: "origin_of (snd (packet_write q t)) p = origin_of t p"
  by (auto simp: origin_of_def packet_write_def packet_base_def base_of_def Let_def split_def
      map_find_put write_origin split: packet_ref.splits option.splits)

text \<open>
  The state \<open>u\<close> after some sends of a round that began at \<open>t\<close>: the links, the bytes and origin of
  \<open>p\<close> are the same, and the queues and the record of what was sent are sorted.
\<close>

definition sending_from :: "environment \<Rightarrow> packet_ref \<Rightarrow> tracker \<Rightarrow> tracker \<Rightarrow> bool" where
  "sending_from env p t u \<longleftrightarrow>
     links u = links t \<and> fst (packet_write p u) = fst (packet_write p t) \<and>
     origin_of u p = origin_of t p \<and>
     mm_sorted (\<lambda>h. h) (raw_packet_to_notify u) \<and> mm_sorted (\<lambda>h. h) (raw_packet_to_write u) \<and>
     mm_sorted (env_address env) (packets_connections_sent_list u)"

lemma queue_raw_same:
  "fst (packet_write p (snd (queue_raw_packet env con c data t))) = fst (packet_write p t)"
  "origin_of (snd (queue_raw_packet env con c data t)) p = origin_of t p"
  "packets_connections_sent_list (snd (queue_raw_packet env con c data t)) =
     packets_connections_sent_list t"
  using packet_write_same [of "snd (queue_raw_packet env con c data t)" t p]
  by (simp_all add: origin_of_def queue_raw_packet_def Let_def bt_invoke_def alter_connection_def)

lemma packet_write_record:
  "packets_connections_sent_list (snd (packet_write p t)) = packets_connections_sent_list t"
  by (auto simp: packet_write_def Let_def split: packet_ref.split option.split prod.split)

lemma transmit_same:
  "fst (packet_write p (snd (SendPacketToConnection env q con t))) = fst (packet_write p t)"
  "origin_of (snd (SendPacketToConnection env q con t)) p = origin_of t p"
  "packets_connections_sent_list (snd (SendPacketToConnection env q con t)) =
     packets_connections_sent_list t"
  by (cases rule: SendPacketToConnection_cases [of env q con t];
      simp add: queue_raw_same packet_write_again origin_write packet_write_record)+

lemma transmit_raw_sorted:
  assumes "mm_sorted (\<lambda>h. h) (raw_packet_to_notify t)" "mm_sorted (\<lambda>h. h) (raw_packet_to_write t)"
  shows "mm_sorted (\<lambda>h. h) (raw_packet_to_notify (snd (SendPacketToConnection env q con t)))"
    and "mm_sorted (\<lambda>h. h) (raw_packet_to_write (snd (SendPacketToConnection env q con t)))"
  using assms
  by (cases rule: SendPacketToConnection_cases [of env q con t];
      simp add: queue_raw_packet_def Let_def bt_invoke_def alter_connection_def mm_sorted_emplace)+

lemma sending_from_transmit:
  assumes "map_sorted (connections t)" and "sending_from env p t u"
  shows "sending_from env p t (snd (SendPacketToConnection env q con u))"
  using assms links_sorted [of u t] transmit_raw_sorted [of u]
  by (simp add: sending_from_def transmit_same)

lemma sending_from_mark:
  assumes "sending_from env p t u"
  shows "sending_from env p t (mark_sent env q con u)"
proof -
  have "fst (packet_write p (mark_sent env q con u)) = fst (packet_write p u)"
    "origin_of (mark_sent env q con u) p = origin_of u p"
    using packet_write_same [of "mark_sent env q con u" u p] by (simp_all add: origin_of_def mark_sent_def)
  with assms show ?thesis
    by (simp add: sending_from_def) (simp add: mark_sent_def mm_sorted_emplace)
qed
subsection \<open>The walk over the links\<close>

text \<open>
  A packet and a link: nothing at or behind the packet's place in the record of what was sent is
  for the handle; the packet did not come from the link and fits its MTU. \<open>waiting\<close> is the raw
  queue the link's role selects.
\<close>

definition unserved :: "environment \<Rightarrow> tracker \<Rightarrow> packet_ref \<Rightarrow> u16 \<Rightarrow> bool" where
  "unserved env t p h \<longleftrightarrow>
     \<not> list_ex (\<lambda>e. env_address env p \<le> env_address env (fst e) \<and> handle_of t (snd e) = Some h)
         (packets_connections_sent_list t)"

definition may_take :: "tracker \<Rightarrow> packet_ref \<Rightarrow> ble_connection \<Rightarrow> bool" where
  "may_take t p c \<longleftrightarrow>
     (case packet_base t p of
        None \<Rightarrow> False
      | Some b \<Rightarrow>
          \<not> (sending_connection_handle b > 0 \<and> sending_connection_handle b = connection_handle c)) \<and>
     (bt_mtu c = 0 \<or> length (fst (packet_write p t)) \<le> unat (bt_mtu c))"

definition waiting :: "ble_connection \<Rightarrow> tracker \<Rightarrow> bytes list" where
  "waiting c t = mm_values (connection_handle c)
     (if role c = HCI_ROLE_SLAVE then raw_packet_to_notify t else raw_packet_to_write t)"

lemma waiting_mark [simp]: "waiting c (mark_sent env p con t) = waiting c t"
  by (simp add: waiting_def mark_sent_def)

lemma link_at:
  "map_find h (links t) = map_option (\<lambda>c. setHasData c False) (connection_at t h)"
  using map_find_map_snd [of h "\<lambda>_ c. setHasData c False" "connections t"]
  by (simp add: links_def connection_at_def)

lemma waiting_transmit:
  assumes "sending_from env p t u" and "map_find con (links t) = Some (setHasData c False)"
    and "connection_handle c = con"
  shows "may_take t p c \<Longrightarrow>
      waiting c (snd (SendPacketToConnection env p con u)) = waiting c u @ [fst (packet_write p t)]"
    and "connection_handle d \<noteq> con \<Longrightarrow>
      waiting d (snd (SendPacketToConnection env p con u)) = waiting d u"
proof -
  have "map_find con (links u) = Some (setHasData c False)"
    using assms(1,2) by (simp add: sending_from_def)
  then obtain c' where c': "connection_at u con = Some c'" "setHasData c' False = setHasData c False"
    by (auto simp: link_at)
  then have same: "connection_handle c' = con" "role c' = role c" "bt_mtu c' = bt_mtu c"
    using assms(3) by (auto simp: setHasData_def dest: arg_cong [of _ _ connection_handle]
        arg_cong [of _ _ role] arg_cong [of _ _ bt_mtu])
  have sorted: "mm_sorted (\<lambda>h. h) (raw_packet_to_notify u)" "mm_sorted (\<lambda>h. h) (raw_packet_to_write u)"
    and bytes: "fst (packet_write p u) = fst (packet_write p t)" and origin: "origin_of u p = origin_of t p"
    using assms(1) by (simp_all add: sending_from_def)
  show "waiting c (snd (SendPacketToConnection env p con u)) = waiting c u @ [fst (packet_write p t)]"
    if take: "may_take t p c"
  proof -
    obtain b where b: "packet_base t p = Some b" using take by (auto simp: may_take_def split: option.splits)
    then obtain b' where b': "packet_base u p = Some b'"
        "sending_connection_handle b' = sending_connection_handle b"
      using origin by (auto simp: origin_of_def)
    show ?thesis
      using send_queues [OF sorted b'(1) c'(1), of env con] take
      by (auto simp: Let_def split_def may_take_def waiting_def b b'(2) bytes same assms(3))
  qed
  show "waiting d (snd (SendPacketToConnection env p con u)) = waiting d u"
    if other: "connection_handle d \<noteq> con"
  proof (cases "packet_base u p")
    case (Some b)
    then show ?thesis
      using send_queues [OF sorted Some c'(1), of env "connection_handle d"] other
      by (auto simp: Let_def split_def waiting_def same)
  qed (simp add: SendPacketToConnection_def)
qed

lemma unserved_sendable:
  assumes "mm_sorted (env_address env) (packets_connections_sent_list t)" and "unserved env t p (connection_handle c)"
  shows "broadcast_sendable t p c"
proof -
  have "env_address env p \<le> env_address env (fst e)"
    if "e \<in> set (mm_find_on p m)" "mm_sorted (env_address env) m" for e m
    using that by (induction m) (auto simp: mm_find_on_def mm_sorted_def split: if_splits)
  moreover have "set (mm_find_on p m) \<subseteq> set m" for m :: "(packet_ref \<times> u16) list"
    by (auto simp: mm_find_on_def dest: set_dropWhileD)
  ultimately show ?thesis
    using assms unfolding broadcast_sendable_def unserved_def list_ex_iff by fast
qed

lemma unserved_mark:
  assumes "unserved env t p h" and "handle_of t con \<noteq> Some h"
  shows "unserved env (mark_sent env q con (snd (SendPacketToConnection env q con t))) p h"
  using assms by (auto simp: unserved_def list_ex_iff mark_sent_def)

lemma broadcast_to_sends:
  assumes "sending_from env p t u" and "map_sorted (connections t)" and "distinct (map fst cs)"
    and "\<forall>e \<in> set cs. connection_handle (snd e) = fst e \<and>
           map_find (fst e) (links t) = Some (setHasData (snd e) False)"
  shows "connection_handle d \<notin> fst ` set cs \<Longrightarrow> waiting d (broadcast_to env p cs u) = waiting d u"
    and "(h, c) \<in> set cs \<Longrightarrow> unserved env u p h \<Longrightarrow> may_take t p c \<Longrightarrow>
      waiting c (broadcast_to env p cs u) = waiting c u @ [fst (packet_write p t)]"
proof -
  have "(connection_handle d \<notin> fst ` set cs \<longrightarrow> waiting d (broadcast_to env p cs u) = waiting d u) \<and>
    ((h, c) \<in> set cs \<longrightarrow> unserved env u p h \<longrightarrow> may_take t p c \<longrightarrow>
      waiting c (broadcast_to env p cs u) = waiting c u @ [fst (packet_write p t)])" for d
    using assms(1,3,4)
  proof (induction cs arbitrary: u d)
    case (Cons e cs)
    obtain con k where e: "e = (con, k)" by (cases e)
    let ?v = "mark_sent env p con (snd (SendPacketToConnection env p con u))"
    let ?w = "if broadcast_sendable u p k then ?v else u"
    have k: "connection_handle k = con" "map_find con (links t) = Some (setHasData k False)"
      using Cons.prems(3) by (simp_all add: e)
    have w: "sending_from env p t ?w"
      using Cons.prems(1) sending_from_mark [OF sending_from_transmit [OF assms(2) Cons.prems(1)]] by simp
    have other: "waiting x ?w = waiting x u" if "connection_handle x \<noteq> con" for x
      using waiting_transmit(2) [OF Cons.prems(1) k(2,1) that] by simp
    have IH: "connection_handle x \<notin> fst ` set cs \<Longrightarrow>
        waiting x (broadcast_to env p cs ?w) = waiting x ?w"
      "(h, c) \<in> set cs \<Longrightarrow> unserved env ?w p h \<Longrightarrow> may_take t p c \<Longrightarrow>
        waiting c (broadcast_to env p cs ?w) = waiting c ?w @ [fst (packet_write p t)]" for x
      using Cons.IH [OF w, of x] Cons.prems(2,3) by auto
    have step: "broadcast_to env p (e # cs) u = broadcast_to env p cs ?w" by (simp add: e)
    show ?case
    proof (intro conjI impI)
      show "waiting d (broadcast_to env p (e # cs) u) = waiting d u"
        if "connection_handle d \<notin> fst ` set (e # cs)"
        using that IH(1) [of d] other [of d] unfolding step by (simp add: e)
    next
      assume asm: "(h, c) \<in> set (e # cs)" "unserved env u p h" "may_take t p c"
      show "waiting c (broadcast_to env p (e # cs) u) = waiting c u @ [fst (packet_write p t)]"
      proof (cases "(h, c) \<in> set cs")
        case True
        have c: "connection_handle c = h" using Cons.prems(3) True by auto
        have ne: "h \<noteq> con" using Cons.prems(2) True by (force simp: e)
        have "handle_of u con = Some con"
        proof -
          have "map_find con (links u) = Some (setHasData k False)"
            using Cons.prems(1) k(2) by (simp add: sending_from_def)
          then show ?thesis using k(1) by (auto simp: handle_of_def link_at setHasData_def
              dest: arg_cong [of _ _ connection_handle])
        qed
        then have "unserved env ?w p h" using asm(2) ne unserved_mark [of env u p h con p] by simp
        from IH(2) [OF True this asm(3)] other [of c] ne show ?thesis unfolding step by (simp add: c)
      next
        case False
        then have hc: "h = con" "c = k" using asm(1) by (auto simp: e)
        have "broadcast_sendable u p k"
          using unserved_sendable [of env u p k] asm(2) Cons.prems(1)
          by (simp add: sending_from_def hc k(1))
        moreover have "connection_handle k \<notin> fst ` set cs" using Cons.prems(2) by (simp add: e k(1))
        ultimately show ?thesis
          using IH(1) [of k] waiting_transmit(1) [OF Cons.prems(1) k(2,1)] asm(3)
          unfolding step by (simp add: hc)
      qed
    qed
  qed simp
  then show "connection_handle d \<notin> fst ` set cs \<Longrightarrow> waiting d (broadcast_to env p cs u) = waiting d u"
    "(h, c) \<in> set cs \<Longrightarrow> unserved env u p h \<Longrightarrow> may_take t p c \<Longrightarrow>
      waiting c (broadcast_to env p cs u) = waiting c u @ [fst (packet_write p t)]" by blast+
qed

lemma sending_from_targeted:
  assumes "tracker_ok t" and "mm_sorted (env_address env) (packets_connections_sent_list t)"
  shows "sending_from env p t (snd (send_targeted env es t))"
proof (rule board.targeted_preserves)
  have "map_sorted (connections t)" using assms(1) by (simp add: tracker_ok_def stores_ok_def)
  then show "sending_from env p t (snd (SendPacketToConnection env q con u))"
    if "sending_from env p t u" for q con u
    using that by (rule sending_from_transmit)
  show "sending_from env p t t" using assms by (simp add: sending_from_def tracker_ok_def stores_ok_def)
qed (rule sending_from_mark)

text \<open>The links of two states with the same \<open>links\<close> differ in their flags only.\<close>

lemma available_same_links:
  assumes "links u = links t" and "(h, c) \<in> set (available_connections t)"
  shows "\<exists>d. (h, d) \<in> set (available_connections u) \<and> setHasData d False = setHasData c False"
proof -
  have "(h, setHasData c False) \<in> set (links u)"
    unfolding assms(1) using assms(2) by (force simp: available_connections_def links_def)
  then obtain d where d: "(h, d) \<in> set (connections u)" "setHasData d False = setHasData c False"
    by (auto simp: links_def)
  have "available c = available (setHasData c False)" for c by (simp add: available_def setHasData_def)
  then have "available d = available c" using d(2) by metis
  then show ?thesis using d assms(2) by (auto simp: available_connections_def)
qed

lemma flag_same:
  assumes "setHasData d False = setHasData c False"
  shows "connection_handle d = connection_handle c" and "waiting d t = waiting c t"
    and "may_take t p d = may_take t p c"
proof -
  have "connection_handle (setHasData d False) = connection_handle (setHasData c False)"
    "role (setHasData d False) = role (setHasData c False)"
    "bt_mtu (setHasData d False) = bt_mtu (setHasData c False)"
    using assms by simp_all
  then have "connection_handle d = connection_handle c" "role d = role c" "bt_mtu d = bt_mtu c"
    by (simp_all add: setHasData_def)
  then show "connection_handle d = connection_handle c" "waiting d t = waiting c t"
    "may_take t p d = may_take t p c"
    by (simp_all add: waiting_def may_take_def cong: option.case_cong)
qed

lemma broadcast_queues_bytes:
  assumes "sending_from env p t u" and "tracker_ok t"
    and "list_all (\<lambda>(h, c). connection_handle c = h) (available_connections t)"
    and "(h, c) \<in> set (available_connections t)" and "unserved env u p h" and "may_take t p c"
  shows "waiting c (broadcast_to env p (available_connections u) u) =
    waiting c u @ [fst (packet_write p t)]"
proof -
  have same: "links u = links t" using assms(1) by (simp add: sending_from_def)
  have sorted: "map_sorted (connections t)" using assms(2) by (simp add: tracker_ok_def stores_ok_def)
  then have "map_sorted (connections u)" using links_sorted [OF same] by simp
  then have u: "map_find k (connections u) = Some d" if "(k, d) \<in> set (available_connections u)" for k d
    using that map_find_Some_iff [of "connections u" k d] by (simp add: available_connections_def)
  have keyed: "connection_handle d = k \<and> map_find k (links t) = Some (setHasData d False)"
    if d: "(k, d) \<in> set (available_connections u)" for k d
  proof -
    obtain c' where c': "(k, c') \<in> set (available_connections t)" "setHasData c' False = setHasData d False"
      using available_same_links [OF same [symmetric] d] by blast
    have "connection_handle d = k"
      using assms(3) c'(1) flag_same(1) [OF c'(2)] by (auto simp: list_all_iff)
    moreover have "map_find k (links u) = Some (setHasData d False)"
      using u [OF d] by (simp add: link_at connection_at_def)
    ultimately show ?thesis by (simp add: same)
  qed
  have dist: "distinct (map fst (available_connections u))"
    using map_sorted_distinct [OF \<open>map_sorted (connections u)\<close>] unfolding available_connections_def
    by (simp add: distinct_map_filter)
  obtain d where d: "(h, d) \<in> set (available_connections u)" "setHasData d False = setHasData c False"
    using available_same_links [OF same assms(4)] by blast
  have "waiting d (broadcast_to env p (available_connections u) u) = waiting d u @ [fst (packet_write p t)]"
    by (rule broadcast_to_sends(2) [OF assms(1) sorted dist _ d(1) assms(5)])
      (use keyed flag_same(3) [OF d(2)] assms(6) in auto)
  then show ?thesis by (simp only: flag_same(2) [OF d(2)])
qed

text \<open>The state between the targeted packets and the broadcast, and what the broadcast does with it.\<close>

lemma sendPackets_head:
  assumes "tracker_ok t" and "broadcast_packets_to_send_list t = p # rest"
  obtains x t2 where "t2 = (snd (send_targeted env (targeted_packets_to_send_list t) t))
      \<lparr>targeted_packets_to_send_list := x\<rparr>" "tracker_ok t2" "links t2 = links t"
    "snd (sendPackets env t) =
       (if available_connections t = [] then t2
        else (broadcast_to env p (available_connections t2) t2)
               \<lparr>broadcast_packets_to_send_list := filter (\<lambda>q. q \<noteq> p) rest\<rparr>)"
    "broadcast_packets_to_send_list t2 = p # rest"
proof -
  obtain removed t1 where t1: "send_targeted env (targeted_packets_to_send_list t) t = (removed, t1)"
    by (cases "send_targeted env (targeted_packets_to_send_list t) t")
  let ?x = "erase_if (\<lambda>e. fst e \<in> set removed) (targeted_packets_to_send_list t1)"
  define t2 where "t2 = t1\<lparr>targeted_packets_to_send_list := ?x\<rparr>"
  have live: "\<forall>e \<in> set (targeted_packets_to_send_list t).
      live_packet t (fst e) \<and> live_connection t (snd e)"
    using assms(1) by (simp add: tracker_ok_def refs_ok_def)
  have t1_ok: "tracker_ok t1" "links t1 = links t" "broadcast_packets_to_send_list t1 = p # rest"
    using send_targeted_ok [OF assms(1) live] send_targeted_facts [OF ok_stores [OF assms(1)]] t1 assms(2)
    by (metis snd_conv)+
  then have t2: "tracker_ok t2" "links t2 = links t" "broadcast_packets_to_send_list t2 = p # rest"
    using drop_queued_ok(1) by (auto simp: t2_def links_def)
  have step: "snd (sendPackets env t) =
      (let (sent, t3) = send_broadcast env (p # rest) t2
       in t3\<lparr>broadcast_packets_to_send_list :=
               erase_if (\<lambda>p. sent = Some p) (broadcast_packets_to_send_list t3)\<rparr>)"
    using assms(2) t2(3)
    by (simp add: sendPackets_def havePacketsToSend_def t1 t2_def [symmetric] t1_ok(3)
        split: prod.split del: send_broadcast.simps)
  have none: "available_connections t2 = [] \<longleftrightarrow> available_connections t = []"
    by (rule same_links_available(1) [OF t2(2)])
  have "snd (sendPackets env t) =
      (if available_connections t = [] then t2
       else (broadcast_to env p (available_connections t2) t2)
              \<lparr>broadcast_packets_to_send_list := filter (\<lambda>q. q \<noteq> p) rest\<rparr>)"
    using t2(3) none
    by (cases "available_connections t = []")
      (simp_all add: step board.broadcast_none broadcast_to_queues erase_if_def eq_commute)
  with t2 show ?thesis by (intro that [of t2 ?x]) (simp_all add: t2_def t1)
qed

text \<open>Afterwards every link that can be sent to counts as served.\<close>

lemma broadcast_serves_all:
  assumes "tracker_ok u" and "links u = links t" and "(h, c) \<in> set (available_connections t)"
  shows "\<not> broadcast_sendable (broadcast_to env p (available_connections u) u) p c"
proof -
  have "connection_handle c \<in> (connection_handle \<circ> snd) ` set (available_connections u)"
    unfolding same_links_available(2) [OF assms(2)] using assms(3) by force
  then show ?thesis
    using broadcast_to_serves [of "available_connections u" u env p c]
      available_connections_handle [OF ok_stores [OF assms(1)]] by (auto simp: image_image)
qed

text \<open>
  C18: \<open>sendPackets\<close> takes at most one packet out of the broadcast queue, the one at its head,
  with all its repetitions, and only when some link can be sent to; the others keep their order.
  Afterwards every such link counts as served with it, so the next call does not send it there
  again. When the links are stored under their handles and the record of what was sent is in the
  order of the packets' addresses, every link that can be sent to has the packet's bytes at the
  end of its raw queue, behind what the targeted packets put there, if the packet did not come
  from it and fits its MTU, and the record has no entry for the link at the packet's address or
  above once the targeted packets are out.
\<close>

theorem one_broadcast_per_call:
  assumes "tracker_ok t" and "broadcast_packets_to_send_list t = p # rest"
  shows "let t1 = snd (send_targeted env (targeted_packets_to_send_list t) t);
             u = snd (sendPackets env t)
    in broadcast_packets_to_send_list u =
        (if available_connections t = [] then p # rest else filter (\<lambda>q. q \<noteq> p) rest) \<and>
      list_all (\<lambda>(h, c). \<not> broadcast_sendable u p c) (available_connections t) \<and>
      (list_all (\<lambda>(h, c). connection_handle c = h) (available_connections t) \<and>
         mm_sorted (env_address env) (packets_connections_sent_list t) \<longrightarrow>
       list_all (\<lambda>(h, c). unserved env t1 p h \<and> may_take t p c \<longrightarrow>
           waiting c u = waiting c t1 @ [fst (packet_write p t)]) (available_connections t))"
proof -
  let ?t1 = "snd (send_targeted env (targeted_packets_to_send_list t) t)" and ?u = "snd (sendPackets env t)"
  obtain x t2 where t2: "t2 = ?t1\<lparr>targeted_packets_to_send_list := x\<rparr>" "tracker_ok t2" "links t2 = links t"
    and u: "?u = (if available_connections t = [] then t2
        else (broadcast_to env p (available_connections t2) t2)
               \<lparr>broadcast_packets_to_send_list := filter (\<lambda>q. q \<noteq> p) rest\<rparr>)"
    and queue: "broadcast_packets_to_send_list t2 = p # rest"
    by (rule sendPackets_head [OF assms])
  have served: "\<not> broadcast_sendable ?u p c" if "(h, c) \<in> set (available_connections t)" for h c
  proof -
    have "available_connections t \<noteq> []" using that by auto
    then show ?thesis
      using broadcast_serves_all [OF t2(2,3) that, of env p]
      by (simp add: u broadcast_sendable_def)
  qed
  have sent: "waiting c ?u = waiting c ?t1 @ [fst (packet_write p t)]"
    if "list_all (\<lambda>(h, c). connection_handle c = h) (available_connections t)"
      "mm_sorted (env_address env) (packets_connections_sent_list t)"
      "(h, c) \<in> set (available_connections t)" "unserved env ?t1 p h" "may_take t p c" for h c
  proof -
    have "sending_from env p t t2"
      using sending_from_targeted [OF assms(1) that(2), of p "targeted_packets_to_send_list t"]
        packet_write_same [of t2 ?t1 p]
      by (simp add: t2(1) sending_from_def links_def origin_of_def)
    moreover have "unserved env t2 p h" using that(4) by (simp add: unserved_def t2(1))
    ultimately have "waiting c (broadcast_to env p (available_connections t2) t2) =
        waiting c t2 @ [fst (packet_write p t)]"
      using that by (intro broadcast_queues_bytes assms(1)) auto
    moreover have "available_connections t \<noteq> []" using that(3) by auto
    moreover have "waiting c t2 = waiting c ?t1" by (simp add: waiting_def t2(1))
    moreover have "waiting c (v\<lparr>broadcast_packets_to_send_list := l\<rparr>) = waiting c v" for v l
      by (simp add: waiting_def)
    ultimately show ?thesis by (simp add: u)
  qed
  show ?thesis
    unfolding Let_def using served sent queue by (auto simp: u list_all_iff)
qed

text \<open>The witness: the message has not been sent to the one neighbour yet.\<close>

definition unsent_tracker :: tracker where
  "unsent_tracker = sample_tracker\<lparr>packets_connections_sent_list := []\<rparr>"

lemma unsent_tracker_state:
  "broadcast_packets_to_send_list unsent_tracker = [MessageRef (ascii ''X1'')]"
  "targeted_packets_to_send_list unsent_tracker = []"
  "available_connections unsent_tracker = [(0x40, sample_connection)]"
  "packets_connections_sent_list unsent_tracker = []" "raw_packet_to_notify unsent_tracker = []"
  "connection_handle sample_connection = 0x40" "role sample_connection = HCI_ROLE_SLAVE"
  "may_take unsent_tracker (MessageRef (ascii ''X1'')) sample_connection"
  by code_simp+

lemma unsent_tracker_ok: "tracker_ok unsent_tracker"
  by (rule ok_grows [OF sample_tracker_ok])
    (use sample_tracker_ok in \<open>auto simp: unsent_tracker_def tracker_ok_def stores_ok_def grows_def
      queues_within_def\<close>)

theorem one_broadcast_per_call_witness:
  "broadcast_packets_to_send_list (snd (sendPackets sample_env unsent_tracker)) = [] \<and>
   mm_values 0x40 (raw_packet_to_notify (snd (sendPackets sample_env unsent_tracker))) =
     [fst (packet_write (MessageRef (ascii ''X1'')) unsent_tracker)]"
  using one_broadcast_per_call [OF unsent_tracker_ok unsent_tracker_state(1), of sample_env]
  by (simp add: Let_def unsent_tracker_state unserved_def waiting_def mm_sorted_def)

end
