(* ===== verification/Port_Equivalence.thy ===== *)
theory Port_Equivalence
  imports Sketch_Reachable Broadcast_Properties
begin

section \<open>Both ports send the same packets\<close>

text \<open>
  The library has two ways to send: raw packets with a registration on the board of
  \<^verbatim>\<open>main.cpp\<close>, and packets handed to NimBLE at once on the ESP32. A view of a tracker leaves out
  what only one of them uses: raw packets, registrations, calls, and what service discovery
  writes into a connection.
\<close>

definition connection_view :: "ble_connection \<Rightarrow> ble_connection" where
  "connection_view c =
     c\<lparr>packet_service_start_group_handle := 0, packet_service_end_group_handle := 0,
       packet_characteristic_value_handle := 0, notification_enabled := 0,
       has_data_to_send := False\<rparr>"

definition tracker_view :: "tracker \<Rightarrow> tracker" where
  "tracker_view t =
     t\<lparr>connections := map (\<lambda>(h, c). (h, connection_view c)) (connections t),
       raw_packet_to_notify := [], raw_packet_to_write := [], notify_registration := 0,
       write_registration := 0, bt_calls := []\<rparr>"

text \<open>
  NimBLE has a client for the links this node opened and its own characteristic for the others.
  The guard of the broadcast differs: the board of \<^verbatim>\<open>main.cpp\<close> also wants the characteristic of a
  link it opened to be known. \<open>discovered\<close> says that it is, for every connected link; \<open>g\<close> is
  whether that is assumed.
\<close>

definition client_ready :: "esp_stack \<Rightarrow> ble_connection \<Rightarrow> bool" where
  "client_ready stack c \<longleftrightarrow>
     (case client_for stack (connection_handle c) of
        None \<Rightarrow> role c = HCI_ROLE_SLAVE \<and> server_has_characteristic stack
      | Some client \<Rightarrow> role c \<noteq> HCI_ROLE_SLAVE \<and> has_service client \<and> has_characteristic client \<and>
          can_write client)"

definition clients_ready :: "esp_stack \<Rightarrow> tracker \<Rightarrow> bool" where
  "clients_ready stack t \<longleftrightarrow> list_all (\<lambda>(h, c). client_ready stack c) (connections t)"

definition discovered :: "tracker \<Rightarrow> bool" where
  "discovered t \<longleftrightarrow> list_all (\<lambda>(h, c). connected c \<longrightarrow> available c) (connections t)"

definition link_ready :: "bool \<Rightarrow> esp_stack \<Rightarrow> ble_connection \<Rightarrow> bool" where
  "link_ready g stack c \<longleftrightarrow> (g \<longrightarrow> connected c \<longrightarrow> available c) \<and> client_ready stack c"

definition links_ready :: "bool \<Rightarrow> esp_stack \<Rightarrow> tracker \<Rightarrow> bool" where
  "links_ready g stack t \<longleftrightarrow> list_all (\<lambda>(h, c). link_ready g stack c) (connections t)"

text \<open>What NimBLE was given for a handle.\<close>

fun notified :: "u16 \<Rightarrow> esp_call list \<Rightarrow> bytes list" where
  "notified h [] = []"
| "notified h (NotifyValue j d # cs) = (if j = h then d # notified h cs else notified h cs)"
| "notified h (WriteValue j d # cs) = notified h cs"

fun written_to :: "u16 \<Rightarrow> esp_call list \<Rightarrow> bytes list" where
  "written_to h [] = []"
| "written_to h (WriteValue j d # cs) = (if j = h then d # written_to h cs else written_to h cs)"
| "written_to h (NotifyValue j d # cs) = written_to h cs"

lemma given_append [simp]:
  "notified h (cs @ ds) = notified h cs @ notified h ds"
  "written_to h (cs @ ds) = written_to h cs @ written_to h ds"
  by (induction h cs rule: notified.induct) auto

subsection \<open>What sending sees is in the view\<close>

lemma connection_view_simps [simp]:
  "connection_handle (connection_view c) = connection_handle c"
  "bt_mtu (connection_view c) = bt_mtu c"
  "role (connection_view c) = role c"
  "connected (connection_view c) = connected c"
  "connection_view (setHasData c b) = connection_view c"
  by (simp_all add: connection_view_def setHasData_def)

lemma tracker_view_simps [simp]:
  "messages (tracker_view t) = messages t" "announces (tracker_view t) = announces t"
  "own_announce (tracker_view t) = own_announce t"
  "packets_connections_sent_list (tracker_view t) = packets_connections_sent_list t"
  "targeted_packets_to_send_list (tracker_view t) = targeted_packets_to_send_list t"
  "broadcast_packets_to_send_list (tracker_view t) = broadcast_packets_to_send_list t"
  by (simp_all add: tracker_view_def)

lemma connection_at_view:
  "connection_at (tracker_view t) h = map_option connection_view (connection_at t h)"
  using map_find_map_snd [of h "\<lambda>_. connection_view" "connections t"]
  by (simp add: connection_at_def tracker_view_def)

lemma view_sees:
  "packet_base (tracker_view t) = packet_base t"
  "handle_of (tracker_view t) = handle_of t"
  "packet_needed (tracker_view t) = packet_needed t"
  "broadcast_sendable (tracker_view t) = broadcast_sendable t"
  "mark_sent env p con (tracker_view t) = tracker_view (mark_sent env p con t)"
proof -
  show "packet_base (tracker_view t) = packet_base t"
    by (simp add: packet_base_def fun_eq_iff cong: packet_ref.case_cong)
  show handle: "handle_of (tracker_view t) = handle_of t"
    by (simp add: fun_eq_iff handle_of_def connection_at_view option.map_comp o_def)
  show "packet_needed (tracker_view t) = packet_needed t"
    "broadcast_sendable (tracker_view t) = broadcast_sendable t"
    by (simp_all add: fun_eq_iff packet_needed_def broadcast_sendable_def handle)
  show "mark_sent env p con (tracker_view t) = tracker_view (mark_sent env p con t)"
    by (simp add: mark_sent_def tracker_view_def)
qed

lemma packet_write_view:
  "packet_write p (tracker_view t) = (fst (packet_write p t), tracker_view (snd (packet_write p t)))"
  by (auto simp: packet_write_def Let_def tracker_view_def split: packet_ref.split option.split prod.split)

text \<open>Two trackers with one view agree on all of this.\<close>

lemma view_eq:
  assumes "tracker_view t = tracker_view u"
  shows "packet_base t = packet_base u" and "handle_of t = handle_of u"
    and "packet_needed t = packet_needed u" and "broadcast_sendable t = broadcast_sendable u"
    and "tracker_view (mark_sent env p con t) = tracker_view (mark_sent env p con u)"
    and "fst (packet_write p t) = fst (packet_write p u)"
    and "tracker_view (snd (packet_write p t)) = tracker_view (snd (packet_write p u))"
    and "targeted_packets_to_send_list t = targeted_packets_to_send_list u"
    and "broadcast_packets_to_send_list t = broadcast_packets_to_send_list u"
    and "map_option connection_view (connection_at t h) = map_option connection_view (connection_at u h)"
proof -
  show "packet_base t = packet_base u" "handle_of t = handle_of u" "packet_needed t = packet_needed u"
    "broadcast_sendable t = broadcast_sendable u"
    "tracker_view (mark_sent env p con t) = tracker_view (mark_sent env p con u)"
    using assms by (metis view_sees)+
  show "fst (packet_write p t) = fst (packet_write p u)"
    "tracker_view (snd (packet_write p t)) = tracker_view (snd (packet_write p u))"
    using arg_cong [OF assms, of "packet_write p"] by (simp_all add: packet_write_view)
  show "targeted_packets_to_send_list t = targeted_packets_to_send_list u"
    "broadcast_packets_to_send_list t = broadcast_packets_to_send_list u"
    using arg_cong [OF assms, of targeted_packets_to_send_list]
      arg_cong [OF assms, of broadcast_packets_to_send_list] by simp_all
  show "map_option connection_view (connection_at t h) = map_option connection_view (connection_at u h)"
    using arg_cong [OF assms, of "\<lambda>t. connection_at t h"] by (simp add: connection_at_view)
qed

subsection \<open>One packet\<close>

text \<open>
  The simulation: one view, and the raw packets of a handle are those that were there before,
  \<open>n h\<close> and \<open>w h\<close>, with what NimBLE was given since.
\<close>

definition ports_sim ::
  "bool \<Rightarrow> (u16 \<Rightarrow> bytes list) \<Rightarrow> (u16 \<Rightarrow> bytes list) \<Rightarrow> esp_stack \<Rightarrow> tracker \<Rightarrow> esp_tracker \<Rightarrow> bool" where
  "ports_sim g n w stack t s \<longleftrightarrow> tracker_view t = tracker_view (fst s) \<and> links_ready g stack t \<and>
     map_sorted (connections t) \<and> mm_sorted (\<lambda>h. h) (raw_packet_to_notify t) \<and>
     mm_sorted (\<lambda>h. h) (raw_packet_to_write t) \<and>
     (\<forall>h. mm_values h (raw_packet_to_notify t) = n h @ notified h (snd s)) \<and>
     (\<forall>h. mm_values h (raw_packet_to_write t) = w h @ written_to h (snd s))"

lemma sim_view: "ports_sim g n w stack t s \<Longrightarrow> tracker_view t = tracker_view (fst s)"
  by (simp add: ports_sim_def)

lemma sim_mark:
  assumes "ports_sim g n w stack t s"
  shows "ports_sim g n w stack (mark_sent env p con t) (mark_sent env p con (fst s), snd s)"
proof -
  have "tracker_view (mark_sent env p con t) = tracker_view (mark_sent env p con (fst s))"
    by (rule view_eq(5) [OF sim_view [OF assms]])
  with assms show ?thesis by (simp add: ports_sim_def links_ready_def) (simp add: mark_sent_def)
qed

lemma sim_written:
  assumes "ports_sim g n w stack t s"
  shows "ports_sim g n w stack (snd (packet_write p t)) (snd (packet_write p (fst s)), snd s)"
proof -
  have "tracker_view (snd (packet_write p t)) = tracker_view (snd (packet_write p (fst s)))"
    by (rule view_eq(7) [OF sim_view [OF assms]])
  with assms show ?thesis by (simp add: ports_sim_def links_ready_def)
qed

text \<open>Flagging a connection changes nothing the view has.\<close>

lemma map_put_view:
  assumes "map_sorted m" and "map_find h m = Some c"
  shows "map (\<lambda>(h, c). (h, connection_view c)) (map_put h (setHasData c b) m) =
     map (\<lambda>(h, c). (h, connection_view c)) m"
  by (rule map_put_same [OF assms]) simp

lemma link_ready_at:
  "links_ready g stack t \<Longrightarrow> connection_at t h = Some c \<Longrightarrow> link_ready g stack c"
  by (auto simp: links_ready_def connection_at_def map_find_def list_all_iff dest: map_of_SomeD)

lemma sim_deliver:
  assumes "ports_sim g n w stack t s" and "connection_at t con = Some c"
    and "\<And>calls. env_status env calls = 0" and "\<And>calls. takes stack calls"
  shows "fst (queue_raw_packet env con c data t)"
    and "fst (esp_deliver stack (connection_handle c) data s)"
    and "ports_sim g n w stack (snd (queue_raw_packet env con c data t))
      (snd (esp_deliver stack (connection_handle c) data s))"
proof -
  show "fst (queue_raw_packet env con c data t)"
    by (simp add: queue_raw_packet_def Let_def bt_invoke_def assms(3) split_def)
  have ready: "link_ready g stack c"
    using assms(1,2) link_ready_at by (auto simp: ports_sim_def)
  then show "fst (esp_deliver stack (connection_handle c) data s)"
    using assms(4) by (auto simp: link_ready_def client_ready_def esp_deliver_def esp_invoke_def split: option.splits)
  have find: "map_find con (connections t) = Some c" using assms(2) by (simp add: connection_at_def)
  have sorted: "map_sorted (connections t)" using assms(1) by (simp add: ports_sim_def)
  have put: "map_alter BleConnection_blank con (\<lambda>c. setHasData c True) (connections t) =
      map_put con (setHasData c True) (connections t)"
    using find by (simp add: map_alter_def)
  have flagged: "link_ready g stack (setHasData c True)"
    using ready by (auto simp: link_ready_def client_ready_def setHasData_def available_def split: option.splits)
  have links: "list_all (\<lambda>(h, c). link_ready g stack c) (map_put con (setHasData c True) (connections t))"
    using assms(1) flagged set_map_put [of con "setHasData c True" "connections t"]
    by (fastforce simp: ports_sim_def links_ready_def list_all_iff)
  note view = map_put_view [OF sorted find, of True]
  show "ports_sim g n w stack (snd (queue_raw_packet env con c data t))
      (snd (esp_deliver stack (connection_handle c) data s))"
  proof (cases "role c = HCI_ROLE_SLAVE")
    case True
    then have call: "snd (esp_deliver stack (connection_handle c) data s) =
        (fst s, snd s @ [NotifyValue (connection_handle c) data])"
      using ready by (auto simp: link_ready_def client_ready_def esp_deliver_def esp_invoke_def split: option.splits)
    show ?thesis
      using assms(1) links view True unfolding call
      by (simp add: ports_sim_def queue_raw_packet_def Let_def split_def bt_invoke_def
          alter_connection_def put links_ready_def mm_sorted_emplace mm_values_emplace)
        (simp add: tracker_view_def split_def)
  next
    case False
    then have call: "snd (esp_deliver stack (connection_handle c) data s) =
        (fst s, snd s @ [WriteValue (connection_handle c) data])"
      using ready by (auto simp: link_ready_def client_ready_def esp_deliver_def esp_invoke_def split: option.splits)
    show ?thesis
      using assms(1) links view False unfolding call
      by (simp add: ports_sim_def queue_raw_packet_def Let_def split_def bt_invoke_def
          alter_connection_def put links_ready_def mm_sorted_emplace mm_values_emplace)
        (simp add: tracker_view_def split_def)
  qed
qed

lemma sim_send:
  assumes "ports_sim g n w stack t s"
    and "\<And>calls. env_status env calls = 0" and "\<And>calls. takes stack calls"
  shows "fst (SendPacketToConnection env p con t) = fst (esp_SendPacketToConnection stack p con s)"
    and "ports_sim g n w stack (snd (SendPacketToConnection env p con t))
      (snd (esp_SendPacketToConnection stack p con s))"
proof -
  have base: "packet_base (fst s) p = packet_base t p"
    using view_eq(1) [OF sim_view [OF assms(1)]] by simp
  have at: "map_option connection_view (connection_at (fst s) con) =
      map_option connection_view (connection_at t con)"
    using view_eq(10) [OF sim_view [OF assms(1)]] by simp
  have "fst (SendPacketToConnection env p con t) = fst (esp_SendPacketToConnection stack p con s) \<and>
    ports_sim g n w stack (snd (SendPacketToConnection env p con t))
      (snd (esp_SendPacketToConnection stack p con s))"
  proof (cases "connection_at t con")
    case None
    then show ?thesis
      using assms(1) at by (simp add: SendPacketToConnection_def esp_SendPacketToConnection_def
          base split: option.split)
  next
    case (Some c)
    then obtain c' where c': "connection_at (fst s) con = Some c'" "connection_view c' = connection_view c"
      using at by (cases "connection_at (fst s) con") auto
    then have same: "connection_handle c' = connection_handle c" "bt_mtu c' = bt_mtu c"
      by (metis connection_view_simps(1,2))+
    obtain data t1 u1 where data: "packet_write p t = (data, t1)" "packet_write p (fst s) = (data, u1)"
      using view_eq(6) [OF sim_view [OF assms(1)], of p] by (metis prod.collapse)
    have sim1: "ports_sim g n w stack t1 (u1, snd s)"
      using sim_written [OF assms(1), of p] by (simp add: data)
    have "connections t1 = connections t"
      using packet_write_connections [of p t] by (simp add: data)
    then have "connection_at t1 con = Some c" using Some by (simp add: connection_at_def)
    note go = sim_deliver [OF sim1 this assms(2,3), of data]
    show ?thesis
      using assms(1) go sim1
      by (cases "packet_base t p") (auto simp: SendPacketToConnection_def
          esp_SendPacketToConnection_def base Some c'(1) same data)
  qed
  then show "fst (SendPacketToConnection env p con t) = fst (esp_SendPacketToConnection stack p con s)"
    "ports_sim g n w stack (snd (SendPacketToConnection env p con t))
      (snd (esp_SendPacketToConnection stack p con s))" by blast+
qed

subsection \<open>The walks over the queues\<close>

lemma sim_targeted:
  assumes "ports_sim g n w stack t s"
    and "\<And>calls. env_status env calls = 0" and "\<And>calls. takes stack calls"
  shows "fst (send_targeted env es t) = fst (esp_send_targeted env stack es s) \<and>
    ports_sim g n w stack (snd (send_targeted env es t)) (snd (esp_send_targeted env stack es s))"
  using assms(1)
proof (induction es arbitrary: t s)
  case (Cons e es)
  obtain p con where e: "e = (p, con)" by (cases e)
  obtain ok t1 where t1: "SendPacketToConnection env p con t = (ok, t1)"
    by (cases "SendPacketToConnection env p con t")
  obtain s1 where s1: "esp_SendPacketToConnection stack p con s = (ok, s1)"
    using sim_send(1) [OF Cons.prems assms(2,3), of p con] t1
    by (cases "esp_SendPacketToConnection stack p con s") simp
  have sim1: "ports_sim g n w stack t1 s1"
    using sim_send(2) [OF Cons.prems assms(2,3), of p con] t1 s1 by simp
  have needed: "packet_needed (fst s) (p, con) = packet_needed t (p, con)"
    using view_eq(3) [OF sim_view [OF Cons.prems]] by simp
  from Cons.IH [OF sim1] Cons.IH [OF sim_mark [OF sim1]] Cons.IH [OF Cons.prems] show ?case
    by (auto simp: e t1 s1 needed split_def Let_def)
qed simp

lemma sim_broadcast_to:
  assumes "ports_sim g n w stack t s"
    and "\<And>calls. env_status env calls = 0" and "\<And>calls. takes stack calls"
    and "map (\<lambda>(h, c). (h, connection_view c)) cs = map (\<lambda>(h, c). (h, connection_view c)) ds"
  shows "ports_sim g n w stack (broadcast_to env p cs t) (esp_broadcast_to env stack p ds s)"
  using assms(1,4)
proof (induction cs arbitrary: ds t s)
  case (Cons e cs)
  obtain con c where e: "e = (con, c)" by (cases e)
  obtain d ds' where ds: "ds = (con, d) # ds'" "connection_view c = connection_view d"
    "map (\<lambda>(h, c). (h, connection_view c)) cs = map (\<lambda>(h, c). (h, connection_view c)) ds'"
    using Cons.prems(2) by (cases ds) (auto simp: e)
  have "connection_handle c = connection_handle d" using ds(2) by (metis connection_view_simps(1))
  then have sendable: "broadcast_sendable (fst s) p d = broadcast_sendable t p c"
    using view_eq(4) [OF sim_view [OF Cons.prems(1)]] by (simp add: broadcast_sendable_def)
  show ?case
    using Cons.IH [OF Cons.prems(1) ds(3)]
      Cons.IH [OF sim_mark [OF sim_send(2) [OF Cons.prems(1) assms(2,3)]] ds(3)]
    by (simp add: e ds(1) sendable Let_def)
qed simp

text \<open>The links that can be sent to are the same.\<close>

lemma sim_available:
  assumes "ports_sim True n w stack t s"
  shows "map (\<lambda>(h, c). (h, connection_view c)) (available_connections t) =
    map (\<lambda>(h, c). (h, connection_view c)) (esp_available_connections (fst s))"
proof -
  have filter_view: "map (\<lambda>(h, c). (h, connection_view c)) (filter (\<lambda>e. connected (snd e)) m) =
      filter (\<lambda>e. connected (snd e)) (map (\<lambda>(h, c). (h, connection_view c)) m)"
    for m :: "(u16 \<times> ble_connection) list"
    by (induction m) auto
  have "available c = connected c" if "(h, c) \<in> set (connections t)" for h c
    using assms that by (auto simp: ports_sim_def links_ready_def link_ready_def list_all_iff
        available_def)
  then have "available_connections t = filter (\<lambda>e. connected (snd e)) (connections t)"
    unfolding available_connections_def by (intro filter_cong) auto
  moreover have "map (\<lambda>(h, c). (h, connection_view c)) (connections t) =
      map (\<lambda>(h, c). (h, connection_view c)) (connections (fst s))"
    using arg_cong [OF sim_view [OF assms], of connections] by (simp add: tracker_view_def)
  ultimately show ?thesis by (simp add: filter_view esp_available_connections_def)
qed

lemma sim_broadcast:
  assumes "ports_sim g n w stack t s" and "g \<or> ps = []"
    and "\<And>calls. env_status env calls = 0" and "\<And>calls. takes stack calls"
  shows "fst (send_broadcast env ps t) = fst (esp_send_broadcast env stack ps s) \<and>
    ports_sim g n w stack (snd (send_broadcast env ps t)) (snd (esp_send_broadcast env stack ps s))"
proof (cases g)
  case True
  then have sim: "ports_sim True n w stack t s" using assms(1) by simp
  have none: "available_connections t = [] \<longleftrightarrow> esp_available_connections (fst s) = []"
    using arg_cong [OF sim_available [OF sim], of "\<lambda>m. m = []"] by simp
  show ?thesis
  proof (cases "available_connections t = []")
    case True
    then have "esp_send_broadcast env stack ps s = (None, s)"
      using none by (intro esp.broadcast_none) blast
    then show ?thesis using assms(1) by (simp add: board.broadcast_none [OF True])
  next
    case False
    then have "esp_available_connections (fst s) \<noteq> []" using none by simp
    then show ?thesis
      using False assms(1) sim_broadcast_to [OF assms(1,3,4) sim_available [OF sim]]
      by (cases ps) simp_all
  qed
qed (use assms in simp)

subsection \<open>sendPackets\<close>

lemma sim_havePackets:
  "tracker_view t = tracker_view u \<Longrightarrow> havePacketsToSend t = havePacketsToSend u"
  by (simp add: havePacketsToSend_def view_eq(8,9) [of t u])

lemma sim_queues:
  assumes "ports_sim g n w stack t s"
  shows "ports_sim g n w stack (t\<lparr>targeted_packets_to_send_list := xs\<rparr>)
      ((fst s)\<lparr>targeted_packets_to_send_list := xs\<rparr>, snd s)"
    and "ports_sim g n w stack (t\<lparr>broadcast_packets_to_send_list := ps\<rparr>)
      ((fst s)\<lparr>broadcast_packets_to_send_list := ps\<rparr>, snd s)"
proof -
  have "tracker_view (u\<lparr>targeted_packets_to_send_list := xs\<rparr>) =
      (tracker_view u)\<lparr>targeted_packets_to_send_list := xs\<rparr>"
    "tracker_view (u\<lparr>broadcast_packets_to_send_list := ps\<rparr>) =
      (tracker_view u)\<lparr>broadcast_packets_to_send_list := ps\<rparr>" for u
    by (simp_all add: tracker_view_def)
  then show "ports_sim g n w stack (t\<lparr>targeted_packets_to_send_list := xs\<rparr>)
      ((fst s)\<lparr>targeted_packets_to_send_list := xs\<rparr>, snd s)"
    "ports_sim g n w stack (t\<lparr>broadcast_packets_to_send_list := ps\<rparr>)
      ((fst s)\<lparr>broadcast_packets_to_send_list := ps\<rparr>, snd s)"
    using assms sim_view [OF assms] by (simp_all add: ports_sim_def links_ready_def)
qed

lemma sim_sendPackets:
  assumes "ports_sim g n w stack t s" and "g \<or> broadcast_packets_to_send_list t = []"
    and "\<And>calls. env_status env calls = 0" and "\<And>calls. takes stack calls"
  shows "fst (sendPackets env t) = fst (esp_sendPackets env stack s) \<and>
    ports_sim g n w stack (snd (sendPackets env t)) (snd (esp_sendPackets env stack s))"
proof -
  note view = sim_view [OF assms(1)]
  let ?es = "targeted_packets_to_send_list t"
  obtain removed t1 where t1: "send_targeted env ?es t = (removed, t1)"
    by (cases "send_targeted env ?es t")
  obtain u1 c1 where s1: "esp_send_targeted env stack ?es s = (removed, (u1, c1))"
    using sim_targeted [OF assms(1,3,4), of ?es] t1 by (metis fst_conv prod.collapse)
  have sim1: "ports_sim g n w stack t1 (u1, c1)"
    using sim_targeted [OF assms(1,3,4), of ?es] by (simp add: t1 s1)
  note same = view_eq(8,9) [OF sim_view [OF sim1], simplified]
  define left where "left = erase_if (\<lambda>e. fst e \<in> set removed) (targeted_packets_to_send_list t1)"
  define t2 where "t2 = t1\<lparr>targeted_packets_to_send_list := left\<rparr>"
  define u2 where "u2 = u1\<lparr>targeted_packets_to_send_list := left\<rparr>"
  have sim2: "ports_sim g n w stack t2 (u2, c1)"
    using sim_queues(1) [OF sim1] by (simp add: t2_def u2_def)
  let ?ps = "broadcast_packets_to_send_list t1"
  have "broadcast_packets_to_send_list t1 = broadcast_packets_to_send_list t"
    using board.targeted_preserves [where Q = "\<lambda>u. broadcast_packets_to_send_list u =
      broadcast_packets_to_send_list t" and s = t and es = ?es and env = env] by (simp add: t1)
  then have still: "g \<or> ?ps = []" using assms(2) by simp
  obtain sent t3 where t3: "send_broadcast env ?ps t2 = (sent, t3)"
    by (cases "send_broadcast env ?ps t2")
  obtain u3 c3 where s3: "esp_send_broadcast env stack ?ps (u2, c1) = (sent, (u3, c3))"
    using sim_broadcast [OF sim2 still assms(3,4)] t3 by (metis fst_conv prod.collapse)
  have sim3: "ports_sim g n w stack t3 (u3, c3)"
    using sim_broadcast [OF sim2 still assms(3,4)] by (simp add: t3 s3)
  note last = view_eq(9) [OF sim_view [OF sim3], simplified]
  have lists: "targeted_packets_to_send_list (fst s) = ?es" using view_eq(8) [OF view] by simp
  have send: "sendPackets env t = (if \<not> havePacketsToSend t then (False, t)
      else (True, t3\<lparr>broadcast_packets_to_send_list :=
        erase_if (\<lambda>p. sent = Some p) (broadcast_packets_to_send_list t3)\<rparr>))"
    by (simp add: sendPackets_def t1 left_def [symmetric] t2_def [symmetric] t3 del: send_broadcast.simps)
  have esp_send: "esp_sendPackets env stack s = (if \<not> havePacketsToSend t then (False, s)
      else (True, (u3\<lparr>broadcast_packets_to_send_list :=
        erase_if (\<lambda>p. sent = Some p) (broadcast_packets_to_send_list t3)\<rparr>, c3)))"
    by (simp add: esp_sendPackets_def sim_havePackets [OF view] lists s1 same [symmetric]
        left_def [symmetric] u2_def [symmetric] s3 last del: esp_send_broadcast.simps)
  show ?thesis
    using assms(1) sim_queues(2) [OF sim3] by (simp add: send esp_send)
qed

text \<open>
  C10: Both ports of the library send the same, while their guards agree. From trackers with the
  same packets, queues and links, when the stacks take what they are given and NimBLE has a
  client for exactly the links the node opened, \<open>sendPackets\<close> on the board of \<^verbatim>\<open>main.cpp\<close> and on the
  ESP32 return the same and leave the same packets, queues and records; and for every handle the
  raw packets that the one adds to its queues are, in their order, the packets the other hands to
  NimBLE, as notifications for the links a peer opened and as writes for those the node opened.
  The guards of the broadcast differ for a connected link the node opened whose characteristic it
  has not found, so when there is something to broadcast the claim is made for trackers in which
  every connected link of that kind has been discovered; targeted packets need no such condition.
\<close>

theorem ports_send_the_same:
  assumes "tracker_ok t" and "tracker_view t = tracker_view u" and "clients_ready stack t"
    and "discovered t \<or> broadcast_packets_to_send_list t = []"
    and "\<And>calls. env_status env calls = 0" and "\<And>calls. takes stack calls"
  shows "let (active, t') = sendPackets env t; (active', (u', calls)) = esp_sendPackets env stack (u, [])
    in active = active' \<and> tracker_view t' = tracker_view u' \<and>
       mm_values h (raw_packet_to_notify t') = mm_values h (raw_packet_to_notify t) @ notified h calls \<and>
       mm_values h (raw_packet_to_write t') = mm_values h (raw_packet_to_write t) @ written_to h calls"
proof -
  let ?n = "\<lambda>h. mm_values h (raw_packet_to_notify t)" and ?w = "\<lambda>h. mm_values h (raw_packet_to_write t)"
  have "links_ready (discovered t) stack t"
    using assms(3) by (auto simp: links_ready_def link_ready_def clients_ready_def discovered_def list_all_iff)
  then have "ports_sim (discovered t) ?n ?w stack t (u, [])"
    using assms(1,2) by (simp add: ports_sim_def tracker_ok_def stores_ok_def)
  from sim_sendPackets [OF this assms(4-6)] show ?thesis
    by (auto simp: ports_sim_def split: prod.split)
qed

text \<open>One alert for one neighbour that connected to the node.\<close>

theorem ports_send_the_same_witness:
  "let stack = \<lparr>client_for = (\<lambda>_. None), server_has_characteristic = True, takes = (\<lambda>_. True)\<rparr>;
       (active, (u, calls)) = esp_sendPackets sample_env stack (sample_tracker, [])
   in mm_values 0x40 (raw_packet_to_notify (snd (sendPackets sample_env sample_tracker))) =
        notified 0x40 calls \<and> active"
proof -
  let ?stack = "\<lparr>client_for = (\<lambda>_. None), server_has_characteristic = True, takes = (\<lambda>_. True)\<rparr>"
  have ready: "clients_ready ?stack sample_tracker" by code_simp
  have found: "discovered sample_tracker \<or> broadcast_packets_to_send_list sample_tracker = []" by code_simp
  have none: "mm_values 0x40 (raw_packet_to_notify sample_tracker) = []"
    by (simp add: sample_tracker_def Tracker_init_def)
  have "fst (sendPackets sample_env sample_tracker)"
    by (simp add: sendPackets_def havePacketsToSend_def sample_tracker_def split_def Let_def)
  then show ?thesis
    using ports_send_the_same [OF sample_tracker_ok refl ready found, of sample_env "0x40"] none
    by (simp add: sample_env_status split_def Let_def)
qed

subsection \<open>Where the guards differ\<close>

text \<open>
  A link the node opened, connected but not discovered. The board keeps the broadcast in its
  queue for a later call. The ESP32 takes it out, records it as sent to the link and hands
  nothing to NimBLE, so the link never gets it.
\<close>

theorem undiscovered_link_loses_broadcast:
  assumes "broadcast_packets_to_send_list t = [p]" and "targeted_packets_to_send_list t = []"
    and "packets_connections_sent_list t = []" and "connections t = [(h, c)]"
    and "connected c" and "\<not> available c" and "connection_handle c = h"
    and "client_for stack h = Some client" and "\<not> has_service client"
  shows "sendPackets env t = (True, t) \<and>
    (let (active, (u, calls)) = esp_sendPackets env stack (t, [])
     in active \<and> calls = [] \<and> broadcast_packets_to_send_list u = [] \<and>
        packets_connections_sent_list u = [(p, h)])"
proof
  have board: "available_connections t = []" using assms(4,6) by (simp add: available_connections_def)
  have none: "t\<lparr>targeted_packets_to_send_list := []\<rparr> = t" using assms(2) by simp
  have keep: "t\<lparr>broadcast_packets_to_send_list := [p]\<rparr> = t" using assms(1) by simp
  show "sendPackets env t = (True, t)"
    using assms(1,2) board none keep
    by (simp add: sendPackets_def havePacketsToSend_def Let_def erase_if_def board.broadcast_none [OF board])
  have avail: "esp_available_connections t = [(h, c)]"
    using assms(4,5) by (simp add: esp_available_connections_def)
  have sendable: "broadcast_sendable t p c" by (simp add: broadcast_sendable_def assms(3) mm_find_on_def)
  have at: "connection_at t h = Some c" by (simp add: connection_at_def assms(4) map_find_def)
  have lists: "broadcast_packets_to_send_list (snd (packet_write p t)) = [p]"
    "packets_connections_sent_list (snd (packet_write p t)) = []"
    using assms(1,3) packet_write_record [of p t] by simp_all
  have "\<exists>v. snd (esp_SendPacketToConnection stack p h (t, [])) = (v, []) \<and>
      broadcast_packets_to_send_list v = [p] \<and> packets_connections_sent_list v = []"
    using assms(1,3,7-9) lists
    by (cases "packet_base t p")
      (auto simp: esp_SendPacketToConnection_def at Let_def split_def esp_deliver_def)
  then obtain v where v: "snd (esp_SendPacketToConnection stack p h (t, [])) = (v, [])"
      "broadcast_packets_to_send_list v = [p]" "packets_connections_sent_list v = []" by blast
  show "let (active, (u, calls)) = esp_sendPackets env stack (t, [])
     in active \<and> calls = [] \<and> broadcast_packets_to_send_list u = [] \<and>
        packets_connections_sent_list u = [(p, h)]"
    using assms(1,2) none avail sendable v
    by (simp add: esp_sendPackets_def havePacketsToSend_def Let_def erase_if_def mark_sent_def)
qed

text \<open>The witness: a link to a peer in which NimBLE has not found the service.\<close>

definition opened_link :: ble_connection where
  "opened_link = sample_connection\<lparr>role := 0, packet_characteristic_value_handle := 0\<rparr>"

definition opened_tracker :: tracker where
  "opened_tracker = unsent_tracker\<lparr>connections := [(0x40, opened_link)]\<rparr>"

theorem undiscovered_link_loses_broadcast_witness:
  "broadcast_packets_to_send_list (snd (sendPackets sample_env opened_tracker)) \<noteq> [] \<and>
   broadcast_packets_to_send_list (fst (snd (esp_sendPackets sample_env
     \<lparr>client_for = (\<lambda>_. Some \<lparr>has_service = False, has_characteristic = False, can_write = False\<rparr>),
      server_has_characteristic = True, takes = (\<lambda>_. True)\<rparr> (opened_tracker, [])))) = []"
proof -
  let ?client = "\<lparr>has_service = False, has_characteristic = False, can_write = False\<rparr>"
  let ?stack = "\<lparr>client_for = (\<lambda>_. Some ?client), server_has_characteristic = True, takes = (\<lambda>_. True)\<rparr>"
  have lists: "broadcast_packets_to_send_list opened_tracker = [MessageRef (ascii ''X1'')]"
    "targeted_packets_to_send_list opened_tracker = []" "packets_connections_sent_list opened_tracker = []"
    "connections opened_tracker = [(0x40, opened_link)]"
    using unsent_tracker_state by (simp_all add: opened_tracker_def)
  have link: "connected opened_link" "\<not> available opened_link" "connection_handle opened_link = 0x40"
    by code_simp+
  have client: "client_for ?stack 0x40 = Some ?client" "\<not> has_service ?client" by simp_all
  show ?thesis
    using undiscovered_link_loses_broadcast [OF lists link client, of sample_env]
    by (simp add: split_def Let_def lists(1))
qed

end
