(* ===== verification/Sketch_Safety.thy ===== *)
theory Sketch_Safety
  imports Sketch_Reachable Sketch_Properties Device_Properties
begin

section \<open>The sketch keeps running\<close>

text \<open>
  What NimBLE and the pin can do while the sketch waits: a list of callbacks, each with its own
  surroundings. A received value has at most 512 bytes; the bound here is that of the reader.
\<close>

datatype nimble_event =
    Interrupt bool
  | Scanned u8 advertised_device
  | Notified u16 bytes u16
  | Written u16 bytes u16
  | ClientUp u16 bytes u8 bool bool
  | ClientFailed
  | ClientDown u16
  | ServerUp u16 bytes u8 bool bool
  | ServerDown u16
  | AdvertisingStopped int

fun nimble_callback :: "environment \<Rightarrow> nimble_event \<Rightarrow> sketch \<Rightarrow> sketch option" where
  "nimble_callback env (Interrupt level) s = Some (isr level s)"
| "nimble_callback env (Scanned phy_coded adv) s = Some (onResult env phy_coded adv s)"
| "nimble_callback env (Notified h data n) s = notifyCB env h data n s"
| "nimble_callback env (Written h data n) s = onWrite env h data n s"
| "nimble_callback env (ClientUp h a ty master slave) s = Some (client_onConnect env h a ty master slave s)"
| "nimble_callback env ClientFailed s = Some (client_onConnectFail s)"
| "nimble_callback env (ClientDown h) s = Some (client_onDisconnect h s)"
| "nimble_callback env (ServerUp h a ty master slave) s = Some (server_onConnect env h a ty master slave s)"
| "nimble_callback env (ServerDown h) s = Some (server_onDisconnect h s)"
| "nimble_callback env (AdvertisingStopped reason) s = Some (advertising_onStopped reason s)"

fun nimble_callbacks :: "(environment \<times> nimble_event) list \<Rightarrow> sketch \<Rightarrow> sketch option" where
  "nimble_callbacks [] s = Some s"
| "nimble_callbacks ((env, e) # es) s = Option.bind (nimble_callback env e s) (nimble_callbacks es)"

fun short_event :: "nimble_event \<Rightarrow> bool" where
  "short_event (Notified h data n) = (unat n \<le> 60000)"
| "short_event (Written h data n) = (unat n \<le> 60000)"
| "short_event _ = True"

fun connects :: "nimble_event \<Rightarrow> bool" where
  "connects (ClientUp h a ty master slave) = True"
| "connects (ServerUp h a ty master slave) = True"
| "connects _ = False"

subsection \<open>Callbacks\<close>

lemma sk_tracker_of [simp]:
  "sk_tracker (sk_bump s) = sk_tracker s"
  "sk_tracker (sk_on_tracker f s) = f (sk_tracker s)"
  by (simp_all add: sk_bump_def sk_on_tracker_def)

lemmas callback_defs = isr_def onResult_def client_onConnect_def client_onConnectFail_def
  client_onDisconnect_def server_onConnect_def server_onDisconnect_def advertising_onStopped_def

lemma received:
  assumes "unat n \<le> 60000" and "tracker_ok (sk_tracker s)"
  shows "\<exists>u. sketch_receive env h data n s = Some u \<and> tracker_ok (sk_tracker u)"
proof -
  have "\<exists>u. esp_processWrite env con 0 data n t = Some u" for con t
    using processWrite_with_total_and_local [of 0 n data data] assms(1)
    by (auto simp: esp_processWrite_def)
  then have "\<exists>u. sketch_receive env h data n s = Some u"
    by (auto simp: sketch_receive_def split_def Let_def)
  then show ?thesis using sketch_receive_ok [OF assms(2)] by blast
qed

lemma callback_runs:
  assumes "short_event e" and "tracker_ok (sk_tracker s)"
  shows "\<exists>u. nimble_callback env e s = Some u \<and> tracker_ok (sk_tracker u)"
proof (cases e)
  case (Notified h data n)
  then show ?thesis using received [of n s env h data] assms by (simp add: notifyCB_def)
next
  case (Written h data n)
  then show ?thesis using received [of n s env h data] assms by (auto simp: onWrite_def)
qed (use assms in \<open>simp_all add: callback_defs Let_def simple_op_ok esp_reportConnection_ok
      esp_reportDisconnection_ok\<close>)

lemma callbacks_run:
  assumes "list_all (\<lambda>e. short_event (snd e)) es" and "tracker_ok (sk_tracker s)"
  shows "\<exists>u. nimble_callbacks es s = Some u \<and> tracker_ok (sk_tracker u)"
  using assms
proof (induction es s rule: nimble_callbacks.induct)
  case (2 env e es s)
  then obtain u where "nimble_callback env e s = Some u" "tracker_ok (sk_tracker u)"
    using callback_runs [of e s env] by auto
  then show ?case using 2 by auto
qed simp

subsection \<open>A callback that connects no one keeps the neighbours\<close>

lemma neighbours_kept [simp]:
  "available_neighbours (snd (connectionForConnHandle h t)) = available_neighbours t"
  "available_neighbours (relay_stored env p t) = available_neighbours t"
  "available_neighbours (updateOrStorePeerNameFromAnnouncement a con t) = available_neighbours t"
  "available_neighbours (possiblyUpdateTimeOffset env ts t) = available_neighbours t"
  "available_neighbours (snd (storeMessageAndReturnIfNew m t)) = available_neighbours t"
  "available_neighbours (snd (storeAnnounceAndReturnIfNew env a t)) = available_neighbours t"
  "available_neighbours (esp_updatePreferences env q save t) = available_neighbours t"
  "available_neighbours (esp_reportDisconnection h t) = available_neighbours t"
  by (auto simp: connectionForConnHandle_def alter_connection_def relay_stored_def Let_def split_def
      packet_set_ttl_def checkSenderInPeers_def enqueueBroadcastPacket_from_def
      enqueueBroadcastPacket_def updateOrStorePeerNameFromAnnouncement_def alter_peer_def
      setConnectionHandleForPeer_def possiblyUpdateTimeOffset_def storeMessageAndReturnIfNew_def
      storeAnnounceAndReturnIfNew_def esp_updatePreferences_def bt_invoke_def
      esp_reportDisconnection_def split: option.split packet_ref.split)

lemma received_neighbours:
  assumes "sketch_receive env h data n s = Some u"
  shows "available_neighbours (sk_tracker u) = available_neighbours (sk_tracker s)"
  using assms
  by (auto simp: sketch_receive_def split_def Let_def esp_processWrite_def processWrite_with_def
      split: if_splits option.splits prod.splits)

lemma callback_neighbours:
  assumes "\<not> connects e" and "nimble_callback env e s = Some u"
    and "map_find a (available_neighbours (sk_tracker s)) \<noteq> None"
  shows "map_find a (available_neighbours (sk_tracker u)) \<noteq> None"
proof (cases e)
  case (Notified h data n)
  then show ?thesis using assms received_neighbours [of env h data n s u] by (simp add: notifyCB_def)
next
  case (Written h data n)
  then show ?thesis using assms received_neighbours [of env h data n s] by (auto simp: onWrite_def)
next
  case (Scanned phy_coded adv)
  then show ?thesis
    using assms by (auto simp: onResult_def Let_def addAvailablePeer_def
        updateRssiForActiveConnections_def)
qed (use assms in \<open>auto simp: callback_defs\<close>)

lemma callbacks_neighbours:
  assumes "\<not> list_ex (\<lambda>e. connects (snd e)) es" and "nimble_callbacks es s = Some u"
    and "map_find a (available_neighbours (sk_tracker s)) \<noteq> None"
  shows "map_find a (available_neighbours (sk_tracker u)) \<noteq> None"
  using assms
proof (induction es s rule: nimble_callbacks.induct)
  case (2 env e es s)
  then obtain v where v: "nimble_callback env e s = Some v" "nimble_callbacks es v = Some u"
    by (cases "nimble_callback env e s") auto
  have "map_find a (available_neighbours (sk_tracker v)) \<noteq> None"
    using 2 callback_neighbours [OF _ v(1)] by auto
  then show ?case using 2 v by simp
qed simp

subsection \<open>The parts of the loop\<close>

text \<open>
  A round whose waits run the given callbacks: while a scan lasts, while \<open>connect\<close> blocks, in
  the pause before the sleep and in the delay at the end.
\<close>

type_synonym callbacks = "(environment \<times> nimble_event) list"

fun with_callbacks :: "sketch_round \<times> callbacks \<times> callbacks \<times> callbacks \<times> callbacks \<Rightarrow> sketch_round"
  where
  "with_callbacks (r, scan, blocked, pause, delay) =
     r\<lparr>r_scan := nimble_callbacks scan, r_blocked := nimble_callbacks blocked,
       r_pause := nimble_callbacks pause, r_delay := nimble_callbacks delay\<rparr>"

definition pointers_ok :: "sketch_state \<Rightarrow> bool" where
  "pointers_ok s \<longleftrightarrow> tracker_ok (sk_tracker (sk s))"

lemma generate_pointers:
  "tracker_ok (sk_tracker s) \<Longrightarrow>
   tracker_ok (sk_tracker (sketch_generateMessageIfNeeded env addr level s))"
  using simple_op_ok(2) [of "sk_tracker s"]
  by (auto simp: sketch_generateMessageIfNeeded_def Let_def split_def split: option.split
      intro!: enqueueBroadcastPacket_ok)

lemma scan_results_run:
  assumes "pointers_ok s" and "\<And>v. tracker_ok (sk_tracker v) \<Longrightarrow>
      \<exists>u. r_scan r v = Some u \<and> tracker_ok (sk_tracker u)"
  shows "\<exists>ls u. sketch_scan_results r s = Some (ls, u) \<and> pointers_ok u"
  using assms(1) assms(2) [of "sk s"] by (auto simp: sketch_scan_results_def pointers_ok_def)

lemma announce_pointers: "pointers_ok s \<Longrightarrow> pointers_ok (sketch_announce r ls s)"
  by (simp add: sketch_announce_def pointers_ok_def esp_announceToConnections_ok)

text \<open>The neighbour is read after \<open>connect\<close> returned: it has to be there still.\<close>

lemma connect_runs:
  assumes "tracker_ok (sk_tracker s)"
    and "\<exists>u. blocked s = Some u \<and> tracker_ok (sk_tracker u) \<and>
      (\<forall>a. map_find a (available_neighbours (sk_tracker s)) \<noteq> None \<longrightarrow>
        map_find a (available_neighbours (sk_tracker u)) \<noteq> None)"
  shows "\<exists>b u. sketch_connect r blocked s = Some (b, u) \<and> tracker_ok (sk_tracker u)"
proof (cases "getConnectableNeighbours (sk_tracker s)")
  case (Cons a rest)
  then have "a \<in> fst ` set (available_neighbours (sk_tracker s))"
    unfolding getConnectableNeighbours_def
    by (metis (no_types, lifting) filter_is_subset image_mono in_mono list.set_intros(1) set_map)
  then have "map_find a (available_neighbours (sk_tracker s)) \<noteq> None"
    by (simp add: map_find_def map_of_eq_None_iff)
  then show ?thesis
    using assms Cons
    by (auto simp: sketch_connect_def Let_def simple_op_ok split: option.split)
qed (use assms(1) in \<open>auto simp: sketch_connect_def\<close>)

lemma connecting_runs:
  assumes "pointers_ok s" and "\<And>v. tracker_ok (sk_tracker v) \<Longrightarrow>
      \<exists>u. r_blocked r v = Some u \<and> tracker_ok (sk_tracker u) \<and>
        (\<forall>a. map_find a (available_neighbours (sk_tracker v)) \<noteq> None \<longrightarrow>
          map_find a (available_neighbours (sk_tracker u)) \<noteq> None)"
  shows "\<exists>ls' u. sketch_connecting r ls s = Some (ls', u) \<and> pointers_ok u"
proof -
  obtain b u where "sketch_connect (r_connect r) (r_blocked r) (sk s) = Some (b, u)"
    "tracker_ok (sk_tracker u)"
    using connect_runs [of "sk s" "r_blocked r" "r_connect r"] assms by (auto simp: pointers_ok_def)
  then show ?thesis using assms(1) by (simp add: sketch_connecting_def pointers_ok_def Let_def)
qed

lemma send_pointers: "pointers_ok s \<Longrightarrow> pointers_ok (sketch_send r ls s)"
  using esp_sendPackets_ok [of "(sk_tracker (sk s), sk_calls (sk s))"
      "(r_env r)\<lparr>env_time_us := r_clock r AtSend\<rparr>" "r_stack r"]
  by (auto simp: sketch_send_def pointers_ok_def Let_def split: prod.splits)

lemma flash_pointers: "pointers_ok (sketch_flash r ls s) = pointers_ok s"
  by (simp add: sketch_flash_def pointers_ok_def)

lemma rescan_pointers: "pointers_ok (snd (sketch_rescan r ls s)) = pointers_ok s"
  by (simp add: sketch_rescan_def pointers_ok_def sketch_start_scanning_def)

lemma sleep_runs:
  assumes "pointers_ok s" and "\<And>v. tracker_ok (sk_tracker v) \<Longrightarrow>
      \<exists>u. r_pause r v = Some u \<and> tracker_ok (sk_tracker u)"
  shows "\<exists>u. sketch_sleep r ls s = Some u \<and> pointers_ok u"
  using assms(1) assms(2) [of "sk s"] by (auto simp: sketch_sleep_def pointers_ok_def Let_def)

subsection \<open>The loop\<close>

fun calm :: "sketch_round \<times> callbacks \<times> callbacks \<times> callbacks \<times> callbacks \<Rightarrow> bool" where
  "calm (r, scan, blocked, pause, delay) \<longleftrightarrow>
     list_all (\<lambda>e. short_event (snd e)) (scan @ blocked @ pause @ delay) \<and>
     \<not> list_ex (\<lambda>e. connects (snd e)) blocked"

lemma loop_runs:
  assumes "calm plan" and "pointers_ok s"
  shows "\<exists>u. sketch_loop (with_callbacks plan) s = Some u \<and> pointers_ok u"
proof -
  obtain r0 scan blocked pause delay where plan: "plan = (r0, scan, blocked, pause, delay)"
    by (cases plan)
  define r where "r = with_callbacks plan"
  have runs: "\<exists>u. r_scan r v = Some u \<and> tracker_ok (sk_tracker u)"
    "\<exists>u. r_pause r v = Some u \<and> tracker_ok (sk_tracker u)"
    "\<exists>u. r_delay r v = Some u \<and> tracker_ok (sk_tracker u)"
    "\<exists>u. r_blocked r v = Some u \<and> tracker_ok (sk_tracker u) \<and>
        (\<forall>a. map_find a (available_neighbours (sk_tracker v)) \<noteq> None \<longrightarrow>
          map_find a (available_neighbours (sk_tracker u)) \<noteq> None)"
    if "tracker_ok (sk_tracker v)" for v
    using assms(1) callbacks_run [OF _ that] callbacks_neighbours [of blocked v]
    by (fastforce simp: r_def plan)+
  define s1 where "s1 = s\<lparr>sk := sketch_generateMessageIfNeeded
      ((r_env r)\<lparr>env_time_us := r_clock r AtGenerate\<rparr>) (r_local_addr r) (r_pin_level r) (sk s)\<rparr>"
  have "pointers_ok s1" using assms(2) by (simp add: s1_def pointers_ok_def generate_pointers)
  then obtain l2 s2 where s2: "sketch_scan_results r s1 = Some (l2, s2)" "pointers_ok s2"
    using scan_results_run [OF _ runs(1)] by blast
  then obtain l3 s3 where s3: "sketch_connecting r l2 (sketch_announce r l2 s2) = Some (l3, s3)"
    "pointers_ok s3"
    using connecting_runs [OF announce_pointers runs(4)] by blast
  obtain l4 s5 where s5: "sketch_rescan r l3 (sketch_flash r l3 (sketch_send r l3 s3)) = (l4, s5)"
    by (cases "sketch_rescan r l3 (sketch_flash r l3 (sketch_send r l3 s3))")
  have "pointers_ok s5"
    using rescan_pointers [of r l3 "sketch_flash r l3 (sketch_send r l3 s3)"] s3(2)
    by (simp add: s5 flash_pointers send_pointers)
  then have "pointers_ok (s5\<lparr>sk_last_activity := sk_activity (sk s5)\<rparr>)" by (simp add: pointers_ok_def)
  then obtain s7 where s7: "sketch_sleep r l4 (s5\<lparr>sk_last_activity := sk_activity (sk s5)\<rparr>) = Some s7"
    "pointers_ok s7"
    using sleep_runs [OF _ runs(2)] by blast
  obtain v where "r_delay r (sk s7) = Some v" "tracker_ok (sk_tracker v)"
    using runs(3) [of "sk s7"] s7(2) by (auto simp: pointers_ok_def)
  then show ?thesis
    unfolding r_def [symmetric] sketch_loop_def s1_def [symmetric] Let_def
    using s7 by (simp add: s2(1) s3(1) s5 pointers_ok_def)
qed

lemma run_runs:
  assumes "list_all calm plans" and "pointers_ok s"
  shows "\<exists>u. sketch_run (map with_callbacks plans) s = Some u \<and> pointers_ok u"
  using assms
proof (induction plans arbitrary: s)
  case (Cons plan plans)
  then obtain v where "sketch_loop (with_callbacks plan) s = Some v" "pointers_ok v"
    using loop_runs [of plan s] by auto
  then show ?case using Cons by simp
qed simp

text \<open>
  C9: The sketch keeps running. From its start, with any stored preferences, through any number
  of rounds of \<open>loop\<close> and whatever callbacks NimBLE and the pin make while it waits, no round
  gets stuck and no pointer of the queues and maps dangles, provided that no connection comes
  up while \<open>connect\<close> blocks. (Without that a pointer is followed that dangles.)
\<close>

theorem sketch_keeps_running:
  assumes "list_all calm plans"
  shows "\<exists>u. sketch_run (map with_callbacks plans) (sketch_setup n now (sketch_statics start)) = Some u \<and>
    (let t = sk_tracker (sk u)
     in list_all (\<lambda>(p, h). packet_base t p \<noteq> None \<and> connection_at t h \<noteq> None)
          (packets_connections_sent_list t @ targeted_packets_to_send_list t) \<and>
        list_all (\<lambda>(p, i). packet_base t p \<noteq> None \<and> peerWithId i t \<noteq> None)
          (packets_peers_sent_list t) \<and>
        list_all (\<lambda>p. packet_base t p \<noteq> None) (broadcast_packets_to_send_list t) \<and>
        list_all (\<lambda>(h, i). peerWithId i t \<noteq> None) (handle_peer_map t))"
proof -
  have "pointers_ok (sketch_setup n now (sketch_statics start))"
    by (simp add: pointers_ok_def sketch_setup_def sketch_statics_def Sketch_init_def
        esp_load_preferences_ok Tracker_init_ok)
  from run_runs [OF assms this] obtain u where u:
    "sketch_run (map with_callbacks plans) (sketch_setup n now (sketch_statics start)) = Some u"
    "tracker_ok (sk_tracker (sk u))" by (auto simp: pointers_ok_def)
  show ?thesis using u(1) tracker_ok_pointers [OF u(2)] by (auto simp: Let_def)
qed

text \<open>A round in which the sketch sees a neighbour, connects to it, and is told an alert.\<close>

definition sample_plan :: "sketch_round \<times> callbacks \<times> callbacks \<times> callbacks \<times> callbacks" where
  "sample_plan =
     (sample_round,
      [(sample_env, Scanned 3 \<lparr>adv_name = None, adv_primary_phy = 1, adv_secondary_phy = 0,
          adv_service = True, adv_address = [1, 2, 3, 4, 5, 6], adv_address_type = 0, adv_rssi = 0\<rparr>)],
      [(sample_env, Interrupt False)],
      [(sample_env, Notified 0x41 sample_packet (of_nat (length sample_packet)))],
      [(sample_env, ClientUp 0x41 [1, 2, 3, 4, 5, 6] 0 True False), (sample_env, ClientDown 0x41)])"

theorem sketch_keeps_running_witness:
  "\<exists>u. sketch_run (map with_callbacks [sample_plan, sample_plan])
     (sketch_setup nvs_erased 0 (sketch_statics 0)) = Some u"
proof -
  have "length sample_packet < 60000"
    using message_packet_short [OF sample_message_valid(1-3) disjI1 [OF sample_message_valid(4)]
        disjI1 [OF sample_message_valid(5)]] by (simp add: sample_packet_def)
  then have "list_all calm [sample_plan, sample_plan]"
    by (simp add: sample_plan_def unat_of_nat take_bit_eq_mod)
  from sketch_keeps_running [OF this, of nvs_erased 0 0] show ?thesis by blast
qed

end
