(* ===== verification/Mixed_Mesh.thy ===== *)
theory Mixed_Mesh
  imports Mesh_Network Sketch_Safety
begin

section \<open>A mesh of boards and sketches\<close>

text \<open>
  The mesh of \<open>Mesh_Network\<close> with nodes that run the sketch among the boards that run
  \<^verbatim>\<open>main.cpp\<close>. What a sketch can hand on is the cargo of its tracker and what it gave to NimBLE.
\<close>

subsection \<open>The sketch's own operations\<close>

fun call_data :: "esp_call \<Rightarrow> bytes" where
  "call_data (WriteValue h data) = data"
| "call_data (NotifyValue h data) = data"

definition given :: "esp_call list \<Rightarrow> bytes set" where
  "given calls = call_data ` set calls"

definition esp_cargo_ok :: "message set \<Rightarrow> esp_tracker \<Rightarrow> bool" where
  "esp_cargo_ok R s \<longleftrightarrow> cargo_ok R (fst s) \<and> (\<forall>data \<in> given (snd s). carried R data)"

lemma esp_deliver_cargo:
  "esp_cargo_ok R s \<Longrightarrow> carried R data \<Longrightarrow> esp_cargo_ok R (snd (esp_deliver stack h data s))"
  by (simp add: esp_deliver_def esp_invoke_def esp_cargo_ok_def given_def split: option.split)

lemma esp_SendPacket_cargo:
  assumes "esp_cargo_ok R s"
  shows "esp_cargo_ok R (snd (esp_SendPacketToConnection stack p con s))"
proof -
  have cargo: "cargo_ok R (fst s)" using assms by (simp add: esp_cargo_ok_def)
  then have "esp_cargo_ok R (snd (packet_write p (fst s)), snd s)"
    using assms packet_write_cargo(1) by (simp add: esp_cargo_ok_def)
  then show ?thesis
    using assms packet_write_cargo(2) [OF cargo, of p]
    by (auto simp: esp_SendPacketToConnection_def Let_def split_def esp_deliver_cargo split: option.split)
qed

lemma esp_mark_cargo: "esp_cargo_ok R (mark_sent env p con t, calls) = esp_cargo_ok R (t, calls)"
  using cargo_ok_same [OF cargo_simple(11), of R env p con t] by (simp add: esp_cargo_ok_def)

lemma esp_sendPackets_cargo:
  assumes "esp_cargo_ok R s"
  shows "esp_cargo_ok R (snd (esp_sendPackets env stack s))"
proof -
  have queues: "esp_cargo_ok R (t\<lparr>targeted_packets_to_send_list := x\<rparr>, calls) = esp_cargo_ok R (t, calls)"
    "esp_cargo_ok R (t\<lparr>broadcast_packets_to_send_list := y\<rparr>, calls) = esp_cargo_ok R (t, calls)"
    for x y t calls
    using cargo_ok_same [OF cargo_fields(9) [where t = t and i = y], of R] cargo_ok_same [OF cargo_fields(10) [where t = t and g = x], of R]
    by (simp_all add: esp_cargo_ok_def)
  show ?thesis
    by (rule esp.round_preserves [where Q = "esp_cargo_ok R"])
      (simp_all add: assms queues esp_SendPacket_cargo esp_mark_cargo)
qed

lemma esp_cargo [simp]:
  "cargo (esp_load_preferences n t) = cargo t"
  "cargo (esp_updatePreferences env p save t) = cargo t"
  "cargo (esp_reportConnection env h addr ty rl t) = cargo t"
  "cargo (esp_reportDisconnection h t) = cargo t"
  by (simp_all add: esp_load_preferences_def Let_def esp_updatePreferences_def
      esp_reportConnection_def esp_reportDisconnection_def)

lemma announce_to_cargo:
  assumes "cargo_ok R t"
  shows "cargo_ok R (announce_to env c t)"
proof -
  let ?t = "t\<lparr>own_announce := setPacketTimestamp (own_announce t) (getTimeMs env t)\<rparr>"
  have "cargo_ok R ?t"
    using assms cargo_okD(6) [OF assms] by (simp add: cargo_own_announce setPacketTimestamp_def)
  then show ?thesis
    unfolding announce_to_def using cargo_ok_same [OF cargo_queues(2), of R _ _ _ ?t] by simp
qed

lemma esp_announce_cargo:
  assumes "cargo_ok R t"
  shows "cargo_ok R (esp_announceToConnections env t)"
proof -
  have "cargo_ok R t \<Longrightarrow> cargo_ok R (fold (announce_to env) cs t)" for cs t
    by (induction cs arbitrary: t) (simp_all add: announce_to_cargo)
  moreover have "cargo_ok R (esp_setupAnnounceIfNeeded env t)"
    using assms cargo_okD(6) [OF assms]
    by (simp add: esp_setupAnnounceIfNeeded_def Let_def cargo_own_announce setName_def
        setPacketSenderId_def setPacketFlags_def setPacketTtl_def Announce_setAltitude_def
        Announce_setLongitudeI_def Announce_setLatitudeI_def)
  ultimately show ?thesis by (simp add: esp_announceToConnections_def Let_def)
qed

lemma esp_received_cargo:
  assumes "cargo_ok R t" and "carried R data"
    and "esp_processWrite env con 0 data (of_nat (length data)) t = Some u"
  shows "cargo_ok R u"
proof (cases "says_message data")
  case True
  then obtain m where m: "genuine R m" "data = fst (Message_writePacket m)"
    using assms(2) by (auto simp: carried_def)
  have "sound m" using m(1) by (simp add: genuine_def)
  from esp_processWrite_message [OF sound_valid [OF this], of data "snd (Message_writePacket m)"]
  show ?thesis using received_cargo [OF assms(1,2)] assms(3) m(2) by simp
next
  case False
  have "cargo_ok R (esp_updatePreferences env p save t)" if "cargo_ok R t" for p save t
    using that cargo_ok_same [OF esp_cargo(2)] by blast
  from other_received [OF assms(1) False [unfolded says_message_def] this
      assms(3) [unfolded esp_processWrite_def]] show ?thesis .
qed

subsection \<open>The alerts of the sketch\<close>

lemma sketch_event_simps [simp]:
  "packet_version (sketch_event_message env a b s l t) = 1"
  "packet_type (sketch_event_message env a b s l t) = type_message"
  "packet_flags (sketch_event_message env a b s l t) = 0"
  "payload_length (sketch_event_message env a b s l t) = 0"
  "sending_connection_handle (sketch_event_message env a b s l t) = 0"
  "packet_sender_id (sketch_event_message env a b s l t) = env_board_id env"
  "channel (sketch_event_message env a b s l t) = ascii ''#smoke''"
  "sender_nickname (sketch_event_message env a b s l t) = sketch_nickname a"
  by (simp_all add: sketch_event_message_def Let_def setContent_def setMessageId_def setChannel_def
      setSenderNickname_def Message_setLatitudeI_def Message_setLongitudeI_def
      Message_setAltitude_def Message_init5_def Base_init6_def Base_init4_def Base_init_def Message_blank_def
      setPayloadLength_def)

lemma sketch_event_sound:
  assumes "b \<or> s \<or> l"
  shows "sound (sketch_event_message env a b s l t)"
proof -
  have "length (sketch_nickname a) = 18"
    by (simp add: sketch_nickname_def Let_def write_uint8_hex16_def write_data_take
        ble_smoke_detector_service_name_def ascii_def)
  then show ?thesis
    using event_content_bounds(2) [OF assms] event_content_bounds(1) [of b s l]
    by (simp add: sound_def write_uint64_def ascii_def)
qed

definition sketch_reported :: "environment \<Rightarrow> bytes \<Rightarrow> bool \<Rightarrow> sketch \<Rightarrow> message list" where
  "sketch_reported env local_addr level s =
     (let smoke = (\<not> pin_state s \<or> \<not> level)
      in if weHaveTheTime (sk_tracker s) \<and> (sk_fresh_boot s \<or> smoke \<or> sk_life_check s)
         then [sketch_event_message env local_addr (sk_fresh_boot s) smoke (sk_life_check s)
                 (sk_tracker s)]
         else [])"

lemma sketch_reported_facts:
  assumes "r \<in> set (sketch_reported env local_addr level s)"
  shows "packet_sender_id r = env_board_id env" "channel r = ascii ''#smoke''"
    "(\<exists>before. content r = before @ ascii ''Smoke seen'') \<longrightarrow> \<not> pin_state s \<or> \<not> level"
  using assms event_content_smoke [of "sk_fresh_boot s" "\<not> pin_state s \<or> \<not> level" "sk_life_check s"]
  by (auto simp: sketch_reported_def Let_def split: if_splits)

lemma alike_refl: "alike m m"
  by (simp add: alike_def)

lemma sketch_generate_cargo:
  assumes "cargo_ok R (sk_tracker s)" and "u = sketch_generateMessageIfNeeded env a level s"
  shows "cargo_ok (set (sketch_reported env a level s) \<union> R) (sk_tracker u)"
    and "sk_calls u = sk_calls s" and "\<not> pin_state u \<Longrightarrow> \<not> pin_state s"
proof -
  define m where "m = sketch_event_message env a (sk_fresh_boot s) (\<not> pin_state s \<or> \<not> level)
      (sk_life_check s) (sk_tracker s)"
  let ?go = "weHaveTheTime (sk_tracker s) \<and>
      (sk_fresh_boot s \<or> (\<not> pin_state s \<or> \<not> level) \<or> sk_life_check s)"
  let ?stored = "storeMessageAndReturnIfNew m (sk_tracker s)"
  have trk: "sk_tracker u = (if ?go
      then case fst ?stored of None \<Rightarrow> snd ?stored | Some p \<Rightarrow> enqueueBroadcastPacket p (snd ?stored)
      else sk_tracker s)"
    unfolding assms(2) sketch_generateMessageIfNeeded_def Let_def split_def m_def [symmetric]
    by (auto split: option.split)
  show "cargo_ok (set (sketch_reported env a level s) \<union> R) (sk_tracker u)"
  proof (cases ?go)
    case True
    have r: "sketch_reported env a level s = [m]"
      unfolding sketch_reported_def Let_def m_def if_P [OF True] ..
    have "sound m" unfolding m_def by (rule sketch_event_sound) (rule conjunct2 [OF True])
    then have "genuine (insert m R) m" unfolding genuine_def by (blast intro: alike_refl)
    moreover have "cargo_ok (insert m R) (sk_tracker s)" using assms(1) by (rule cargo_ok_mono) blast
    ultimately have "cargo_ok (insert m R) (snd ?stored)" by (rule store_message_cargo [rotated])
    moreover have "cargo_ok (insert m R) (enqueueBroadcastPacket p t) = cargo_ok (insert m R) t" for p t
      by (rule cargo_ok_same) simp
    ultimately show ?thesis unfolding trk if_P [OF True] r by (simp split: option.split)
  next
    case False
    have "sketch_reported env a level s = []"
      unfolding sketch_reported_def Let_def if_not_P [OF False] ..
    then show ?thesis using assms(1) unfolding trk if_not_P [OF False] by simp
  qed
  show "sk_calls u = sk_calls s" "\<not> pin_state u \<Longrightarrow> \<not> pin_state s"
    unfolding assms(2) sketch_generateMessageIfNeeded_def Let_def split_def
    by (auto simp: sk_bump_def split: option.splits if_splits)
qed

subsection \<open>What a sketch does on its own\<close>

text \<open>
  The steps of a sketch but the pin, the alerts and the deliveries: callbacks of NimBLE, the parts
  of the loop, and the restart after a deep sleep. \<open>flags\<close> is any change of the loop's own flags
  and counters.
\<close>

fun quiet_event :: "nimble_event \<Rightarrow> bool" where
  "quiet_event (Interrupt level) = False"
| "quiet_event (Notified h data n) = False"
| "quiet_event (Written h data n) = False"
| "quiet_event _ = True"

inductive sketch_quiet :: "sketch \<Rightarrow> sketch \<Rightarrow> bool" where
  callback: "quiet_event e \<Longrightarrow> nimble_callback env e s = Some u \<Longrightarrow> sketch_quiet s u"
| load: "sketch_quiet s (sk_on_tracker (esp_load_preferences n) s)"
| announce: "sketch_quiet s (sk_on_tracker (esp_announceToConnections env) s)"
| send: "esp_sendPackets env stack (sk_tracker s, sk_calls s) = (active, (t, calls)) \<Longrightarrow>
    sketch_quiet s (s\<lparr>sk_tracker := t, sk_calls := calls\<rparr>)"
| failed: "sketch_quiet s (sk_on_tracker (reportConnectionFailure address reason) s)"
| started: "sketch_quiet s (sk_on_tracker (setConnectionStarted neighbour) s)"
| flags: "sk_tracker u = sk_tracker s \<Longrightarrow> sk_calls u = sk_calls s \<Longrightarrow> pin_state u = pin_state s \<Longrightarrow>
    sketch_quiet s u"
| restart: "sketch_quiet s (Sketch_init\<lparr>sk_calls := sk_calls s\<rparr>)"

definition sketch_cargo_ok :: "message set \<Rightarrow> sketch \<Rightarrow> bool" where
  "sketch_cargo_ok R s \<longleftrightarrow> esp_cargo_ok R (sk_tracker s, sk_calls s)"

lemma sketch_cargo_same:
  assumes "cargo (sk_tracker u) = cargo (sk_tracker s)" and "sk_calls u = sk_calls s"
  shows "sketch_cargo_ok R u = sketch_cargo_ok R s"
  using cargo_ok_same [OF assms(1)] assms(2) by (simp add: sketch_cargo_ok_def esp_cargo_ok_def)

lemma sk_bump_simps [simp]:
  "sk_calls (sk_bump s) = sk_calls s" "pin_state (sk_bump s) = pin_state s"
  "sk_calls (sk_on_tracker f s) = sk_calls s" "pin_state (sk_on_tracker f s) = pin_state s"
  by (simp_all add: sk_bump_def sk_on_tracker_def)

lemma quiet_callback_same:
  assumes "quiet_event e" and "nimble_callback env e s = Some u"
  shows "cargo (sk_tracker u) = cargo (sk_tracker s)" and "sk_calls u = sk_calls s"
    and "pin_state u = pin_state s"
proof -
  have "cargo (sk_tracker u) = cargo (sk_tracker s) \<and> sk_calls u = sk_calls s \<and> pin_state u = pin_state s"
    using assms by (cases e) (auto simp: callback_defs Let_def split: if_splits)
  then show "cargo (sk_tracker u) = cargo (sk_tracker s)" "sk_calls u = sk_calls s"
    "pin_state u = pin_state s" by blast+
qed

lemma sketch_quiet_cargo:
  assumes "sketch_quiet s u" and "sketch_cargo_ok R s"
  shows "sketch_cargo_ok R u" and "\<not> pin_state u \<Longrightarrow> \<not> pin_state s"
proof -
  have "sketch_cargo_ok R u \<and> (\<not> pin_state u \<longrightarrow> \<not> pin_state s)"
    using assms
  proof (induction rule: sketch_quiet.induct)
    case (callback e env s u)
    note same = quiet_callback_same [OF callback(1,2)]
    show ?case using sketch_cargo_same [OF same(1,2)] same(3) callback(3) by simp
  next
    case (load s n)
    then show ?case using sketch_cargo_same [of "sk_on_tracker (esp_load_preferences n) s" s R] by simp
  next
    case (announce s env)
    then show ?case by (simp add: sketch_cargo_ok_def esp_cargo_ok_def esp_announce_cargo)
  next
    case (send env stack s active t calls)
    then show ?case
      using esp_sendPackets_cargo [of R "(sk_tracker s, sk_calls s)" env stack]
      by (simp add: sketch_cargo_ok_def)
  next
    case (failed s address reason)
    then show ?case
      using sketch_cargo_same [of "sk_on_tracker (reportConnectionFailure address reason) s" s R] by simp
  next
    case (started s neighbour)
    then show ?case
      using sketch_cargo_same [of "sk_on_tracker (setConnectionStarted neighbour) s" s R] by simp
  next
    case (flags u s)
    then show ?case using sketch_cargo_same [of u s R] by simp
  next
    case (restart s)
    then show ?case by (simp add: sketch_cargo_ok_def esp_cargo_ok_def Sketch_init_def cargo_ok_init)
  qed
  then show "sketch_cargo_ok R u" "\<not> pin_state u \<Longrightarrow> \<not> pin_state s" by blast+
qed

text \<open>The parts of the loop are such steps.\<close>

lemma sketch_parts_quiet:
  "sketch_quiet\<^sup>*\<^sup>* (sk s) (sk (sketch_announce r ls s))"
  "sketch_quiet\<^sup>*\<^sup>* (sk s) (sk (sketch_flash r ls s))"
  "sketch_quiet\<^sup>*\<^sup>* (sk s) (sk (snd (sketch_rescan r ls s)))"
  "sketch_quiet\<^sup>*\<^sup>* (sk s) (sk (sketch_send r ls s))"
proof -
  show "sketch_quiet\<^sup>*\<^sup>* (sk s) (sk (sketch_announce r ls s))"
    by (auto simp: sketch_announce_def intro: sketch_quiet.announce)
  show "sketch_quiet\<^sup>*\<^sup>* (sk s) (sk (sketch_flash r ls s))"
    by (simp add: sketch_flash_def)
  show "sketch_quiet\<^sup>*\<^sup>* (sk s) (sk (snd (sketch_rescan r ls s)))"
    by (auto simp: sketch_rescan_def sketch_start_scanning_def sk_bump_def intro!: sketch_quiet.flags)
  obtain active t calls where send:
    "esp_sendPackets ((r_env r)\<lparr>env_time_us := r_clock r AtSend\<rparr>) (r_stack r)
       (sk_tracker (sk s), sk_calls (sk s)) = (active, (t, calls))"
    by (metis surj_pair)
  have "sketch_quiet (sk s) ((sk s)\<lparr>sk_tracker := t, sk_calls := calls\<rparr>)"
    using send by (rule sketch_quiet.send)
  moreover have "sketch_quiet u (sk_bump u)" for u by (rule sketch_quiet.flags) simp_all
  ultimately show "sketch_quiet\<^sup>*\<^sup>* (sk s) (sk (sketch_send r ls s))"
    by (auto simp: sketch_send_def send Let_def intro: converse_rtranclp_into_rtranclp)
qed

subsection \<open>The mesh\<close>

datatype node = Board nat | Sketch nat

record mixed_mesh =
  mx_board :: "nat \<Rightarrow> device"
  mx_sketch :: "nat \<Rightarrow> sketch"
  mx_raised :: "(node \<times> message) list"
  mx_alarmed :: "node set"

definition mixed_start :: mixed_mesh where
  "mixed_start = \<lparr>mx_board = (\<lambda>_. Device_init), mx_sketch = (\<lambda>_. Sketch_init), mx_raised = [],
     mx_alarmed = {}\<rparr>"

definition mixed_air :: "mixed_mesh \<Rightarrow> bytes \<Rightarrow> bool" where
  "mixed_air s data \<longleftrightarrow> \<not> says_message data \<or>
     (\<exists>i. data \<in> set (handed (connection_tracker (mx_board s i)))) \<or>
     (\<exists>i. data \<in> given (sk_calls (mx_sketch s i)))"

definition put_board :: "nat \<Rightarrow> device \<Rightarrow> mixed_mesh \<Rightarrow> mixed_mesh" where
  "put_board i d s = s\<lparr>mx_board := (mx_board s)(i := d)\<rparr>"

definition put_sketch :: "nat \<Rightarrow> sketch \<Rightarrow> mixed_mesh \<Rightarrow> mixed_mesh" where
  "put_sketch i d s = s\<lparr>mx_sketch := (mx_sketch s)(i := d)\<rparr>"

fun node_messages :: "mixed_mesh \<Rightarrow> node \<Rightarrow> (bytes \<times> message) list" where
  "node_messages s (Board i) = messages (connection_tracker (mx_board s i))"
| "node_messages s (Sketch i) = messages (sk_tracker (mx_sketch s i))"

inductive mixed_step :: "(node \<Rightarrow> u64) \<Rightarrow> mixed_mesh \<Rightarrow> mixed_mesh \<Rightarrow> bool" for ids where
  board_quiet: "quiet_step (mx_board s i) u \<Longrightarrow> mixed_step ids s (put_board i u s)"
| board_pin: "mixed_step ids s ((put_board i (gpio_callback edge_fall pin events (mx_board s i)) s)
    \<lparr>mx_alarmed := mx_alarmed s \<union>
      (if pin = SMOKE_SEEN_PIN \<and> events AND edge_fall \<noteq> 0 then {Board i} else {})\<rparr>)"
| board_generate: "env_board_id env = ids (Board i) \<Longrightarrow>
    mixed_step ids s ((put_board i (generateMessageIfNeeded env (mx_board s i)) s)
      \<lparr>mx_raised := map (Pair (Board i)) (reported env (mx_board s i)) @ mx_raised s\<rparr>)"
| board_notified: "mixed_air s data \<Longrightarrow>
    handle_gatt_client_value_update_event env (Notification h data (of_nat (length data))) (mx_board s i)
      = Some u \<Longrightarrow> mixed_step ids s (put_board i u s)"
| board_written: "mixed_air s data \<Longrightarrow>
    att_write_callback env profile le16 nv con h mode 0 data (of_nat (length data)) (mx_board s i)
      = Some u \<Longrightarrow> mixed_step ids s (put_board i u s)"
| sketch_quiet: "sketch_quiet (mx_sketch s i) u \<Longrightarrow> mixed_step ids s (put_sketch i u s)"
| sketch_pin: "mixed_step ids s ((put_sketch i (isr level (mx_sketch s i)) s)
    \<lparr>mx_alarmed := mx_alarmed s \<union> (if level then {} else {Sketch i})\<rparr>)"
| sketch_generate: "env_board_id env = ids (Sketch i) \<Longrightarrow>
    mixed_step ids s ((put_sketch i (sketch_generateMessageIfNeeded env addr level (mx_sketch s i)) s)
      \<lparr>mx_raised := map (Pair (Sketch i)) (sketch_reported env addr level (mx_sketch s i)) @ mx_raised s,
        mx_alarmed := mx_alarmed s \<union> (if level then {} else {Sketch i})\<rparr>)"
| sketch_notified: "mixed_air s data \<Longrightarrow>
    notifyCB env h data (of_nat (length data)) (mx_sketch s i) = Some u \<Longrightarrow>
    mixed_step ids s (put_sketch i u s)"
| sketch_written: "mixed_air s data \<Longrightarrow>
    onWrite env h data (of_nat (length data)) (mx_sketch s i) = Some u \<Longrightarrow>
    mixed_step ids s (put_sketch i u s)"

inductive mixed_reachable :: "(node \<Rightarrow> u64) \<Rightarrow> mixed_mesh \<Rightarrow> bool" for ids where
  init: "mixed_reachable ids mixed_start"
| step: "mixed_reachable ids s \<Longrightarrow> mixed_step ids s u \<Longrightarrow> mixed_reachable ids u"

subsection \<open>The invariant of the mesh\<close>

text \<open>A raised message names its node, and says smoke only when the pin of the node was low.\<close>

definition raised_ok :: "(node \<Rightarrow> u64) \<Rightarrow> node set \<Rightarrow> node \<times> message \<Rightarrow> bool" where
  "raised_ok ids A e \<longleftrightarrow>
     packet_sender_id (snd e) = ids (fst e) \<and> channel (snd e) = ascii ''#smoke'' \<and>
     ((\<exists>before. content (snd e) = before @ ascii ''Smoke seen'') \<longrightarrow> fst e \<in> A)"

definition mixed_ok :: "(node \<Rightarrow> u64) \<Rightarrow> mixed_mesh \<Rightarrow> bool" where
  "mixed_ok ids s \<longleftrightarrow>
     (\<forall>i. cargo_ok (snd ` set (mx_raised s)) (connection_tracker (mx_board s i)) \<and>
        (smoke_seen (mx_board s i) \<longrightarrow> Board i \<in> mx_alarmed s)) \<and>
     (\<forall>i. sketch_cargo_ok (snd ` set (mx_raised s)) (mx_sketch s i) \<and>
        (\<not> pin_state (mx_sketch s i) \<longrightarrow> Sketch i \<in> mx_alarmed s)) \<and>
     (\<forall>e \<in> set (mx_raised s). raised_ok ids (mx_alarmed s) e)"

lemma sketch_cargo_mono: "sketch_cargo_ok R s \<Longrightarrow> R \<subseteq> S \<Longrightarrow> sketch_cargo_ok S s"
  unfolding sketch_cargo_ok_def esp_cargo_ok_def by (meson cargo_ok_mono carried_mono)

lemma raised_ok_mono: "raised_ok ids A e \<Longrightarrow> A \<subseteq> B \<Longrightarrow> raised_ok ids B e"
  by (auto simp: raised_ok_def)

text \<open>
  One node changes, some messages are raised, some nodes see smoke: what has to be shown of the
  node that changes.
\<close>

lemma mixed_ok_board:
  assumes "mixed_ok ids s" and "set new \<subseteq> {m. raised_ok ids (mx_alarmed s \<union> A) (Board i, m)}"
    and "cargo_ok (set new \<union> snd ` set (mx_raised s)) (connection_tracker u)"
    and "smoke_seen u \<longrightarrow> Board i \<in> mx_alarmed s \<union> A"
  shows "mixed_ok ids ((put_board i u s)
      \<lparr>mx_raised := map (Pair (Board i)) new @ mx_raised s, mx_alarmed := mx_alarmed s \<union> A\<rparr>)"
proof -
  let ?R = "snd ` set (mx_raised s)"
  have sub: "?R \<subseteq> set new \<union> ?R" by blast
  have all: "snd ` (Pair (Board i) ` set new \<union> set (mx_raised s)) = set new \<union> ?R"
    by (simp add: image_Un image_image)
  show ?thesis
    using assms cargo_ok_mono [OF _ sub] sketch_cargo_mono [OF _ sub]
      raised_ok_mono [where A = "mx_alarmed s" and B = "mx_alarmed s \<union> A"]
    by (auto simp: mixed_ok_def put_board_def all)
qed

lemma mixed_ok_sketch:
  assumes "mixed_ok ids s" and "set new \<subseteq> {m. raised_ok ids (mx_alarmed s \<union> A) (Sketch i, m)}"
    and "sketch_cargo_ok (set new \<union> snd ` set (mx_raised s)) u"
    and "\<not> pin_state u \<longrightarrow> Sketch i \<in> mx_alarmed s \<union> A"
  shows "mixed_ok ids ((put_sketch i u s)
      \<lparr>mx_raised := map (Pair (Sketch i)) new @ mx_raised s, mx_alarmed := mx_alarmed s \<union> A\<rparr>)"
proof -
  let ?R = "snd ` set (mx_raised s)"
  have sub: "?R \<subseteq> set new \<union> ?R" by blast
  have all: "snd ` (Pair (Sketch i) ` set new \<union> set (mx_raised s)) = set new \<union> ?R"
    by (simp add: image_Un image_image)
  show ?thesis
    using assms cargo_ok_mono [OF _ sub] sketch_cargo_mono [OF _ sub]
      raised_ok_mono [where A = "mx_alarmed s" and B = "mx_alarmed s \<union> A"]
    by (auto simp: mixed_ok_def put_sketch_def all)
qed

lemma put_only [simp]:
  "(put_board i u s)\<lparr>mx_raised := mx_raised s\<rparr> = put_board i u s"
  "(put_board i u s)\<lparr>mx_alarmed := mx_alarmed s\<rparr> = put_board i u s"
  "(put_sketch i v s)\<lparr>mx_raised := mx_raised s\<rparr> = put_sketch i v s"
  "(put_sketch i v s)\<lparr>mx_alarmed := mx_alarmed s\<rparr> = put_sketch i v s"
  by (simp_all add: put_board_def put_sketch_def)

lemma mixed_air_carried:
  "mixed_ok ids s \<Longrightarrow> mixed_air s data \<Longrightarrow> carried (snd ` set (mx_raised s)) data"
  unfolding mixed_ok_def mixed_air_def sketch_cargo_ok_def esp_cargo_ok_def
  using cargo_okD(5) carried_other by fastforce

lemma mixed_okD:
  assumes "mixed_ok ids s"
  shows "cargo_ok (snd ` set (mx_raised s)) (connection_tracker (mx_board s i))"
    and "smoke_seen (mx_board s i) \<Longrightarrow> Board i \<in> mx_alarmed s"
    and "sketch_cargo_ok (snd ` set (mx_raised s)) (mx_sketch s i)"
    and "\<not> pin_state (mx_sketch s i) \<Longrightarrow> Sketch i \<in> mx_alarmed s"
    and "e \<in> set (mx_raised s) \<Longrightarrow> raised_ok ids (mx_alarmed s) e"
  using assms by (auto simp: mixed_ok_def)

lemmas mixed_ok_board_only = mixed_ok_board [where new = "[]" and A = "{}", simplified]
lemmas mixed_ok_sketch_only = mixed_ok_sketch [where new = "[]" and A = "{}", simplified]
lemmas mixed_ok_board_pin = mixed_ok_board [where new = "[]", simplified]
lemmas mixed_ok_sketch_pin = mixed_ok_sketch [where new = "[]", simplified]

lemma sketch_received_cargo:
  assumes "sketch_cargo_ok R s" and "carried R data"
    and "sketch_receive env h data (of_nat (length data)) s = Some u"
  shows "sketch_cargo_ok R u \<and> pin_state u = pin_state s"
proof -
  let ?t = "snd (connectionForConnHandle h (sk_tracker s))"
  have "cargo_ok R ?t"
    using assms(1) cargo_ok_same [OF cargo_simple(2)] by (simp add: sketch_cargo_ok_def esp_cargo_ok_def)
  from esp_received_cargo [OF this assms(2)] show ?thesis
    using assms(1,3)
    by (auto simp: sketch_receive_def Let_def split_def sketch_cargo_ok_def esp_cargo_ok_def)
qed

lemma mixed_sketch_received:
  assumes "mixed_ok ids s" and "mixed_air s data"
    and "sketch_receive env h data (of_nat (length data)) (mx_sketch s i) = Some u"
  shows "mixed_ok ids (put_sketch i u s)" and "mixed_ok ids (put_sketch i (sk_bump u) s)"
proof -
  note v = sketch_received_cargo [OF mixed_okD(3) [OF assms(1)] mixed_air_carried [OF assms(1,2)] assms(3)]
  have "sketch_cargo_ok R (sk_bump u) = sketch_cargo_ok R u" for R by (rule sketch_cargo_same) simp_all
  then show "mixed_ok ids (put_sketch i u s)" "mixed_ok ids (put_sketch i (sk_bump u) s)"
    using v mixed_okD(4) [OF assms(1)] by (auto intro!: mixed_ok_sketch_only [OF assms(1)])
qed

lemma mixed_step_ok:
  assumes "mixed_step ids s u" and "mixed_ok ids s"
  shows "mixed_ok ids u"
  using assms
proof (induction rule: mixed_step.induct)
  case (board_quiet s i u)
  note d = mixed_okD [OF board_quiet(2)]
  from quiet_cargo [OF board_quiet(1) d(1)] show ?case
    using d(2) by (intro mixed_ok_board_only board_quiet(2)) auto
next
  case (board_pin s pin events edge_fall i)
  let ?A = "if pin = SMOKE_SEEN_PIN \<and> events AND edge_fall \<noteq> 0 then {Board i} else {}"
  note d = mixed_okD [OF board_pin]
  have "smoke_seen (gpio_callback edge_fall pin events (mx_board s i)) \<longrightarrow> Board i \<in> mx_alarmed s \<union> ?A"
    using d(2) by (auto simp: gpio_callback_def Let_def smoke_same_device split: if_splits)
  from mixed_ok_board [where new = "[]", OF board_pin _ _ this] d(1) show ?case
    by (simp add: put_board_def)
next
  case (board_generate env i s)
  note d = mixed_okD [OF board_generate(2)]
  let ?r = "reported env (mx_board s i)"
  have "set ?r \<subseteq> {m. raised_ok ids (mx_alarmed s \<union> {}) (Board i, m)}"
    using reported_facts [of _ env "mx_board s i"] board_generate(1) d(2) by (auto simp: raised_ok_def)
  from mixed_ok_board [OF board_generate(2) this generate_cargo(1) [OF d(1)]] show ?case
    using generate_cargo(2) [OF d(1)] d(2) by (simp add: put_board_def)
next
  case (board_notified s data env h i u)
  note d = mixed_okD [OF board_notified(3)]
  from notified_cargo [OF d(1) mixed_air_carried [OF board_notified(3,1)] board_notified(2)] show ?case
    using d(2) by (intro mixed_ok_board_only board_notified(3)) auto
next
  case (board_written s data env profile le16 nv con h mode i u)
  note d = mixed_okD [OF board_written(3)]
  from written_cargo [OF d(1) mixed_air_carried [OF board_written(3,1)] board_written(2)] show ?case
    using d(2) by (intro mixed_ok_board_only board_written(3)) auto
next
  case (sketch_quiet s i u)
  note d = mixed_okD [OF sketch_quiet(2)]
  from sketch_quiet_cargo [OF sketch_quiet(1) d(3)] show ?case
    using d(4) by (intro mixed_ok_sketch_only sketch_quiet(2)) auto
next
  case (sketch_pin s level i)
  let ?u = "isr level (mx_sketch s i)" and ?A = "if level then {} else {Sketch i}"
  note d = mixed_okD [OF sketch_pin]
  have "sketch_cargo_ok R ?u = sketch_cargo_ok R (mx_sketch s i)" for R
    by (rule sketch_cargo_same) (simp_all add: isr_def)
  moreover have "\<not> pin_state ?u \<longrightarrow> Sketch i \<in> mx_alarmed s \<union> ?A" by (simp add: isr_def)
  ultimately show ?case
    using mixed_ok_sketch [where new = "[]" and A = ?A and u = ?u, OF sketch_pin] d(3)
    by (simp add: put_sketch_def)
next
  case (sketch_generate env i s level addr)
  let ?A = "if level then {} else {Sketch i}"
  let ?u = "sketch_generateMessageIfNeeded env addr level (mx_sketch s i)"
  let ?r = "sketch_reported env addr level (mx_sketch s i)"
  note d = mixed_okD [OF sketch_generate(2)]
  have cargo: "cargo_ok (snd ` set (mx_raised s)) (sk_tracker (mx_sketch s i))"
    "\<forall>data \<in> given (sk_calls (mx_sketch s i)). carried (snd ` set (mx_raised s)) data"
    using d(3) by (simp_all add: sketch_cargo_ok_def esp_cargo_ok_def)
  note g = sketch_generate_cargo [OF cargo(1) refl, of env addr level]
  have "sketch_cargo_ok (set ?r \<union> snd ` set (mx_raised s)) ?u"
    using g(1,2) cargo(2)
    by (auto simp: sketch_cargo_ok_def esp_cargo_ok_def intro: carried_mono [OF _ Un_upper2])
  moreover have "set ?r \<subseteq> {m. raised_ok ids (mx_alarmed s \<union> ?A) (Sketch i, m)}"
    using sketch_reported_facts [of _ env addr level "mx_sketch s i"] sketch_generate(1) d(4)
    by (auto simp: raised_ok_def)
  ultimately show ?case
    using mixed_ok_sketch [OF sketch_generate(2), of ?r ?A i ?u] g(3) d(4) by blast
next
  case (sketch_notified s data env h i u)
  then show ?case using mixed_sketch_received(1) by (simp add: notifyCB_def)
next
  case (sketch_written s data env h i u)
  then show ?case using mixed_sketch_received(2) by (auto simp: onWrite_def)
qed

lemma mixed_reachable_ok: "mixed_reachable ids s \<Longrightarrow> mixed_ok ids s"
proof (induction rule: mixed_reachable.induct)
  case init
  then show ?case by (simp add: mixed_ok_def mixed_start_def Device_init_def Sketch_init_def cargo_ok_init
        sketch_cargo_ok_def esp_cargo_ok_def given_def)
next
  case (step s u)
  then show ?case using mixed_step_ok by blast
qed

text \<open>
  C1: No false alarm. In a mesh of any number of boards and of sketches, whatever they do and
  however the radio loses, repeats, delays and misdirects packets: every message any node
  stores was raised by one of them, under that node's own id, and arrives as it was raised (id,
  text, channel, nickname, time and location) with at most three hops left. If its text says
  that smoke was seen, the smoke pin of that node was low at some time.
\<close>

theorem no_false_alarm_mixed:
  assumes "mixed_reachable ids s" and "map_find k (node_messages s n) = Some m"
  shows "\<exists>origin r. (origin, r) \<in> set (mx_raised s) \<and> alike m r \<and> packet_sender_id m = ids origin \<and>
    channel m = ascii ''#smoke'' \<and> packet_ttl m \<le> 3 \<and>
    ((\<exists>before. content m = before @ ascii ''Smoke seen'') \<longrightarrow> origin \<in> mx_alarmed s)"
proof -
  have ok: "mixed_ok ids s" using assms(1) by (rule mixed_reachable_ok)
  have "genuine (snd ` set (mx_raised s)) m"
    using assms(2) cargo_okD(1) [OF mixed_okD(1) [OF ok]] cargo_okD(1) [of _ "sk_tracker (mx_sketch s i)" for i]
      mixed_okD(3) [OF ok] by (cases n) (auto simp: sketch_cargo_ok_def esp_cargo_ok_def)
  then obtain origin r where r: "(origin, r) \<in> set (mx_raised s)" "alike m r" and "packet_ttl m \<le> 3"
    by (auto simp: genuine_def sound_def)
  moreover have "raised_ok ids (mx_alarmed s) (origin, r)" using mixed_okD(5) [OF ok r(1)] .
  ultimately show ?thesis
    by (intro exI [of _ origin] exI [of _ r]) (auto simp: raised_ok_def alike_def)
qed

text \<open>A sketch that is told the time by a phone, sees its pin low and reports it.\<close>

lemma esp_processWrite_same:
  assumes "fst (read_uint8 (snd (read_uint8 (BinaryReader offset buffer n)))) \<noteq> type_micro_mesh_preferences"
  shows "esp_processWrite env con offset buffer n t = processWrite env con offset buffer n t"
  using assms by (simp add: esp_processWrite_def processWrite_def processWrite_with_def Let_def split_def)

lemma time_packet_type:
  "fst (read_uint8 (snd (read_uint8 (BinaryReader 0 time_packet (of_nat (length time_packet)))))) \<noteq>
     type_micro_mesh_preferences"
  by code_simp

lemma sketch_told_the_time:
  "case notifyCB sample_env 0x40 time_packet (of_nat (length time_packet)) Sketch_init of
     None \<Rightarrow> False
   | Some u \<Rightarrow> weHaveTheTime (sk_tracker u) \<and> messages (sk_tracker u) = []"
  unfolding notifyCB_def sketch_receive_def Let_def split_def
    esp_processWrite_same [OF time_packet_type]
    processWrite_announce [OF time_announce_valid(1-3) disjI1 [OF time_announce_valid(4)]
      time_announce_valid(5,6,8) time_packet_short] option.map
  by code_simp

theorem no_false_alarm_mixed_witness:
  "\<exists>s k m. mixed_reachable (\<lambda>_. env_board_id sample_env) s \<and>
     map_find k (node_messages s (Sketch 0)) = Some m \<and> Sketch 0 \<in> mx_alarmed s \<and>
     (\<exists>origin r. (origin, r) \<in> set (mx_raised s) \<and> alike m r)"
proof -
  let ?ids = "\<lambda>_ :: node. env_board_id sample_env"
  obtain u where u: "notifyCB sample_env 0x40 time_packet (of_nat (length time_packet))
      (mx_sketch mixed_start 0) = Some u"
    "weHaveTheTime (sk_tracker u)" "messages (sk_tracker u) = []"
    using sketch_told_the_time by (auto simp: mixed_start_def split: option.splits)
  define s1 where "s1 = put_sketch 0 u mixed_start"
  define v where "v = isr False u"
  define s2 where "s2 = (put_sketch 0 v s1)\<lparr>mx_alarmed := mx_alarmed s1 \<union> (if False then {} else {Sketch 0})\<rparr>"
  let ?w = "sketch_generateMessageIfNeeded sample_env [1, 2, 3, 4, 5, 6] True v"
  define s3 where "s3 = (put_sketch 0 ?w s2)
      \<lparr>mx_raised := map (Pair (Sketch 0)) (sketch_reported sample_env [1, 2, 3, 4, 5, 6] True v) @ mx_raised s2,
       mx_alarmed := mx_alarmed s2 \<union> (if True then {} else {Sketch 0})\<rparr>"
  have "mixed_air mixed_start time_packet" using time_announce_valid(9) by (simp add: mixed_air_def)
  from mixed_reachable.step [OF mixed_reachable.init mixed_step.sketch_notified [OF this u(1), of ?ids]]
  have r1: "mixed_reachable ?ids s1" by (simp add: s1_def)
  have b1: "mx_sketch s1 0 = u" by (simp add: s1_def put_sketch_def)
  from mixed_reachable.step [OF r1 mixed_step.sketch_pin [where ids = ?ids and s = s1 and i = 0
      and level = False]]
  have r2: "mixed_reachable ?ids s2" by (simp only: s2_def v_def b1)
  have b2: "mx_sketch s2 0 = v" by (simp add: s2_def put_sketch_def)
  from mixed_reachable.step [OF r2 mixed_step.sketch_generate [of sample_env ?ids 0 s2 True "[1, 2, 3, 4, 5, 6]"]]
  have r3: "mixed_reachable ?ids s3" by (simp only: s3_def b2)
  have v: "weHaveTheTime (sk_tracker v)" "messages (sk_tracker v) = []" "\<not> pin_state v"
    using u(2,3) by (simp_all add: v_def isr_def)
  let ?m = "sketch_event_message sample_env [1, 2, 3, 4, 5, 6] (sk_fresh_boot v) True (sk_life_check v)
      (sk_tracker v)"
  have "map_find (message_id ?m) (messages (sk_tracker v)) = None" by (simp add: v(2))
  from sketch_generate_new [OF v(1) disjI1 [OF v(3)] refl this, of True]
  have "map_find (message_id ?m) (messages (sk_tracker ?w)) = Some ?m" by (simp add: Let_def)
  then have found: "map_find (message_id ?m) (node_messages s3 (Sketch 0)) = Some ?m"
    by (simp add: s3_def put_sketch_def)
  have "Sketch 0 \<in> mx_alarmed s3" by (simp add: s3_def s2_def)
  with r3 found no_false_alarm_mixed [OF r3 found] show ?thesis by blast
qed

end
