(* ===== verification/Sketch_Delivery.thy ===== *)
theory Sketch_Delivery
  imports Mixed_Mesh Alert_Delivery
begin

section \<open>From the pin of a sketch to the other nodes\<close>

text \<open>
  The composition of \<open>Alert_Delivery\<close> for the sketch: an alert is generated and sent in one
  round of \<open>sendPackets\<close>, which hands it to NimBLE without a callback; nodes of both kinds
  that are notified of it store it.
\<close>

lemma esp_SendPacket_notifies:
  assumes "packet_base (fst s) p = Some b" and "connection_at (fst s) h = Some c"
    and "connection_handle c = h" and "sending_connection_handle b = 0"
    and "bt_mtu c = 0 \<or> length (fst (packet_write p (fst s))) \<le> unat (bt_mtu c)"
    and "client_for stack h = None" and "server_has_characteristic stack"
  shows "snd (esp_SendPacketToConnection stack p h s) =
    (snd (packet_write p (fst s)), snd s @ [NotifyValue h (fst (packet_write p (fst s)))])"
proof -
  obtain data t1 where data: "packet_write p (fst s) = (data, t1)" by (cases "packet_write p (fst s)")
  have fits: "(bt_mtu c \<noteq> 0 \<and> unat (bt_mtu c) < length data) = False" using assms(5) data by auto
  show ?thesis
    by (simp only: assms(1-4) esp_SendPacketToConnection_def data fits Let_def prod.case option.case
        if_False snd_conv fst_conv) (simp add: esp_deliver_def esp_invoke_def assms(6,7))
qed

text \<open>One broadcast packet and one peer that connected to the sketch.\<close>

lemma esp_send_one_broadcast:
  assumes "tracker_ok t" and "broadcast_packets_to_send_list t = [p]"
    and "targeted_packets_to_send_list t = []" and "esp_available_connections t = [(h, c)]"
    and "connection_handle c = h" and "packet_base t p = Some b" and "sending_connection_handle b = 0"
    and "bt_mtu c = 0 \<or> length (fst (packet_write p t)) \<le> unat (bt_mtu c)"
    and "mm_find_on p (packets_connections_sent_list t) = []"
    and "client_for stack h = None" and "server_has_characteristic stack"
  shows "snd (snd (esp_sendPackets env stack (t, calls))) = calls @ [NotifyValue h (fst (packet_write p t))]"
proof -
  have "connection_at t h = Some c"
    using esp_available_at(1) [OF ok_stores [OF assms(1)], of h c] assms(4) by simp
  note send = esp_SendPacket_notifies [of "(t, calls)", unfolded fst_conv snd_conv,
      OF assms(6) this assms(5,7,8,10,11)]
  have "t\<lparr>targeted_packets_to_send_list := []\<rparr> = t" using assms(3) by simp
  moreover have "broadcast_sendable t p c" by (simp add: broadcast_sendable_def assms(9))
  ultimately show ?thesis
    using assms(2-4) send
    by (simp add: esp_sendPackets_def havePacketsToSend_def Let_def erase_if_def)
qed

text \<open>What a sketch does with the notification of a message it does not know.\<close>

lemma sketch_notified_stores:
  assumes "sound m" and "map_find (message_id m) (messages (sk_tracker e)) = None"
  shows "\<exists>u r. notifyCB env k (fst (Message_writePacket m)) (of_nat (length (fst (Message_writePacket m)))) e =
      Some u \<and> map_find (message_id m) (messages (sk_tracker u)) = Some r \<and> alike r m"
proof -
  let ?t = "snd (connectionForConnHandle k (sk_tracker e))"
  have "messages ?t = messages (sk_tracker e)"
    by (simp add: connectionForConnHandle_def alter_connection_def split: option.split)
  then have new: "map_find (message_id m) (messages ?t) = None" using assms(2) by simp
  obtain p v where c: "connectionForConnHandle k (sk_tracker e) = (p, v)"
    by (cases "connectionForConnHandle k (sk_tracker e)")
  from relayed_sound [OF assms(1) new, of env "map_at BleConnection_blank p (connections v)"]
  show ?thesis
    using esp_processWrite_message [OF sound_valid [OF assms(1)], of "fst (Message_writePacket m)"
        "snd (Message_writePacket m)" env "map_at BleConnection_blank p (connections v)" v]
    by (auto simp: notifyCB_def sketch_receive_def c Let_def)
qed

text \<open>
  C5: An alarm on a sketch reaches nodes of both kinds. When the smoke pin reads low on a sketch
  that knows the time, has one peer that connected to it and nothing else to send, then one
  round of generating and sending gives NimBLE one packet, a notification for that peer. Its
  text says that smoke was seen, and any board that runs \<^verbatim>\<open>main.cpp\<close> and any sketch that is
  notified of those bytes and does not know the message stores it with that text.
\<close>

theorem sketch_alarm_reaches_nodes:
  assumes "tracker_ok (sk_tracker s)" and "weHaveTheTime (sk_tracker s)"
    and "\<not> pin_state s \<or> \<not> level"
    and "m = sketch_event_message env a (sk_fresh_boot s) True (sk_life_check s) (sk_tracker s)"
    and "map_find (message_id m) (messages (sk_tracker s)) = None"
    and "broadcast_packets_to_send_list (sk_tracker s) = []"
    and "targeted_packets_to_send_list (sk_tracker s) = []"
    and "esp_available_connections (sk_tracker s) = [(h, c)]" and "connection_handle c = h"
    and "client_for stack h = None" and "server_has_characteristic stack"
    and "bt_mtu c = 0 \<or> length (fst (Message_writePacket m)) \<le> unat (bt_mtu c)"
  shows "let u = sketch_generateMessageIfNeeded env a level s
         in \<exists>data. snd (snd (esp_sendPackets env stack (sk_tracker u, sk_calls u))) =
                sk_calls s @ [NotifyValue h data] \<and>
              (\<exists>before. content m = before @ ascii ''Smoke seen'') \<and>
              (\<forall>env' k e. map_find (message_id m) (messages (connection_tracker e)) = None \<longrightarrow>
                 (\<exists>e' r. handle_gatt_client_value_update_event env'
                     (Notification k data (of_nat (length data))) e = Some e' \<and>
                   map_find (message_id m) (messages (connection_tracker e')) = Some r \<and>
                   content r = content m)) \<and>
              (\<forall>env' k e. map_find (message_id m) (messages (sk_tracker e)) = None \<longrightarrow>
                 (\<exists>e' r. notifyCB env' k data (of_nat (length data)) e = Some e' \<and>
                   map_find (message_id m) (messages (sk_tracker e')) = Some r \<and>
                   content r = content m))"
proof -
  define t where "t = sk_tracker s"
  define u where "u = sketch_generateMessageIfNeeded env a level s"
  define i where "i = message_id m"
  have m: "\<not> malformed m" "packet_ttl m = 3" "sending_connection_handle m = 0" "sound m"
    using sketch_event_sound by (simp_all add: assms(4))
  have smoke: "(\<not> pin_state s \<or> \<not> level) = True" using assms(3) by simp
  have store: "storeMessageAndReturnIfNew m t = (Some (MessageRef i),
      t\<lparr>messages := map_put i m (messages t)\<rparr>)"
    using assms(5) m(1) by (simp add: storeMessageAndReturnIfNew_def t_def i_def)
  have u: "sk_tracker u = t\<lparr>messages := map_put i m (messages t),
      broadcast_packets_to_send_list := [MessageRef i]\<rparr>" "sk_calls u = sk_calls s"
    unfolding u_def sketch_generateMessageIfNeeded_def Let_def smoke t_def [symmetric]
      assms(4) [folded t_def, symmetric] store
    using assms(2,6) m(2)
    by (simp_all add: enqueueBroadcastPacket_def packet_base_def base_of_def t_def)
  have "tracker_ok (sk_tracker u)"
    using generate_pointers [OF assms(1)] by (simp add: u_def)
  moreover have bytes: "fst (packet_write (MessageRef i) (sk_tracker u)) = fst (Message_writePacket m)"
    by (simp add: packet_write_def u split_def Let_def)
  moreover have "packet_base (sk_tracker u) (MessageRef i) = Some (base_of m)"
    by (simp add: packet_base_def u)
  moreover have "mm_find_on (MessageRef i) (packets_connections_sent_list (sk_tracker u)) = []"
    using packet_not_listed [OF assms(1,5)] by (simp add: u i_def t_def)
  ultimately have "snd (snd (esp_sendPackets env stack (sk_tracker u, sk_calls u))) =
      sk_calls s @ [NotifyValue h (fst (Message_writePacket m))]"
    using esp_send_one_broadcast [of "sk_tracker u" "MessageRef i" h c "base_of m" stack env "sk_calls u"]
      assms(7-12) m(3) by (simp add: u t_def esp_available_connections_def base_of_def)
  moreover have "\<exists>before. content m = before @ ascii ''Smoke seen''"
    using smoke_in_content by (simp add: assms(4))
  ultimately show ?thesis
    using notified_stores [OF m(4)] sketch_notified_stores [OF m(4)]
    unfolding u_def [symmetric] Let_def alike_def by blast
qed

text \<open>A sketch with one peer connected as handle \<open>0x40\<close>, its pin low.\<close>

definition connected_sketch :: sketch where
  "connected_sketch = sk_on_tracker (\<lambda>t. t\<lparr>connections := [(0x40, sample_connection)]\<rparr>)
     (sample_sketch\<lparr>pin_state := False\<rparr>)"

definition peer_stack :: esp_stack where
  "peer_stack = \<lparr>client_for = (\<lambda>_. None), server_has_characteristic = True, takes = (\<lambda>_. True)\<rparr>"

lemma connected_sketch_state:
  "weHaveTheTime (sk_tracker connected_sketch)" "\<not> pin_state connected_sketch"
  "messages (sk_tracker connected_sketch) = []"
  "broadcast_packets_to_send_list (sk_tracker connected_sketch) = []"
  "targeted_packets_to_send_list (sk_tracker connected_sketch) = []"
  "esp_available_connections (sk_tracker connected_sketch) = [(0x40, sample_connection)]"
  "connection_handle sample_connection = 0x40" "bt_mtu sample_connection = 0"
  "client_for peer_stack 0x40 = None" "server_has_characteristic peer_stack"
  by code_simp+

lemma connected_sketch_ok: "tracker_ok (sk_tracker connected_sketch)"
  by (simp add: tracker_ok_def stores_ok_def refs_ok_def connected_sketch_def sample_sketch_def
      Sketch_init_def Tracker_init_def map_sorted_def mm_sorted_def)

theorem sketch_alarm_reaches_nodes_witness:
  "\<exists>data. snd (snd (esp_sendPackets sample_env peer_stack
     (sk_tracker (sketch_generateMessageIfNeeded sample_env [1, 2, 3, 4, 5, 6] True connected_sketch),
      sk_calls (sketch_generateMessageIfNeeded sample_env [1, 2, 3, 4, 5, 6] True connected_sketch)))) =
     sk_calls connected_sketch @ [NotifyValue 0x40 data]"
proof -
  let ?m = "sketch_event_message sample_env [1, 2, 3, 4, 5, 6] (sk_fresh_boot connected_sketch) True
      (sk_life_check connected_sketch) (sk_tracker connected_sketch)"
  note s = connected_sketch_state
  have new: "map_find (message_id ?m) (messages (sk_tracker connected_sketch)) = None" by (simp add: s(3))
  have mtu: "bt_mtu sample_connection = 0 \<or>
      length (fst (Message_writePacket ?m)) \<le> unat (bt_mtu sample_connection)"
    by (simp add: s(8))
  from sketch_alarm_reaches_nodes [OF connected_sketch_ok s(1) disjI1 [OF s(2)] refl new s(4-7,9,10) mtu,
      of True]
  show ?thesis by (simp only: Let_def) blast
qed

end
