(* ===== verification/Loop_Delivery.thy ===== *)
theory Loop_Delivery
  imports Alert_Delivery Device_Loop
begin

section \<open>From the pin to the stack, through the main loop\<close>











text \<open>
  The witness: \<open>connected_alarm\<close> with a scan running, one round of the scan at time 0 and the next
  one and a half seconds later.
\<close>

definition scanning_alarm :: main_state where
  "scanning_alarm = (main_init 0 (connected_alarm\<lparr>scanning := True\<rparr>))\<lparr>lastCleanup := 0\<rparr>"

lemma scanning_alarm_fields [simp]:
  "connection_tracker (dev scanning_alarm) = connection_tracker connected_alarm"
  "fresh_boot (dev scanning_alarm) = fresh_boot connected_alarm"
  "life_check (dev scanning_alarm) = life_check connected_alarm"
  by (simp_all add: scanning_alarm_def main_init_def)



end
