(* ===== verification/Packet_Lengths.thy ===== *)
theory Packet_Lengths
  imports Message_Packet Announce_Packet Preferences_Packet
begin

section \<open>The length a packet states\<close>

text \<open>
  \<open>getPayloadLength\<close> computes the length in the header from the fields, \<open>writePacketPayload\<close>
  writes the fields. Where the two have different conditions the stated length is too large.
\<close>

lemma Message_stated_extra:
  assumes "payload_length m = 0" and "packet_type m = type_message"
    and "channel m \<noteq> []" and "content m = []"
  shows "fst (Message_getPayloadLength m) =
    of_nat (length (Message_writePacketPayload [] m)) + of_nat (2 + min 255 (length (channel m)))"
proof -
  let ?n = "m\<lparr>channel := []\<rparr>"
  have var: "variableLength ?n ty sz = variableLength m ty sz" for ty sz
    by (simp add: variableLength_def)
  have "fst (Message_getPayloadLength m) = fst (Message_getPayloadLength ?n) +
      variableLength m tlv_message_channel (length (channel m))"
    using assms by (simp add: Message_getPayloadLength_def Let_def var ac_simps)
  also have "fst (Message_getPayloadLength ?n) = of_nat (length (Message_writePacketPayload [] ?n))"
    using Message_length_entries [of ?n] assms(1,2) by (simp add: Message_payload_entries)
  also have "Message_writePacketPayload [] ?n = Message_writePacketPayload [] m"
    using assms(4) by (simp add: Message_payload_entries message_entries_def)
  also have "variableLength m tlv_message_channel (length (channel m)) =
      of_nat (2 + min 255 (length (channel m)))"
    using assms(2) by (intro variableLength_of_nat) simp
  finally show ?thesis .
qed

lemma Announce_stated_extra:
  assumes "payload_length a = 0" and "packet_type a = type_announce"
    and "length (direct_neighbors a) > 31"
  shows "fst (Announce_getPayloadLength a) =
    of_nat (length (Announce_writePacketPayload [] a)) + of_nat 250"
proof -
  let ?b = "a\<lparr>direct_neighbors := []\<rparr>"
  have var: "variableLength ?b ty sz = variableLength a ty sz" for ty sz
    by (simp add: variableLength_def)
  have some: "direct_neighbors a \<noteq> []" "min 248 (length (direct_neighbors a) * 8) = 248"
    using assms(3) by auto
  have "variableLength a tlv_announce_direct_neighbors (length (direct_neighbors a)) = 250"
    using assms(2) some(2) by (simp add: variableLength_def)
  then have "fst (Announce_getPayloadLength a) = fst (Announce_getPayloadLength ?b) + 250"
    using assms(1) some(1) by (simp add: Announce_getPayloadLength_def Let_def var ac_simps)
  also have "fst (Announce_getPayloadLength ?b) = of_nat (length (Announce_writePacketPayload [] ?b))"
    using Announce_length_entries [of ?b] assms(1,2) by (simp add: Announce_payload_entries)
  also have "Announce_writePacketPayload [] ?b = Announce_writePacketPayload [] a"
    using assms(3) by (simp add: Announce_payload_entries announce_entries_def)
  finally show ?thesis by simp
qed

lemma unat_small: "n < 60000 \<Longrightarrow> unat (of_nat n :: u32) = n"
  by (rule unat_of_nat_u32) simp

text \<open>
  C32: The length in the header of a packet. For a message it is the number of bytes of the payload
  but for a channel without content, which is counted and not written; for an announce it is that number but for more
  than 31 neighbours, which are counted as 250 bytes and not written; for preferences it is
  always that number. It is at most 2827, 2049 and 1542 bytes, so the 16 bits of version 1 hold it.
\<close>

theorem stated_length:
  assumes "payload_length m = 0" and "packet_type m = type_message"
    and "payload_length a = 0" and "packet_type a = type_announce"
    and "payload_length p = 0" and "packet_type p = type_micro_mesh_preferences"
  shows "unat (fst (Message_getPayloadLength m)) = length (Message_writePacketPayload [] m) +
       (if channel m \<noteq> [] \<and> content m = [] then 2 + min 255 (length (channel m)) else 0) \<and>
    unat (fst (Announce_getPayloadLength a)) = length (Announce_writePacketPayload [] a) +
       (if length (direct_neighbors a) > 31 then 250 else 0) \<and>
    unat (fst (Preferences_getPayloadLength p)) = length (Preferences_writePacketPayload [] p) \<and>
    unat (fst (Message_getPayloadLength m)) \<le> 2827 \<and>
    unat (fst (Announce_getPayloadLength a)) \<le> 2049 \<and>
    unat (fst (Preferences_getPayloadLength p)) \<le> 1542"
proof -
  have short: "length (Message_writePacketPayload [] m) \<le> 2570"
    "length (Announce_writePacketPayload [] a) \<le> 1799"
    "length (Preferences_writePacketPayload [] p) \<le> 1542"
    using message_entries_length announce_entries_length preferences_entries_length
    by (simp_all add: Message_payload_entries Announce_payload_entries Preferences_payload_entries)
  have m: "unat (fst (Message_getPayloadLength m)) = length (Message_writePacketPayload [] m) +
      (if channel m \<noteq> [] \<and> content m = [] then 2 + min 255 (length (channel m)) else 0)"
  proof (cases "channel m \<noteq> [] \<and> content m = []")
    case True
    then have stated: "fst (Message_getPayloadLength m) =
        of_nat (length (Message_writePacketPayload [] m) + (2 + min 255 (length (channel m))))"
      using Message_stated_extra [OF assms(1,2)] by (simp only: of_nat_add) simp
    have "length (Message_writePacketPayload [] m) + (2 + min 255 (length (channel m))) < 60000"
      using short(1) by simp
    then show ?thesis unfolding stated if_P [OF True] by (rule unat_small)
  next
    case False
    then show ?thesis
      using Message_length_entries [OF assms(1,2)] short(1) unat_small
      by (auto simp: Message_payload_entries)
  qed
  have a: "unat (fst (Announce_getPayloadLength a)) = length (Announce_writePacketPayload [] a) +
      (if length (direct_neighbors a) > 31 then 250 else 0)"
  proof (cases "length (direct_neighbors a) > 31")
    case True
    then have stated: "fst (Announce_getPayloadLength a) =
        of_nat (length (Announce_writePacketPayload [] a) + 250)"
      using Announce_stated_extra [OF assms(3,4)] by (simp only: of_nat_add)
    have "length (Announce_writePacketPayload [] a) + 250 < 60000" using short(2) by simp
    then show ?thesis unfolding stated if_P [OF True] by (rule unat_small)
  next
    case False
    then show ?thesis
      using Announce_length_entries [OF assms(3,4)] short(2) unat_small
      by (auto simp: Announce_payload_entries)
  qed
  have p: "unat (fst (Preferences_getPayloadLength p)) = length (Preferences_writePacketPayload [] p)"
    using Preferences_length_entries [OF assms(5,6)] short(3) unat_small
    by (auto simp: Preferences_payload_entries)
  show ?thesis using m a p short by auto
qed

subsection \<open>A length that is too large\<close>

text \<open>
  \<open>tail - getPayloadLength()\<close> wraps when the stated length is more than what is left of the
  buffer, and the loop ends after its first field.
\<close>

context tlv_entries
begin

lemma loop_stops_after_first:
  assumes "good e" and "reader_at r (tlv_bytes e @ rest)" and "\<not> malf m"
    and "unat tail < unat (cached m)" and "unat (cached m) < 60000"
  shows "tlv_loop step malf plen tail r m = Some (put_entry e m, advance r (length (tlv_bytes e)))"
proof -
  let ?r1 = "advance r (length (tlv_bytes e))"
  have step: "step r m = (put_entry e m, ?r1)" by (rule step_entry [OF assms(1,2)])
  have plen: "plen (put_entry e m) = (cached m, put_entry e m)"
  proof -
    have "cached m \<noteq> 0" using assms(4) by auto
    then show ?thesis using plen_cached [of "put_entry e m"] assms(1) by (simp add: cached_entry)
  qed
  have tail: "unat (ucast tail :: u32) = unat tail" by simp
  have "unat (ucast (read_remainder_len ?r1) :: u32) < 65536"
  proof -
    have "unat (read_remainder_len ?r1) < 2 ^ LENGTH(16)" by (rule unsigned_less)
    then show ?thesis by simp
  qed
  moreover have "unat (ucast tail - cached m) = unat tail + 4294967296 - unat (cached m)"
    using assms(4) tail by (simp add: unat_sub_if')
  ultimately have "\<not> (ucast (read_remainder_len ?r1) :: u32) > ucast tail - cached m"
    using assms(5) unfolding word_less_nat_alt by linarith
  then show ?thesis
    using step plen assms(1,3) by (subst tlv_loop.simps) (simp add: malf_entry)
qed

end

text \<open>So only the first field of a packet with such a length is read.\<close>

context packet_class
begin

lemma overstated_is_cut:
  assumes "packet_version m = 1" and "packet_type m = ty" and "\<not> hasSignature m"
    and "entries m = e # es" and "plen m = (len, m\<lparr>payload_length := len\<rparr>)"
    and "length (tlvs_bytes (entries m)) + 1 < unat len" and "unat len < 60000"
    and packet: "writePacket plen payload m [] = (packet, q)"
    and size: "length packet = n" "n < 65536"
  shows "\<exists>r1 r2 r3. read_uint8 (packet_reader packet [] n) = (1, r1) \<and>
           read_uint8 r1 = (ty, r2) \<and>
           packet_read blank ty step plen 1 r2 = Some (put_entry e (header_on_wire blank ty q), r3)"
proof -
  define p where "p = m\<lparr>payload_length := len\<rparr>"
  have "writePacket plen payload m [] =
      ([1, packet_type m] @ header_bytes p @ tlvs_bytes (entries m) @ [0], p)"
    using assms(5) payload_entries [of _ p]
    by (intro writePacket_v1 [OF assms(1,3)]) (simp_all add: p_def entries_update)
  then have q: "q = p" and pk: "packet = [1, ty] @ header_bytes q @ tlvs_bytes (entries m) @ [0]"
    using packet assms(2) by simp_all
  define r where "r = packet_reader packet [] n"
  define r2 where "r2 = advance (advance r (Suc 0)) (Suc 0)"
  define r3 where "r3 = advance r2 (length (header_bytes q))"
  define h where "h = header_on_wire blank ty q"
  have L: "unat (payload_length q) = unat len" by (simp add: q p_def)
  have "length packet \<le> n" "n \<le> length (packet @ [])" "unat (payload_length q) < 65536"
    using size L assms(7) by simp_all
  note frame = packet_frame [OF pk this(1,2) size(2) this(3), folded r_def, folded r2_def, folded r3_def]
  have base: "Base_read blank ty 1 r2 = (h, r3)"
    using frame(3) [of blank] by (simp add: h_def header_on_wire_def)
  have good: "good e" using entries_good [of e m] assms(4) by simp
  have "unat (rd_buffer_size r3) - unat (rd_pos r3) = length (tlvs_bytes (entries m)) + 1"
  proof -
    have n: "n = 2 + length (header_bytes q) + (length (tlvs_bytes (entries m)) + 1)"
      using size(1) pk by simp
    have "rd_pos r3 = of_nat (2 + length (header_bytes q))" "rd_buffer_size r3 = of_nat n"
      by (simp_all add: r3_def r2_def r_def packet_reader_def BinaryReader_def advance_def)
    moreover have "unat (of_nat (2 + length (header_bytes q)) :: u16) = 2 + length (header_bytes q)"
      using n size(2) by (intro unat_of_nat_u16) simp
    moreover have "unat (of_nat n :: u16) = n" using size(2) by (rule unat_of_nat_u16)
    ultimately show ?thesis using n by simp
  qed
  then have tail: "unat (read_remainder_len r3) < unat (payload_length h)"
    using frame(5) L assms(6) by (simp add: h_def)
  have "tlv_loop step malformed plen (read_remainder_len r3) r3 h =
      Some (put_entry e h, advance r3 (length (tlv_bytes e)))"
    using frame(4) good tail L assms(4,7)
    by (intro loop_stops_after_first [where rest = "tlvs_bytes es @ [0]"]) (simp_all add: h_def)
  moreover have "handleReaderRemainder (put_entry e h) r' = (put_entry e h, r')" for r'
    using assms(3) flags_entry [OF good]
    by (simp add: handleReaderRemainder_def hasSignature_def h_def q p_def)
  ultimately show ?thesis
    using frame(1,2) base by (simp add: packet_read_def r_def [symmetric] h_def [symmetric])
qed

end

text \<open>
  C37: A message with a channel but no text loses what it says. The length it states is too large
  for its own receiver, which stops after the first field: the id arrives, and the nickname, the
  flags, the reply and the location are gone.
\<close>

theorem channel_without_text_is_cut:
  assumes "packet_version m = 1" and "packet_type m = type_message" and "\<not> hasSignature m"
    and "payload_length m = 0" and "channel m \<noteq> []" and "content m = []" and "message_id m \<noteq> []"
    and "Message_writePacket m = (packet, q)" and "length packet < 65536"
  shows "\<exists>r1 r2 r3 m'. read_uint8 (packet_reader packet [] (length packet)) = (1, r1) \<and>
    read_uint8 r1 = (type_message, r2) \<and> Message_read 1 r2 = Some (m', r3) \<and>
    message_id m' = take 255 (message_id m) \<and> sender_nickname m' = [] \<and> channel m' = [] \<and>
    message_flags m' = 0 \<and> reply_id m' = 0 \<and> msg_latitude_i m' = 0 \<and>
    msg_longitude_i m' = 0 \<and> msg_altitude m' = 0"
proof -
  define len where "len = fst (Message_getPayloadLength m)"
  have stated: "len = of_nat (length (tlvs_bytes (message_entries m)) + (2 + min 255 (length (channel m))))"
    using Message_stated_extra [OF assms(4,2,5,6)]
    by (simp add: len_def Message_payload_entries)
  have "length (tlvs_bytes (message_entries m)) + (2 + min 255 (length (channel m))) < 60000"
    using message_entries_length [of m] by simp
  then have ulen: "unat len = length (tlvs_bytes (message_entries m)) + (2 + min 255 (length (channel m)))"
    unfolding stated by (rule unat_small)
  have plen: "Message_getPayloadLength m = (len, m\<lparr>payload_length := len\<rparr>)"
    using assms(4) by (simp add: len_def Message_getPayloadLength_def Let_def setPayloadLength_def)
  obtain es where es: "message_entries m = (tlv_message_id, take 255 (message_id m)) # es"
    using assms(7) by (simp add: message_entries_def)
  have "length (tlvs_bytes (message_entries m)) + 1 < unat len" "unat len < 60000"
    using ulen message_entries_length [of m] by simp_all
  from msg.overstated_is_cut [OF assms(1-3) es plen this assms(8) [unfolded Message_writePacket_def]
      refl assms(9)]
  obtain r1 r2 r3 where r: "read_uint8 (packet_reader packet [] (length packet)) = (1, r1)"
    "read_uint8 r1 = (type_message, r2)"
    "Message_read 1 r2 = Some (message_put (tlv_message_id, take 255 (message_id m))
      (header_on_wire Message_blank type_message q), r3)"
    unfolding Message_read_class by blast
  let ?m = "message_put (tlv_message_id, take 255 (message_id m))
      (header_on_wire Message_blank type_message q)"
  have "message_id ?m = take 255 (message_id m) \<and> sender_nickname ?m = [] \<and> channel ?m = [] \<and>
      message_flags ?m = 0 \<and> reply_id ?m = 0 \<and> msg_latitude_i ?m = 0 \<and> msg_longitude_i ?m = 0 \<and>
      msg_altitude ?m = 0"
    by (simp add: message_put_def header_on_wire_def Base_init_def Message_blank_def)
  with r show ?thesis by blast
qed

definition silent_message :: message where
  "silent_message = setChannel (setSenderNickname (setMessageId (Message_init5 3 60000 0 7 0)
     (ascii ''X1'')) (ascii ''Alice'')) (ascii ''#smoke'')"

lemma silent_message_valid:
  "packet_version silent_message = 1" "packet_type silent_message = type_message"
  "\<not> hasSignature silent_message" "payload_length silent_message = 0"
  "channel silent_message \<noteq> []" "content silent_message = []" "message_id silent_message \<noteq> []"
  "sender_nickname silent_message = ascii ''Alice''"
  by code_simp+

theorem channel_without_text_is_cut_witness:
  "\<exists>r2 r3 m'. Message_read 1 r2 = Some (m', r3) \<and> message_id m' = take 255 (message_id silent_message) \<and>
     sender_nickname silent_message = ascii ''Alice'' \<and> sender_nickname m' = []"
proof -
  obtain packet q where packet: "Message_writePacket silent_message = (packet, q)"
    by (cases "Message_writePacket silent_message")
  have "length (fst (Message_writePacket silent_message)) = 34" by code_simp
  then have "length packet < 65536" by (simp add: packet)
  from channel_without_text_is_cut [OF silent_message_valid(1-7) packet this]
  show ?thesis using silent_message_valid(8) by blast
qed

theorem stated_length_witness:
  "unat (fst (Message_getPayloadLength silent_message)) =
     length (Message_writePacketPayload [] silent_message) + 8"
proof -
  have a: "payload_length Announce_init = 0" "packet_type Announce_init = type_announce"
    "payload_length Preferences_init = 0" "packet_type Preferences_init = type_micro_mesh_preferences"
    by code_simp+
  have "length (channel silent_message) = 6" by code_simp
  then show ?thesis
    using stated_length [OF silent_message_valid(4,2) a] silent_message_valid(5,6) by simp
qed

end
