(* ===== verification/Recorded_Packets.thy ===== *)
theory Recorded_Packets
  imports Message_Packet
begin

section \<open>The packets recorded in the tests\<close>

text \<open>
  \<^verbatim>\<open>src/test/test_ble_smoke_detector.cpp\<close> holds two packets that a detector sent. The model of the
  writer writes exactly these bytes, and the model of the reader reads from them what the tests
  expect: a check of both against the program as it ran.
\<close>

definition data_booted :: bytes where
  "data_booted =
     [0x01, 0x02, 0x07, 0x00, 0x00, 0x01, 0x9F, 0x4C, 0x69, 0xF4, 0x00, 0x00, 0x00, 0x33, 0x00, 0x00,
      0x72, 0x48, 0x60, 0xB2, 0xF1, 0x80, 0x00, 0x0D, 0x4C, 0x69, 0xF4, 0x00, 0x3F, 0x00, 0x00, 0x72,
      0x48, 0x60, 0xB2, 0xF1, 0x80, 0x7D, 0x12, 0x53, 0x6D, 0x6F, 0x6B, 0x65, 0x44, 0x65, 0x74, 0x65,
      0x63, 0x74, 0x6F, 0x72, 0x3A, 0x34, 0x38, 0x37, 0x32, 0x7F, 0x06, 0x23, 0x73, 0x6D, 0x6F, 0x6B,
      0x65, 0x7E, 0x06, 0x42, 0x6F, 0x6F, 0x74, 0x65, 0x64, 0x00]"

definition data_booted_smoke_seen :: bytes where
  "data_booted_smoke_seen =
     [0x01, 0x02, 0x07, 0x00, 0x00, 0x01, 0x9F, 0x4C, 0x6B, 0xC8, 0xC0, 0x00, 0x00, 0x3E, 0x00, 0x00,
      0x72, 0x48, 0x60, 0xB2, 0xF1, 0x80, 0x00, 0x0D, 0x4C, 0x6B, 0xC8, 0xC0, 0xA7, 0x00, 0x00, 0x72,
      0x48, 0x60, 0xB2, 0xF1, 0x80, 0x7D, 0x12, 0x53, 0x6D, 0x6F, 0x6B, 0x65, 0x44, 0x65, 0x74, 0x65,
      0x63, 0x74, 0x6F, 0x72, 0x3A, 0x34, 0x38, 0x37, 0x32, 0x7F, 0x06, 0x23, 0x73, 0x6D, 0x6F, 0x6B,
      0x65, 0x7E, 0x11, 0x42, 0x6F, 0x6F, 0x74, 0x65, 0x64, 0x2B, 0x53, 0x6D, 0x6F, 0x6B, 0x65, 0x20,
      0x73, 0x65, 0x65, 0x6E, 0x00]"

definition recorded :: "u64 \<Rightarrow> bytes \<Rightarrow> bytes \<Rightarrow> message" where
  "recorded timestamp i said =
     setChannel (setSenderNickname (setMessageId (setContent
       (Message_init5 7 timestamp 0 0x724860b2f180 0) said) i)
       (ascii ''SmokeDetector:4872'')) (ascii ''#smoke'')"

definition booted :: message where
  "booted = recorded 0x19f4c69f400
     [0x4C, 0x69, 0xF4, 0x00, 0x3F, 0x00, 0x00, 0x72, 0x48, 0x60, 0xB2, 0xF1, 0x80] (ascii ''Booted'')"

definition booted_smoke_seen :: message where
  "booted_smoke_seen = recorded 0x19f4c6bc8c0
     [0x4C, 0x6B, 0xC8, 0xC0, 0xA7, 0x00, 0x00, 0x72, 0x48, 0x60, 0xB2, 0xF1, 0x80] (ascii ''Booted+Smoke seen'')"

lemma recorded_written:
  "fst (Message_writePacket booted) = data_booted"
  "fst (Message_writePacket booted_smoke_seen) = data_booted_smoke_seen"
  by code_simp+

lemma recorded_valid:
  "packet_version booted = 1" "packet_type booted = type_message" "\<not> hasSignature booted"
  "payload_length booted = 0" "content booted \<noteq> []" "Message_writePacketPayload [] booted \<noteq> []"
  "length data_booted = 74"
  "packet_version booted_smoke_seen = 1" "packet_type booted_smoke_seen = type_message"
  "\<not> hasSignature booted_smoke_seen" "payload_length booted_smoke_seen = 0"
  "content booted_smoke_seen \<noteq> []" "Message_writePacketPayload [] booted_smoke_seen \<noteq> []"
  "length data_booted_smoke_seen = 85"
  by code_simp+

lemma recorded_read:
  assumes "m = booted \<and> packet = data_booted \<or> m = booted_smoke_seen \<and> packet = data_booted_smoke_seen"
  shows "\<exists>r1 r2 r3 m'. read_uint8 (packet_reader packet [] (length packet)) = (1, r1) \<and>
     read_uint8 r1 = (type_message, r2) \<and> Message_read 1 r2 = Some (m', r3) \<and>
     packet_ttl m' = 7 \<and> packet_timestamp_ms m' = packet_timestamp_ms m \<and>
     packet_sender_id m' = 0x724860b2f180 \<and> message_id m' = message_id m \<and>
     sender_nickname m' = ascii ''SmokeDetector:4872'' \<and> channel m' = ascii ''#smoke'' \<and>
     content m' = content m"
proof -
  define q where "q = snd (Message_writePacket m)"
  have packet: "Message_writePacket m = (packet, q)"
    using assms recorded_written by (auto simp: q_def prod_eq_iff)
  have m: "packet_version m = 1" "packet_type m = type_message" "\<not> hasSignature m"
    "payload_length m = 0" "content m \<noteq> []" "Message_writePacketPayload [] m \<noteq> []" "length packet < 65536"
    using assms recorded_valid by auto
  from message_round_trip_lemma [OF m(1-3) disjI1 [OF m(4)] disjI2 [OF m(5)] m(6) packet, of "length packet" "[]"]
  obtain r1 r2 r3 where "read_uint8 (packet_reader packet [] (length packet)) = (1, r1)"
    "read_uint8 r1 = (type_message, r2)" "Message_read 1 r2 = Some (message_on_wire q, r3)"
    using m(7) by auto
  moreover have "packet_ttl (message_on_wire q) = 7 \<and>
      packet_timestamp_ms (message_on_wire q) = packet_timestamp_ms m \<and>
      packet_sender_id (message_on_wire q) = 0x724860b2f180 \<and> message_id (message_on_wire q) = message_id m \<and>
      sender_nickname (message_on_wire q) = ascii ''SmokeDetector:4872'' \<and>
      channel (message_on_wire q) = ascii ''#smoke'' \<and> content (message_on_wire q) = content m"
  proof -
    have "message_on_wire (snd (Message_writePacket booted)) = message_on_wire (booted\<lparr>payload_length := 51\<rparr>)"
      "message_on_wire (snd (Message_writePacket booted_smoke_seen)) =
        message_on_wire (booted_smoke_seen\<lparr>payload_length := 62\<rparr>)"
      by code_simp+
    with assms show ?thesis unfolding q_def
      by (auto simp: message_on_wire_def booted_def booted_smoke_seen_def recorded_def setChannel_def
          setSenderNickname_def setMessageId_def setContent_def Message_init5_def Base_init6_def
          Base_init4_def Base_init_def Message_blank_def setPayloadLength_def ascii_def)
  qed
  ultimately show ?thesis by blast
qed

end
