(* ===== verification/Spec2Isabelle.thy ===== *)
theory Spec2Isabelle
  imports Log_Properties Mesh_Types Advert_Dump Sketch_Setup Port_Equivalence Sketch_Delivery Loop_Delivery
    Packet_Lengths Recorded_Packets
begin

text \<open>
  A model of \<^verbatim>\<open>ble-smoke-detector\<close>: the firmware of a battery-powered board that listens to a
  smoke detector and spreads its alerts to neighbouring boards over a Bluetooth LE mesh.

  \<^bold>\<open>The program and the theories\<close>

  Sources are named relative to \<^verbatim>\<open>src/\<close>; files without a directory are in \<^verbatim>\<open>src/BLEPacket/\<close>.
  Definitions have the names of the methods they translate; methods that exist in several
  classes carry the class as a prefix (\<open>Message_writePacket\<close>), constructors the class name or
  \<open>Class_read\<close> for the constructor that reads a buffer.

  \<^item> \<open>Mesh_Prelude\<close>: machine integers at their width, byte strings, shared lemmas.
  \<^item> \<open>Binary_Reader\<close>, \<open>Binary_Writer\<close> (\<^verbatim>\<open>BinaryReader.cpp\<close>, \<^verbatim>\<open>BinaryWriter.cpp\<close>): the byte cursor
    with its 16-bit position, and big-endian output. \<open>Wire_Codec\<close> states the contract of the
    two as the locale \<open>wire_codec\<close> and interprets it for the five integer types.
  \<^item> \<open>Packet_Types\<close> (\<^verbatim>\<open>PacketTypes.h\<close>), \<open>Packet_Base\<close> (\<^verbatim>\<open>Base.cpp\<close>), \<open>Message_Packet\<close>,
    \<open>Announce_Packet\<close>, \<open>Preferences_Packet\<close> (\<^verbatim>\<open>Message.cpp\<close>, \<^verbatim>\<open>Announce.cpp\<close>,
    \<^verbatim>\<open>MicroMeshPreferences.cpp\<close>): the packets. The classes are record extensions of \<open>base\<close>; each
    has its loop over tag, length, value written out. \<open>Tlv_Loop\<close> holds that loop as a
    \<open>partial_function\<close>, so that not ending is \<open>None\<close>, with the locales \<open>tlv_step\<close> (a body that
    moves the cursor, hence the loop ends) and \<open>tlv_entries\<close> (a body that reads back what was
    written); \<open>Packet_Class\<close> holds the locale \<open>packet_class\<close>, which the three packet theories
    interpret and take their round trips from. \<open>Packet_Lengths\<close> compares the length a header
    states with the bytes that are written, and extends the two locales by what a reader makes of
    a length that is too large. \<open>Recorded_Packets\<close> has the two packets recorded in
    \<^verbatim>\<open>test/test_ble_smoke_detector.cpp\<close>: the writer produces their bytes, the reader their fields.
  \<^item> \<open>Std_Map\<close>: \<open>std::map\<close> as an association list in key order and \<open>std::multimap\<close> as a list, as
    the tracker uses them (locales \<open>std_map\<close> and \<open>keyed_queue\<close>).
  \<^item> \<open>Peer_Connection\<close> (\<^verbatim>\<open>Peer.cpp\<close>, \<^verbatim>\<open>BleConnection.cpp\<close>): peers, connections, and the discovery of
    services and characteristics.
  \<^item> \<open>Connection_Tracker\<close>, \<open>Tracker_Links\<close>, \<open>Tracker_Send\<close> (\<^verbatim>\<open>BleConnectionTracker.cpp\<close>): the
    state of a node (record \<open>tracker\<close>), its stores, its links, its queues of packets to relay,
    the sending of them and the clean-up. \<open>Tracker_Invariant\<close> has the invariant \<open>tracker_ok\<close>
    and one preservation lemma per operation; \<open>Tracker_Properties\<close>, \<open>Send_Properties\<close>
    and \<open>Broadcast_Properties\<close> state what the operations do. \<open>sendPackets\<close> is in the code twice: \<open>Sending_Port\<close> states what both
    share as the locale \<open>sending_port\<close>, which \<open>sound_port\<close> extends by the laws that carry
    \<open>tracker_ok\<close> through it; the board and the ESP32 (\<open>Sketch_Reachable\<close>) interpret them.
  \<^item> \<open>Protocol_Processor\<close> (\<^verbatim>\<open>ProtocolProcessor.cpp\<close>): what a received packet does to the tracker;
    properties in \<open>Processor_Properties\<close>.
  \<^item> \<open>Device_Main\<close>, \<open>Device_Handlers\<close>, \<open>Device_Flash\<close>, \<open>Device_Loop\<close> (\<^verbatim>\<open>main.cpp\<close>): the Pico W
    program: flags that the pin interrupt sets, callbacks of the stack, preferences in flash,
    and one pass of the main loop. \<open>Device_Reachable\<close> makes every callback, interrupt and loop
    action a case of \<open>device_step\<close>; \<open>Device_Ownership\<close> and \<open>Device_Properties\<close> prove what holds
    in every reachable state and what alerts, clean-up and restart do. \<open>Device_Setup\<close> is \<open>main\<close> as
    a whole, the calls of its set-up and then the loop, with the advertising buffers;
    \<open>Setup_Properties\<close> says what holds of it. \<open>Advert_Dump\<close> has the texts of advertisements and
    services that the code can log.
  \<^item> \<open>Mesh_Cargo\<close>, \<open>Mesh_Network\<close>: boards running this program, as one system. The state \<open>mesh\<close>
    has a device per board and the history of the alerts raised; \<open>mesh_step\<close> is a step of one
    board, and a board receives a message only if the stack of some board was given it, any
    number of times and in any order. The invariant \<open>mesh_ok\<close> says that the cargo of every
    board (its stores, queues and what it handed to the stack) is genuine. \<open>Mesh_Types\<close> adds the
    types of what is queued, and \<open>Alert_Delivery\<close> follows an alert from the flag of the pin to
    the call of the stack and into the neighbour's store, with what repeated callbacks send;
    \<open>Loop_Delivery\<close> follows it through the rounds of the main loop during and after a scan.
  \<^item> \<open>Platform_Types\<close> (\<^verbatim>\<open>ble_types.h\<close>): Bluetooth addresses as text, and the statistics line.
  \<^item> \<open>Circular_Buffer\<close>, \<open>Debug_Log\<close> (\<^verbatim>\<open>CircularBuffer.h\<close>, \<^verbatim>\<open>Debugging.cpp\<close>): the ring that holds
    the log and the printing of it. \<open>Ring_Refinement\<close> shows that string writes and consumption
    refine a log that keeps its last items (locale \<open>bounded_log\<close>), \<open>Log_Properties\<close> has the
    properties.
  \<^item> \<open>Esp_Tracker\<close>, \<open>Sketch_Main\<close> (\<^verbatim>\<open>BleConnectionTracker.cpp\<close> under \<open>ARDUINO_ARCH_ESP32\<close> and
    \<^verbatim>\<open>ble-smoke-detector.ino\<close>): the ESP32 variant, which hands packets to its stack at once and
    sleeps between alerts; properties in \<open>Sketch_Properties\<close>, the calls of its \<open>setup\<close> and its
    advertisements in \<open>Sketch_Setup\<close>. \<open>Sketch_Reachable\<close> and \<open>Sketch_Safety\<close> carry \<open>tracker_ok\<close>
    through its operations, its callbacks (\<open>nimble_event\<close>) and the rounds of its loop.
  \<^item> \<open>Port_Equivalence\<close>: the two ways of sending, related by the simulation \<open>ports_sim\<close>: trackers
    with one \<open>tracker_view\<close>, the raw packets of the one being the calls of the other; and the
    links, opened but not discovered, for which their guards differ.
  \<^item> \<open>Mixed_Mesh\<close>, \<open>Sketch_Delivery\<close>: nodes of both kinds in one mesh (\<open>mixed_step\<close>), with what a
    sketch gave to NimBLE in the air beside what boards gave to their stack, and an alert followed
    from the pin of a sketch into the stores of nodes of both kinds.

  \<^bold>\<open>State and pointers\<close>

  An operation takes the state and returns it. A pointer is the key of the object it points
  to (\<open>packet_ref\<close>, connection handle, peer id); reading through a key that is gone is \<open>None\<close>,
  which is how a dangling pointer shows. The two assertions on \<open>hasData\<close> are guards whose failure
  is \<open>None\<close> when \<open>env_asserts\<close> says that \<open>assert\<close> is compiled in; a run ends there. The other
  assertions of the modelled code hold wherever it returns. The order of a set of pointers is the order of the
  addresses \<open>env_address\<close>. \<open>None\<close> as the result of an operation that parses is a constructor
  that does not return.

  \<^bold>\<open>What is proved\<close>

  \<^item> Bytes: integers and packets round-trip; reading ends on every input and depends on the
    readable bytes only. The 16-bit position can wrap, so the loops are shown to end for
    buffers of less than 60000 bytes (an attribute value has at most 512 bytes, the flash sector
    4096): every pass moves the cursor by 2 to 258 bytes, and the first that starts past the end
    leaves the packet malformed. Strings are cut at 255 bytes and neighbours stop at 31; these
    bounds are hypotheses or visible in the conclusion. No fuel is used: loops that might not
    end are \<open>partial_function (option)\<close>.
  \<^item> System: in a mesh of any number of boards and sketches, whatever is lost, repeated, delayed or
    sent to the wrong node, no message appears that no node raised, and none says that smoke was
    seen unless the pin of the node it names was low; an alert travels three hops and no further,
    and callbacks that the stack makes for one connection empty its queue in order. An alert of a
    board and one of a sketch reach a neighbour that is notified.
  \<^item> Ports: from equal states, with stacks that take what they are given, both ports send the same
    packets to the same neighbours in the same order and keep the same records, as long as there
    is nothing to broadcast or every connected link has been discovered; for an undiscovered link
    the board keeps a broadcast that the ESP32 loses.
  \<^item> Sketch: no round of its loop gets stuck and no pointer of its tracker dangles, unless a
    connection comes up while \<open>connect\<close> blocks.
  \<^item> Board: an alert is stored, queued, kept while a scan runs, sent to each neighbour whose record
    does not say it was served, relayed with one hop less, and
    a message that is known is not relayed again; no reachable state holds a dangling pointer;
    only packets addressed to the node that carry its key change the preferences.
  \<^item> Set-up: handlers are registered before Bluetooth is turned on, the pins that are watched are
    those set up for it, and a detector's advertisement is recognised by the others.
  \<^item> Log: string writes keep the last \<open>fixed_size - 1\<close> items, indices stay in the array, and a
    log of lines below the size of the line buffer is printed whole and left empty.
  \<^item> Where the code does not do what it means to, the theorem states what it does: idle links
    are dropped at the first clean-up, a notification takes another handle's packet, a second
    event of the same minute is lost, of two connections to notify only one is called back for,
    a second start of the stack writes behind the advertising buffers, a failed start waits
    silently, a long line makes the log print again, single writes
    empty a full ring, a message with a channel and no text is cut by its receiver, and
    the sketch follows a dangling pointer and can sleep on an alert.

  \<^bold>\<open>Parameters\<close>

  \<^item> \<open>environment\<close>: the time, the board id, the addresses of packets, the hash of strings,
    \<open>env_asserts\<close>, whether \<open>assert\<close> is compiled in (\<open>NDEBUG\<close> is not defined), and \<open>env_status\<close>, the status the Bluetooth stack returns, which may depend on all calls made
    before. The calls themselves are the trace \<open>bt_calls\<close> of the tracker.
  \<^item> \<open>flash_device\<close>: page and sector size, what lies in memory behind the packet, and whether
    erasing and programming succeed. The initial memory of the ring is an argument of \<open>cb_init\<close>.
  \<^item> \<open>esp_stack\<close>: what NimBLE says of a connection and whether it takes a packet; the packets
    given to it are the list of \<open>esp_call\<close>s. In the sketch, callbacks that run while the loop
    waits are functions of the state in \<open>sketch_round\<close> and \<open>connect_result\<close>.

  \<^item> \<open>ad_iterator\<close> of the stack is a function from an advertisement to its structures, for which
    \<open>ad_iterates\<close> states the format of the Bluetooth specification.

  Hypotheses on these stand in the theorems that need them, and each such theorem has a
  witness on concrete values.

  \<^bold>\<open>Not modelled\<close>

  \<^item> Log lines and serial output, but for the dumps of advertisements, the fields \<open>printTime\<close> and
    \<open>printStats\<close> print, and the reason of a wake-up; the blinking of the LED; the tests, but for the
    packets recorded in them; and the constants and declarations that stand in for missing platform
    headers. They change nothing the model has.
  \<^item> Methods that only return a field are the record's selectors.
  \<^item> Time is read once per operation, and an interrupt between two reads within an operation is
    not a step of its own. In the sketch the callbacks of the NimBLE task run only where the
    loop waits, while on the chip they may run at any point of it.
  \<^item> Undefined behaviour that is not a dangling pointer is not given a value: \<open>llabs\<close> of the
    least number, and the order of the two reads inside one expression, which is taken from left
    to right.
  \<^item> \<open>requestNextRssi\<close> keeps a static iterator into a map whose elements come and go; the model
    holds its key, which is what the iterator points to while the element lives.
  \<^item> The radio: \<open>mesh_step\<close> lets a packet arrive at any board at any time after it was handed to a
    stack, and says nothing of how soon. That an alert does arrive is stated for a given path of
    boards. Packets that are not messages may be anything a stranger sends.

  What is left out is output, configuration and declarations. Coarser than the code are the points
  above: the interleaving of callbacks within an operation, the static iterator, and the time of
  the radio.
\<close>

end
